(* ===== verification/Go_Prelude.thy ===== *)
theory Go_Prelude
  imports Main "HOL-Library.Word" "HOL-Library.Multiset" "HOL-Library.Sublist"
begin

text \<open>
  Shared vocabulary of the development: Go's panics as values, computations that may
  panic, checked indexing and slicing, Go maps with their zero-value lookup, Go's fixed
  width integers, and the two conversions of \<open>math/big\<close> the program uses. The
  collection \<open>go_simps\<close> holds the rewriting facts of every component.
\<close>

named_theorems go_simps "rewriting facts about the Go operations of the model"

section \<open>Panics and computations that may panic\<close>

text \<open>
  A run-time panic of Go is a value; \<open>Raised\<close> is an explicit \<open>panic(err)\<close>.
  A computation returns \<open>Inl\<close> the panic that stops it or \<open>Inr\<close> its result.
\<close>

datatype go_panic =
    IndexOutOfRange
  | SliceOutOfRange
  | NilDereference
  | SendOnClosedChannel
  | CloseOfClosedChannel
  | Raised string

type_synonym 'a go = "go_panic + 'a"

definition go_bind :: "'a go \<Rightarrow> ('a \<Rightarrow> 'b go) \<Rightarrow> 'b go" where
  "go_bind r k = (case r of Inl p \<Rightarrow> Inl p | Inr x \<Rightarrow> k x)"

definition panics :: "'a go \<Rightarrow> bool" where
  "panics r \<longleftrightarrow> (case r of Inl _ \<Rightarrow> True | Inr _ \<Rightarrow> False)"

lemma go_bind_simps [simp]:
  "go_bind (Inl p) k = Inl p"
  "go_bind (Inr x) k = k x"
  by (simp_all add: go_bind_def)

lemma panics_simps [simp]:
  "panics (Inl p)"
  "\<not> panics (Inr x)"
  by (simp_all add: panics_def)

lemma go_bind_eq_Inr [go_simps]:
  "go_bind r k = Inr y \<longleftrightarrow> (\<exists>x. r = Inr x \<and> k x = Inr y)"
  by (cases r) auto

lemma go_bind_eq_Inl [go_simps]:
  "go_bind r k = Inl p \<longleftrightarrow> r = Inl p \<or> (\<exists>x. r = Inr x \<and> k x = Inl p)"
  by (cases r) auto

lemma panics_bind [go_simps]:
  "panics (go_bind r k) \<longleftrightarrow> panics r \<or> (\<exists>x. r = Inr x \<and> panics (k x))"
  by (cases r) auto

lemma go_bind_assoc: "go_bind (go_bind r k) l = go_bind r (\<lambda>x. go_bind (k x) l)"
  by (cases r) auto

lemma not_panicsE:
  assumes "\<not> panics r"
  obtains x where "r = Inr x"
  using assms by (cases r) auto

section \<open>Checked indexing and slicing\<close>

definition go_index :: "'a list \<Rightarrow> nat \<Rightarrow> 'a go" where
  "go_index xs i = (if i < length xs then Inr (xs ! i) else Inl IndexOutOfRange)"

text \<open>\<open>xs[len(xs)-1]\<close>: the index is \<open>-1\<close> on an empty slice, which panics.\<close>

definition go_last :: "'a list \<Rightarrow> 'a go" where
  "go_last xs = (case xs of [] \<Rightarrow> Inl IndexOutOfRange | _ \<Rightarrow> Inr (last xs))"

text \<open>\<open>s[lo:hi]\<close> on a string of bytes.\<close>

definition go_slice :: "'a list \<Rightarrow> nat \<Rightarrow> nat \<Rightarrow> 'a list go" where
  "go_slice xs lo hi =
     (if lo \<le> hi \<and> hi \<le> length xs then Inr (take (hi - lo) (drop lo xs))
      else Inl SliceOutOfRange)"

text \<open>\<open>s[lo:]\<close>.\<close>

definition go_slice_from :: "'a list \<Rightarrow> nat \<Rightarrow> 'a list go" where
  "go_slice_from xs lo = go_slice xs lo (length xs)"

lemma go_index_Inr [go_simps]: "go_index xs i = Inr x \<longleftrightarrow> i < length xs \<and> xs ! i = x"
  by (auto simp: go_index_def)

lemma panics_go_index [go_simps]: "panics (go_index xs i) \<longleftrightarrow> length xs \<le> i"
  by (auto simp: go_index_def)

lemma go_last_Nil [simp]: "go_last [] = Inl IndexOutOfRange"
  by (simp add: go_last_def)

lemma go_last_snoc [simp]: "go_last (xs @ [x]) = Inr x"
  by (cases xs) (simp_all add: go_last_def)

lemma go_last_nonempty [go_simps]: "xs \<noteq> [] \<Longrightarrow> go_last xs = Inr (last xs)"
  by (cases xs) (simp_all add: go_last_def)

lemma panics_go_last [go_simps]: "panics (go_last xs) \<longleftrightarrow> xs = []"
  by (cases xs) (simp_all add: go_last_def)

lemma panics_go_slice [go_simps]:
  "panics (go_slice xs lo hi) \<longleftrightarrow> \<not> (lo \<le> hi \<and> hi \<le> length xs)"
  by (auto simp: go_slice_def)

lemma find_append: "find P (xs @ ys) = (case find P xs of None \<Rightarrow> find P ys | Some x \<Rightarrow> Some x)"
  by (induction xs) auto

section \<open>Loops that append one result per element\<close>

text \<open>
  \<open>for _, x := range xs { ys = append(ys, f(x)) }\<close>, where \<open>f\<close> may panic: the
  first panic stops the loop.
\<close>

fun go_map :: "('a \<Rightarrow> 'b go) \<Rightarrow> 'a list \<Rightarrow> 'b list go" where
  "go_map f [] = Inr []"
| "go_map f (x # xs) = go_bind (f x) (\<lambda>y. go_bind (go_map f xs) (\<lambda>ys. Inr (y # ys)))"

lemma go_map_append:
  "go_map f (xs @ ys) = go_bind (go_map f xs) (\<lambda>as. go_bind (go_map f ys) (\<lambda>bs. Inr (as @ bs)))"
  by (induction xs) (simp_all add: go_bind_assoc, simp add: go_bind_def split: sum.splits)

lemma go_map_Inr: "go_map f xs = Inr ys \<longleftrightarrow> list_all2 (\<lambda>x y. f x = Inr y) xs ys"
  by (induction xs arbitrary: ys) (auto simp: go_simps list_all2_Cons1)

lemma panics_go_map [go_simps]: "panics (go_map f xs) \<longleftrightarrow> (\<exists>x \<in> set xs. panics (f x))"
proof (induction xs)
  case (Cons x xs)
  then show ?case by (cases "f x") (auto simp: go_simps)
qed simp

lemma go_map_length: "go_map f xs = Inr ys \<Longrightarrow> length ys = length xs"
  by (auto simp: go_map_Inr dest: list_all2_lengthD)

lemma go_map_total: "(\<And>x. x \<in> set xs \<Longrightarrow> f x = Inr (g x)) \<Longrightarrow> go_map f xs = Inr (map g xs)"
  by (induction xs) auto

lemma go_map_uniform:
  assumes "\<And>x. x \<in> set xs \<Longrightarrow> f x = (if P x then Inr (g x) else Inl p)"
  shows "go_map f xs = (if \<forall>x \<in> set xs. P x then Inr (map g xs) else Inl p)"
  using assms by (induction xs) auto

section \<open>Go maps\<close>

text \<open>
  A map that is only looked up is a partial function. A lookup without the comma-ok form
  returns the zero value of the element type for a missing key.
\<close>

definition map_get :: "'v \<Rightarrow> ('k \<rightharpoonup> 'v) \<Rightarrow> 'k \<Rightarrow> 'v" where
  "map_get z m k = (case m k of None \<Rightarrow> z | Some v \<Rightarrow> v)"

text \<open>
  A Go map that a loop ranges over is the association list of its entries in the order
  the loop meets them, which Go leaves open. Building a map entry by entry keeps the
  entry stored last.
\<close>

definition map_build :: "('a \<Rightarrow> 'k) \<Rightarrow> ('a \<Rightarrow> 'v) \<Rightarrow> 'a list \<Rightarrow> 'k \<rightharpoonup> 'v" where
  "map_build key val xs = fold (\<lambda>x m. m(key x \<mapsto> val x)) xs Map.empty"

lemma fold_upd_notin:
  "k \<notin> key ` set xs \<Longrightarrow> fold (\<lambda>x m. m(key x \<mapsto> val x)) xs m k = m k"
  by (induction xs arbitrary: m) auto

lemma map_build_None: "map_build key val xs k = None \<longleftrightarrow> k \<notin> key ` set xs"
proof (induction xs rule: rev_induct)
  case Nil
  show ?case by (simp add: map_build_def)
next
  case (snoc x xs)
  then show ?case by (auto simp: map_build_def)
qed

lemma map_build_Some_in:
  "map_build key val xs k = Some v \<Longrightarrow> \<exists>x \<in> set xs. key x = k \<and> val x = v"
proof (induction xs rule: rev_induct)
  case Nil
  then show ?case by (simp add: map_build_def)
next
  case (snoc x xs)
  then show ?case by (auto simp: map_build_def split: if_splits)
qed

text \<open>Where equal keys carry equal values the order of the entries is irrelevant.\<close>

lemma map_build_functional:
  assumes "\<And>x y. x \<in> set xs \<Longrightarrow> y \<in> set xs \<Longrightarrow> key x = key y \<Longrightarrow> val x = val y"
    and "x \<in> set xs"
  shows "map_build key val xs (key x) = Some (val x)"
proof -
  have "map_build key val xs (key x) \<noteq> None"
    using assms(2) by (auto simp: map_build_None)
  then obtain v where v: "map_build key val xs (key x) = Some v" by blast
  from map_build_Some_in [OF v] assms show ?thesis
    using v by metis
qed

section \<open>Machine integers and \<open>math/big\<close>\<close>

text \<open>
  \<open>int\<close> is 64 bits wide on the platforms the program is built for. Signed values are
  words read with \<open>sint\<close>; signed comparison is \<open>\<le>s\<close>.
\<close>

type_synonym int64 = "64 word"
type_synonym uint64 = "64 word"
type_synonym int32 = "32 word"
type_synonym byte = "8 word"

text \<open>
  \<open>(*big.Int).Int64\<close>: the low 64 bits of the magnitude, negated for a negative
  number, which is reduction modulo \<open>2^64\<close>.
\<close>

definition big_Int64 :: "int \<Rightarrow> int64" where
  "big_Int64 x = (if x < 0 then - word_of_int (- x) else word_of_int x)"

text \<open>\<open>(*big.Int).Uint64\<close>: the low 64 bits of the magnitude; the sign is lost.\<close>

definition big_Uint64 :: "int \<Rightarrow> uint64" where
  "big_Uint64 x = word_of_int \<bar>x\<bar>"

lemma big_Int64_eq: "big_Int64 x = word_of_int x"
  by (simp add: big_Int64_def)

lemma uint_big_Uint64: "uint (big_Uint64 x) = \<bar>x\<bar> mod 2 ^ 64"
  by (simp add: big_Uint64_def uint_word_of_int)

lemma big_Uint64_exact: "0 \<le> x \<Longrightarrow> x < 2 ^ 64 \<Longrightarrow> uint (big_Uint64 x) = x"
  by (simp add: uint_big_Uint64)

end
