(* ===== verification/Sliding_Window.thy ===== *)
theory Sliding_Window
  imports Go_Prelude
begin

text \<open>
  The bounded logs of \<open>NodeMgr\<close> and \<open>NodeClient\<close>: \<open>HeaderWsList\<close>, \<open>PendingTxList\<close>
  and \<open>Signals\<close> all grow by the same idiom, which cuts off the oldest hundred entries of
  a log of more than two hundred before it appends. The contract the users of a log rely
  on is a locale: a push keeps a suffix, ends with the new entry, never exceeds \<open>cap\<close>
  and never forgets one of the latest \<open>keep\<close> entries.
\<close>

definition window_push :: "'a list \<Rightarrow> 'a \<Rightarrow> 'a list" where
  "window_push xs x = (if 200 < length xs then drop 100 xs else xs) @ [x]"

locale sliding_window =
  fixes push :: "'a list \<Rightarrow> 'a \<Rightarrow> 'a list"
    and keep cap :: nat
  assumes push_suffix: "\<exists>n. push xs x = drop n xs @ [x]"
    and push_cap: "length xs \<le> cap \<Longrightarrow> length (push xs x) \<le> cap"
    and push_keep: "min keep (Suc (length xs)) \<le> length (push xs x)"
begin

lemma push_not_Nil: "push xs x \<noteq> []"
  using push_suffix [of xs x] by auto

lemma last_push: "last (push xs x) = x"
  using push_suffix [of xs x] by auto

lemma set_push: "set (push xs x) \<subseteq> insert x (set xs)"
  using push_suffix [of xs x] by (auto dest: in_set_dropD)

lemma history_snoc: "foldl push xs (h @ [x]) = push (foldl push xs h) x"
  by simp

text \<open>The log after a history of entries: a suffix of it, long enough and short enough.\<close>

lemma history_suffix: "suffix (foldl push [] h) h"
proof (induction h rule: rev_induct)
  case (snoc x h)
  obtain n where n: "push (foldl push [] h) x = drop n (foldl push [] h) @ [x]"
    using push_suffix by blast
  have "suffix (drop n (foldl push [] h)) h"
    using suffix_drop snoc.IH by (metis suffix_order.trans)
  with n show ?case by (simp add: suffix_def)
qed simp

lemma history_cap: "length (foldl push [] h) \<le> cap"
  by (induction h rule: rev_induct) (simp_all add: push_cap)

lemma history_keep: "min keep (length h) \<le> length (foldl push [] h)"
proof (induction h rule: rev_induct)
  case (snoc x h)
  then show ?case using push_keep [of "foldl push [] h" x] by simp
qed simp

text \<open>A search from the end that succeeds within the latest \<open>keep\<close> entries is exact.\<close>

lemma history_find:
  assumes "find P (take keep (rev h)) = Some x"
  shows "find P (rev (foldl push [] h)) = Some x"
proof -
  obtain pre where h: "h = pre @ foldl push [] h"
    using history_suffix by (auto simp: suffix_def)
  let ?w = "rev (foldl push [] h)"
  have rh: "rev h = ?w @ rev pre" using arg_cong [OF h, of rev] by simp
  have "take keep (rev h) = take keep ?w"
  proof (cases "keep \<le> length h")
    case True
    then have "keep \<le> length ?w" using history_keep [of h] by simp
    then show ?thesis by (simp add: rh)
  next
    case False
    then have "length ?w = length h"
      using history_keep [of h] suffix_length_le [OF history_suffix [of h]] by simp
    then have "pre = []" using arg_cong [OF h, of length] by simp
    then show ?thesis by (simp add: rh)
  qed
  then have "find P (take keep ?w @ drop keep ?w) = Some x"
    using assms by (simp only: find_append) simp
  then show ?thesis by (simp only: append_take_drop_id)
qed

end

interpretation window: sliding_window window_push 102 201
proof unfold_locales
  fix xs :: "'a list" and x
  show "\<exists>n. window_push xs x = drop n xs @ [x]"
    by (cases "200 < length xs") (auto simp: window_push_def intro: exI [of _ 100] exI [of _ 0])
qed (auto simp: window_push_def)

end
