(* ===== verification/Go_Strings.thy ===== *)
theory Go_Strings
  imports Go_Prelude "HOL-Library.Sublist"
begin

text \<open>
  The functions of Go's packages \<open>strings\<close>, \<open>strconv\<close> and \<open>encoding/hex\<close> that the
  program calls, on strings of bytes. Every separator the program splits on is one
  character, so \<open>strings.Split\<close> is modelled for a one-character separator; every
  pattern it replaces is a non-empty literal. The case conversions act on ASCII letters,
  which is all that addresses, token names and symbols consist of.
\<close>

section \<open>\<open>strings.Split\<close> with a one-character separator\<close>

text \<open>A \<open>[]byte\<close> with text in it.\<close>

type_synonym bytes = string

fun go_split :: "char \<Rightarrow> string \<Rightarrow> string list" where
  "go_split d [] = [[]]"
| "go_split d (c # cs) =
     (if c = d then [] # go_split d cs
      else (case go_split d cs of [] \<Rightarrow> [[c]] | w # ws \<Rightarrow> (c # w) # ws))"

fun go_join :: "char \<Rightarrow> string list \<Rightarrow> string" where
  "go_join d [] = []"
| "go_join d [w] = w"
| "go_join d (w # v # ws) = w @ d # go_join d (v # ws)"

lemma go_split_not_Nil [simp]: "go_split d s \<noteq> []"
  by (cases s) (auto split: list.splits)

lemma length_go_split: "length (go_split d s) = Suc (count_list s d)"
  by (induction s) (auto split: list.splits)

lemma go_split_notin: "d \<notin> set s \<Longrightarrow> go_split d s = [s]"
  by (induction s) auto

lemma go_split_append: "d \<notin> set x \<Longrightarrow> go_split d (x @ d # y) = x # go_split d y"
  by (induction x) auto

lemma go_join_Cons: "ws \<noteq> [] \<Longrightarrow> go_join d (w # ws) = w @ d # go_join d ws"
  by (cases ws) auto

lemma go_join_Cons_char: "go_join d ((c # w) # ws) = c # go_join d (w # ws)"
  by (cases ws) auto

lemma go_join_split: "go_join d (go_split d s) = s"
  by (induction s) (auto simp: go_join_Cons go_join_Cons_char split: list.splits)

lemma go_split_pieces: "w \<in> set (go_split d s) \<Longrightarrow> d \<notin> set w"
proof (induction s arbitrary: w)
  case (Cons c s)
  then show ?case
    by (cases "go_split d s") (auto split: if_splits)
qed simp

text \<open>\<open>strings.Split(s, d)[0]\<close> never panics; it is the part before the first separator.\<close>

definition split_head :: "char \<Rightarrow> string \<Rightarrow> string" where
  "split_head d s = hd (go_split d s)"

lemma go_index_split_0 [simp]: "go_index (go_split d s) 0 = Inr (split_head d s)"
  by (simp add: go_index_def split_head_def hd_conv_nth)

lemma split_head_takeWhile: "split_head d s = takeWhile (\<lambda>c. c \<noteq> d) s"
  unfolding split_head_def by (induction s) (auto split: list.splits)

text \<open>
  \<open>strings.Split(s, d)[1]\<close> is the part between the first separator and the next one; it
  panics when there is no separator.
\<close>

definition split_second :: "char \<Rightarrow> string \<Rightarrow> string" where
  "split_second d s = split_head d (tl (dropWhile (\<lambda>c. c \<noteq> d) s))"

lemma split_second_append: "d \<notin> set x \<Longrightarrow> split_second d (x @ d # y) = split_head d y"
  unfolding split_second_def by (induction x) auto

lemma go_index_split_1:
  "go_index (go_split d s) (Suc 0) =
     (if d \<in> set s then Inr (split_second d s) else Inl IndexOutOfRange)"
proof (cases "d \<in> set s")
  case True
  then obtain x y where s: "s = x @ d # y" "d \<notin> set x" by (meson split_list_first)
  then have "go_split d s = x # go_split d y" by (simp add: go_split_append)
  then show ?thesis
    using s True by (simp add: go_index_def split_second_append split_head_def hd_conv_nth)
qed (simp add: go_split_notin go_index_def)

section \<open>\<open>strings.Replace\<close>, \<open>strings.Contains\<close>\<close>

text \<open>
  \<open>strings.Replace(s, old, new, n)\<close> for a non-empty \<open>old\<close>: the leftmost
  non-overlapping occurrences, at most \<open>n\<close> of them, all of them for a negative \<open>n\<close>.
\<close>

function go_replace :: "string \<Rightarrow> string \<Rightarrow> string \<Rightarrow> int \<Rightarrow> string" where
  "go_replace s old new n =
     (if n = 0 \<or> s = [] \<or> old = [] then s
      else if take (length old) s = old
        then new @ go_replace (drop (length old) s) old new (n - 1)
        else hd s # go_replace (tl s) old new n)"
  by pat_completeness auto
termination
  by (relation "measure (\<lambda>(s, old, new, n). length s)") auto

declare go_replace.simps [simp del]

lemma go_replace_Nil [simp]: "go_replace [] old new n = []"
  by (subst go_replace.simps) simp

lemma go_replace_0 [simp]: "go_replace s old new 0 = s"
  by (subst go_replace.simps) simp

lemma go_replace_hit:
  "n \<noteq> 0 \<Longrightarrow> old \<noteq> [] \<Longrightarrow> go_replace (old @ s) old new n = new @ go_replace s old new (n - 1)"
  by (subst go_replace.simps) simp

lemma go_replace_miss:
  "take (length os) s \<noteq> os \<Longrightarrow> go_replace (c # s) (o1 # os) new n = c # go_replace s (o1 # os) new n"
  by (cases "n = 0") (simp, subst go_replace.simps, simp)

lemma go_replace_skip:
  "c \<noteq> o1 \<Longrightarrow> go_replace (c # s) (o1 # os) new n = c # go_replace s (o1 # os) new n"
  by (cases "n = 0") (simp, subst go_replace.simps, simp)

lemma go_replace_skip_many:
  "o1 \<notin> set x \<Longrightarrow> go_replace (x @ s) (o1 # os) new n = x @ go_replace s (o1 # os) new n"
  by (induction x) (auto simp: go_replace_skip)

lemma go_replace_absent: "o1 \<notin> set x \<Longrightarrow> go_replace x (o1 # os) new n = x"
  using go_replace_skip_many [of o1 x "[]"] by simp

text \<open>Replacing one character by another is a map when every occurrence is replaced.\<close>

lemma go_replace_char:
  "n < 0 \<Longrightarrow> go_replace s [c] [c'] n = map (\<lambda>x. if x = c then c' else x) s"
proof (induction s arbitrary: n)
  case (Cons x s)
  then show ?case
    using go_replace_hit [of n "[c]" s "[c']"] by (auto simp: go_replace_skip)
qed simp

lemma go_replace_char_once:
  "c \<notin> set x \<Longrightarrow> go_replace (x @ c # y) [c] [c'] 1 = x @ c' # y"
  using go_replace_hit [of 1 "[c]" y "[c']"] by (simp add: go_replace_skip_many)

fun go_contains :: "string \<Rightarrow> string \<Rightarrow> bool" where
  "go_contains [] sub = (sub = [])"
| "go_contains (c # cs) sub = (take (length sub) (c # cs) = sub \<or> go_contains cs sub)"

lemma prefix_take: "prefix p s \<longleftrightarrow> take (length p) s = p"
  by (metis append_eq_conv_conj prefix_def take_is_prefix)

lemma go_contains_sublist: "go_contains s sub \<longleftrightarrow> sublist sub s"
  by (induction s) (auto simp: sublist_Cons_right prefix_take simp del: take_Cons)

section \<open>\<open>strings.ToLower\<close>, \<open>strings.ToUpper\<close>\<close>

definition is_upper :: "char \<Rightarrow> bool" where
  "is_upper c \<longleftrightarrow> 65 \<le> (of_char c :: nat) \<and> (of_char c :: nat) \<le> 90"

definition is_lower :: "char \<Rightarrow> bool" where
  "is_lower c \<longleftrightarrow> 97 \<le> (of_char c :: nat) \<and> (of_char c :: nat) \<le> 122"

definition lower_char :: "char \<Rightarrow> char" where
  "lower_char c = (if is_upper c then char_of ((of_char c :: nat) + 32) else c)"

definition upper_char :: "char \<Rightarrow> char" where
  "upper_char c = (if is_lower c then char_of ((of_char c :: nat) - 32) else c)"

definition go_lower :: "string \<Rightarrow> string" where
  "go_lower s = map lower_char s"

definition go_upper :: "string \<Rightarrow> string" where
  "go_upper s = map upper_char s"

lemma of_char_lower: "(of_char (lower_char c) :: nat) = (if is_upper c then of_char c + 32 else of_char c)"
  by (auto simp: lower_char_def is_upper_def)

lemma of_char_upper: "(of_char (upper_char c) :: nat) = (if is_lower c then of_char c - 32 else of_char c)"
  by (auto simp: upper_char_def is_lower_def)

lemma not_upper_lower_char [simp]: "\<not> is_upper (lower_char c)"
  by (auto simp: is_upper_def [of "lower_char c"] of_char_lower) (auto simp: is_upper_def)

lemma lower_char_id: "\<not> is_upper c \<Longrightarrow> lower_char c = c"
  by (simp add: lower_char_def)

lemma go_lower_idem [simp]: "go_lower (go_lower s) = go_lower s"
  by (simp add: go_lower_def lower_char_id comp_def)

lemma go_lower_no_upper: "c \<in> set (go_lower s) \<Longrightarrow> \<not> is_upper c"
  by (auto simp: go_lower_def)

lemma go_lower_fixed_iff: "go_lower s = s \<longleftrightarrow> (\<forall>c \<in> set s. \<not> is_upper c)"
proof
  assume "go_lower s = s"
  then show "\<forall>c \<in> set s. \<not> is_upper c" by (metis go_lower_no_upper)
next
  assume "\<forall>c \<in> set s. \<not> is_upper c"
  then show "go_lower s = s" by (simp add: go_lower_def lower_char_id map_idI)
qed

lemma length_go_lower [simp]: "length (go_lower s) = length s"
  by (simp add: go_lower_def)

lemma go_lower_append: "go_lower (s @ t) = go_lower s @ go_lower t"
  by (simp add: go_lower_def)

section \<open>\<open>strconv.Itoa\<close>\<close>

definition digit_char :: "nat \<Rightarrow> char" where
  "digit_char d = char_of (48 + d)"

fun nat_digits :: "nat \<Rightarrow> string" where
  "nat_digits n = (if n < 10 then [digit_char n] else nat_digits (n div 10) @ [digit_char (n mod 10)])"

declare nat_digits.simps [simp del]

definition go_itoa :: "int \<Rightarrow> string" where
  "go_itoa i = (if i < 0 then CHR ''-'' # nat_digits (nat (- i)) else nat_digits (nat i))"

text \<open>The reading of a decimal text, to state that \<open>Itoa\<close> loses nothing.\<close>

definition is_digit :: "char \<Rightarrow> bool" where
  "is_digit c \<longleftrightarrow> 48 \<le> (of_char c :: nat) \<and> (of_char c :: nat) \<le> 57"

definition digits_value :: "string \<Rightarrow> nat" where
  "digits_value s = foldl (\<lambda>a c. 10 * a + ((of_char c :: nat) - 48)) 0 s"

definition parse_decimal :: "string \<Rightarrow> int option" where
  "parse_decimal s =
     (let neg = (s \<noteq> [] \<and> hd s = CHR ''-''); ds = (if neg then tl s else s) in
      if ds \<noteq> [] \<and> list_all is_digit ds
      then Some (if neg then - int (digits_value ds) else int (digits_value ds)) else None)"

lemma of_char_digit: "d < 10 \<Longrightarrow> (of_char (digit_char d) :: nat) = 48 + d"
  by (simp add: digit_char_def)

lemma is_digit_digit_char: "d < 10 \<Longrightarrow> is_digit (digit_char d)"
  by (simp add: is_digit_def of_char_digit)

lemma nat_digits_all: "list_all is_digit (nat_digits n)"
proof (induction n rule: nat_digits.induct)
  case (1 n)
  then show ?case
    by (subst nat_digits.simps) (auto simp: is_digit_digit_char)
qed

lemma nat_digits_not_Nil: "nat_digits n \<noteq> []"
  by (subst nat_digits.simps) simp

lemma digits_value_nat_digits: "digits_value (nat_digits n) = n"
proof (induction n rule: nat_digits.induct)
  case (1 n)
  then show ?case
    by (subst nat_digits.simps) (auto simp: digits_value_def of_char_digit)
qed

lemma parse_go_itoa: "parse_decimal (go_itoa i) = Some i"
proof -
  have "hd (nat_digits n) \<noteq> CHR ''-''" for n
  proof -
    have "is_digit (hd (nat_digits n))"
      using nat_digits_all [of n] nat_digits_not_Nil [of n] by (cases "nat_digits n") auto
    then show ?thesis by (auto simp: is_digit_def)
  qed
  then show ?thesis
    by (simp add: parse_decimal_def go_itoa_def nat_digits_all nat_digits_not_Nil
        digits_value_nat_digits)
qed

section \<open>\<open>hex.DecodeString\<close>\<close>

text \<open>
  The decoder returns the bytes read before the first bad character or the missing last
  digit together with whether there was an error.
\<close>

definition hex_value :: "char \<Rightarrow> nat option" where
  "hex_value c =
     (let n = (of_char c :: nat) in
      if 48 \<le> n \<and> n \<le> 57 then Some (n - 48)
      else if 97 \<le> n \<and> n \<le> 102 then Some (n - 87)
      else if 65 \<le> n \<and> n \<le> 70 then Some (n - 55)
      else None)"

fun go_hex_decode :: "string \<Rightarrow> byte list \<times> bool" where
  "go_hex_decode [] = ([], False)"
| "go_hex_decode [p] = ([], True)"
| "go_hex_decode (p # q # s) =
     (case (hex_value p, hex_value q) of
        (Some a, Some b) \<Rightarrow>
          (let (bs, err) = go_hex_decode s in (of_nat (16 * a + b) # bs, err))
      | _ \<Rightarrow> ([], True))"

lemma go_hex_decode_length: "\<not> snd (go_hex_decode s) \<Longrightarrow> length s = 2 * length (fst (go_hex_decode s))"
  by (induction s rule: go_hex_decode.induct) (auto split: option.splits prod.splits)

lemma go_hex_decode_ok:
  "\<not> snd (go_hex_decode s) \<longleftrightarrow> even (length s) \<and> (\<forall>c \<in> set s. hex_value c \<noteq> None)"
  by (induction s rule: go_hex_decode.induct) (auto split: option.splits prod.splits)

end
