(* ===== verification/Float64.thy ===== *)
theory Float64
  imports Go_Prelude Complex_Main "HOL-Library.Log_Nat"
begin

text \<open>
  Go's \<open>float64\<close> as far as the program computes with it: IEEE 754 binary64 values,
  rounding to nearest with ties to even, multiplication, and the conversion
  \<open>int64(f)\<close>. A finite value is a sign, a mantissa below \<open>2^53\<close> and an exponent;
  it stands for \<open>mantissa * 2^exponent\<close>.
\<close>

datatype f64 = Fin bool nat int | Infty bool | NaN

definition f64_zero :: f64 where
  "f64_zero = Fin False 0 (-1074)"

text \<open>The canonical finite values: normal ones have the top mantissa bit set.\<close>

fun f64_wf :: "f64 \<Rightarrow> bool" where
  "f64_wf (Fin s m e) \<longleftrightarrow>
     m < 2 ^ 53 \<and> -1074 \<le> e \<and> e \<le> 971 \<and> (2 ^ 52 \<le> m \<or> e = -1074)"
| "f64_wf (Infty s) \<longleftrightarrow> True"
| "f64_wf NaN \<longleftrightarrow> True"

fun f64_val :: "f64 \<Rightarrow> real" where
  "f64_val (Fin s m e) = (if s then - real m else real m) * 2 powi e"
| "f64_val _ = 0"

fun f64_finite :: "f64 \<Rightarrow> bool" where
  "f64_finite (Fin s m e) = True"
| "f64_finite _ = False"

section \<open>Rounding\<close>

text \<open>\<open>m / 2^k\<close> rounded to the nearest integer, to the even one on a tie.\<close>

definition round_even :: "nat \<Rightarrow> nat \<Rightarrow> nat" where
  "round_even m k =
     (let q = m div 2 ^ k; r = m mod 2 ^ k in
      if 2 * r > 2 ^ k \<or> (2 * r = 2 ^ k \<and> odd q) then Suc q else q)"

text \<open>The binary64 number for the exact value \<open>m * 2^e\<close>.\<close>

definition f64_shift :: "nat \<Rightarrow> int \<Rightarrow> int" where
  "f64_shift m e = max (int (floorlog 2 m) - 53) (-1074 - e)"

definition f64_mant :: "nat \<Rightarrow> int \<Rightarrow> nat" where
  "f64_mant m e =
     (let k = f64_shift m e in
      if k \<le> 0 then m * 2 ^ nat (- k) else round_even m (nat k))"

definition f64_round :: "bool \<Rightarrow> nat \<Rightarrow> int \<Rightarrow> f64" where
  "f64_round s m e =
     (let q = f64_mant m e; x = e + f64_shift m e;
          (q', e') = (if q = 2 ^ 53 then (2 ^ 52, x + 1) else (q, x))
      in if m = 0 then Fin s 0 (-1074) else if e' > 971 then Infty s else Fin s q' e')"

lemma round_even_0 [simp]: "round_even m 0 = m"
  by (simp add: round_even_def)

lemma round_even_error: "2 * \<bar>int (round_even m k) * 2 ^ k - int m\<bar> \<le> 2 ^ k"
proof -
  define q r where "q = m div 2 ^ k" and "r = m mod 2 ^ k"
  have "m = q * 2 ^ k + r" unfolding q_def r_def by (rule div_mult_mod_eq [symmetric])
  then have "int m = int (q * 2 ^ k + r)" by simp
  then have m: "int m = int q * 2 ^ k + int r" by simp
  have "r < 2 ^ k" by (simp add: r_def)
  then have "int r < int (2 ^ k)" by (simp only: of_nat_less_iff)
  then have r: "int r < 2 ^ k" by simp
  show ?thesis
  proof (cases "2 * r > 2 ^ k \<or> (2 * r = 2 ^ k \<and> odd q)")
    case True
    then have "2 ^ k \<le> 2 * r" by auto
    then have "int (2 ^ k) \<le> int (2 * r)" by (simp only: of_nat_le_iff)
    then have "2 ^ k \<le> 2 * int r" by simp
    moreover from True have "round_even m k = Suc q"
      by (simp add: round_even_def q_def r_def Let_def)
    ultimately show ?thesis using m r by (simp add: algebra_simps)
  next
    case False
    then have "2 * r \<le> 2 ^ k" by auto
    then have "int (2 * r) \<le> int (2 ^ k)" by (simp only: of_nat_le_iff)
    then have "2 * int r \<le> 2 ^ k" by simp
    moreover from False have "round_even m k = q"
      by (simp add: round_even_def q_def r_def Let_def)
    ultimately show ?thesis using m by (simp add: algebra_simps)
  qed
qed

lemma round_even_le: "m \<le> 2 ^ (j + k) \<Longrightarrow> round_even m k \<le> 2 ^ j"
proof -
  assume "m \<le> 2 ^ (j + k)"
  then have "m < 2 ^ (j + k) \<or> m = 2 ^ j * 2 ^ k" by (auto simp: power_add)
  then show ?thesis
  proof
    assume "m < 2 ^ (j + k)"
    then have "m div 2 ^ k < 2 ^ j"
      by (simp add: less_mult_imp_div_less power_add)
    then show ?thesis by (auto simp: round_even_def Let_def)
  qed (simp add: round_even_def)
qed

lemma round_even_ge: "2 ^ (j + k) \<le> m \<Longrightarrow> 2 ^ j \<le> round_even m k"
proof -
  assume "2 ^ (j + k) \<le> m"
  then have "2 ^ (j + k) div 2 ^ k \<le> m div 2 ^ k" by (rule div_le_mono)
  then have "2 ^ j \<le> m div 2 ^ k" by (simp add: power_add)
  then show ?thesis by (auto simp: round_even_def Let_def)
qed

lemma less_2_floorlog: "m < 2 ^ floorlog 2 m"
  by (cases "m = 0") (auto dest: floorlog_bounds [of m 2])

lemma floorlog_2_ge: "0 < m \<Longrightarrow> 2 ^ (floorlog 2 m - 1) \<le> m"
  using floorlog_bounds [of m 2] by simp

text \<open>The scaled mantissa stays in range; it has its top bit set in the normal range.\<close>

lemma f64_scaled_bounds:
  fixes m :: nat and e :: int
  assumes "0 < m"
  defines "k \<equiv> f64_shift m e"
  defines "q \<equiv> f64_mant m e"
  shows "q \<le> 2 ^ 53" and "-1074 < e + k \<Longrightarrow> 2 ^ 52 \<le> q" and "-1074 \<le> e + k"
proof -
  let ?n = "floorlog 2 m"
  have k: "int ?n - 53 \<le> k" "-1074 - e \<le> k" "k = int ?n - 53 \<or> k = -1074 - e"
    by (auto simp: k_def f64_shift_def)
  show "-1074 \<le> e + k" using k(2) by simp
  show "q \<le> 2 ^ 53"
  proof (cases "k \<le> 0")
    case True
    have "?n + nat (- k) \<le> 53" using True k(1) by linarith
    have "m * 2 ^ nat (- k) \<le> 2 ^ ?n * 2 ^ nat (- k)"
      using less_2_floorlog [of m] by simp
    also have "\<dots> = 2 ^ (?n + nat (- k))" by (simp add: power_add)
    also have "\<dots> \<le> (2 ^ 53 :: nat)"
      using \<open>?n + nat (- k) \<le> 53\<close> by (intro power_increasing) auto
    finally show ?thesis using True by (simp add: q_def f64_mant_def k_def)
  next
    case False
    then have "?n \<le> 53 + nat k" using k(1) by linarith
    then have "(2::nat) ^ ?n \<le> 2 ^ (53 + nat k)" by (intro power_increasing) auto
    with less_2_floorlog [of m] have "m \<le> 2 ^ (53 + nat k)" by linarith
    then show ?thesis using False round_even_le [of m 53 "nat k"] by (simp add: q_def f64_mant_def k_def)
  qed
  assume nrm: "-1074 < e + k"
  then have kn: "k = int ?n - 53" using k(3) by auto
  show "2 ^ 52 \<le> q"
  proof -
    have m: "2 ^ (?n - 1) \<le> m" and n: "0 < ?n"
      using floorlog_2_ge [of m] \<open>0 < m\<close> by (auto simp: floorlog_def)
    show ?thesis
    proof (cases "k \<le> 0")
      case True
      have "(?n - 1) + nat (- k) = 52" using True kn n by linarith
      then have "(2::nat) ^ 52 = 2 ^ (?n - 1) * 2 ^ nat (- k)"
        by (metis power_add)
      also have "\<dots> \<le> m * 2 ^ nat (- k)" using m by simp
      finally show ?thesis using True by (simp add: q_def f64_mant_def k_def)
    next
      case False
      then have "52 + nat k = ?n - 1" using kn by linarith
      with m False show ?thesis using round_even_ge [of 52 "nat k" m] by (simp add: q_def f64_mant_def k_def)
    qed
  qed
qed

lemma f64_round_wf: "f64_wf (f64_round s m e)"
proof (cases "m = 0")
  case True
  then show ?thesis by (simp add: f64_round_def Let_def)
next
  case False
  then have "0 < m" by simp
  note b = f64_scaled_bounds [OF this, of e]
  show ?thesis
  proof (cases "f64_mant m e = 2 ^ 53")
    case True
    with b(3) False show ?thesis by (simp add: f64_round_def Let_def)
  next
    case ne: False
    with b(1) have "f64_mant m e < 2 ^ 53" by linarith
    with b(2,3) ne False show ?thesis by (auto simp: f64_round_def Let_def)
  qed
qed

text \<open>The rounding error is at most half a unit in the last place of the result.\<close>

lemma f64_mant_error:
  "\<bar>real (f64_mant m e) * 2 powi (e + f64_shift m e) - real m * 2 powi e\<bar> \<le> 2 powi (e + f64_shift m e - 1)"
proof -
  define k where "k = f64_shift m e"
  define q where "q = f64_mant m e"
  have "\<bar>real q * 2 powi (e + k) - real m * 2 powi e\<bar> \<le> 2 powi (e + k - 1)"
  proof (cases "k \<le> 0")
    case True
    then have "(2::real) powi (e + k) * 2 ^ nat (- k) = 2 powi e"
      by (simp add: power_int_add [symmetric] flip: power_int_of_nat)
    moreover have "real q = real m * 2 ^ nat (- k)"
      using True by (simp add: q_def f64_mant_def k_def)
    ultimately have "real q * 2 powi (e + k) = real m * 2 powi e" by (simp add: mult.commute)
    then show ?thesis by simp
  next
    case False
    have "2 * \<bar>int q * 2 ^ nat k - int m\<bar> \<le> 2 ^ nat k"
      using False round_even_error [of m "nat k"] by (simp add: q_def f64_mant_def k_def)
    then have "real_of_int (2 * \<bar>int q * 2 ^ nat k - int m\<bar>) \<le> real_of_int (2 ^ nat k)"
      by (simp only: of_int_le_iff)
    then have h: "\<bar>real q * 2 ^ nat k - real m\<bar> \<le> 2 ^ nat k / 2" by simp
    have p: "(2::real) powi (e + k) = 2 ^ nat k * 2 powi e"
      using False by (simp add: power_int_add flip: power_int_of_nat)
    have "\<bar>real q * 2 powi (e + k) - real m * 2 powi e\<bar> = \<bar>real q * 2 ^ nat k - real m\<bar> * 2 powi e"
    proof -
      have "real q * 2 powi (e + k) - real m * 2 powi e = (real q * 2 ^ nat k - real m) * 2 powi e"
        by (simp add: p algebra_simps)
      then show ?thesis by (simp add: abs_mult)
    qed
    also have "\<dots> \<le> (2 ^ nat k / 2) * 2 powi e"
      using h by (intro mult_right_mono) auto
    also have "\<dots> = 2 powi (e + k - 1)" by (simp add: p power_int_diff)
    finally show ?thesis .
  qed
  then show ?thesis by (simp add: k_def q_def)
qed

lemma f64_round_error:
  assumes "f64_round s m e = Fin s' m' e'"
  shows "s' = s" and "\<bar>f64_val (Fin s' m' e') - (if s then - real m else real m) * 2 powi e\<bar> \<le> 2 powi (e' - 1)"
proof -
  define k where "k = f64_shift m e"
  define q where "q = f64_mant m e"
  have "s' = s \<and> \<bar>f64_val (Fin s' m' e') - (if s then - real m else real m) * 2 powi e\<bar> \<le> 2 powi (e' - 1)"
  proof (cases "m = 0")
    case True
    with assms show ?thesis by (auto simp: f64_round_def Let_def)
  next
    case False
    have *: "s' = s" "real m' * 2 powi e' = real q * 2 powi (e + k)" "e + k \<le> e'"
      using assms False
      by (auto simp: f64_round_def Let_def power_int_add_1 simp flip: k_def q_def split: if_splits)
    have "\<bar>real q * 2 powi (e + k) - real m * 2 powi e\<bar> \<le> 2 powi (e + k - 1)"
      using f64_mant_error [of m e] by (simp add: k_def q_def)
    also have "(2::real) powi (e + k - 1) \<le> 2 powi (e' - 1)"
      using *(3) by (intro power_int_increasing) auto
    finally show ?thesis using * by (auto simp: abs_minus_commute)
  qed
  then show "s' = s" and "\<bar>f64_val (Fin s' m' e') - (if s then - real m else real m) * 2 powi e\<bar> \<le> 2 powi (e' - 1)"
    by auto
qed

text \<open>Only huge values round to an infinity.\<close>

lemma f64_round_Infty:
  assumes "f64_round s m e = Infty t"
  shows "2 ^ 60 \<le> real m * 2 powi e"
proof -
  let ?q = "f64_mant m e" and ?x = "e + f64_shift m e"
  have "0 < m" using assms by (cases "m = 0") (auto simp: f64_round_def Let_def)
  have x: "971 \<le> ?x" using assms \<open>0 < m\<close> by (auto simp: f64_round_def Let_def split: if_splits)
  then have "2 ^ 52 \<le> ?q" using f64_scaled_bounds(2) [OF \<open>0 < m\<close>, of e] by simp
  then have "2 ^ 52 \<le> real ?q" by (metis of_nat_le_iff of_nat_numeral of_nat_power)
  then have "(2 ^ 52 - 1 / 2) * 2 powi ?x \<le> (real ?q - 1 / 2) * 2 powi ?x" by (intro mult_right_mono) auto
  also have "\<dots> \<le> real m * 2 powi e"
  proof -
    have "real ?q * 2 powi ?x - real m * 2 powi e \<le> 2 powi (?x - 1)"
      using f64_mant_error [of m e] by (simp only: abs_le_iff)
    moreover have "(2::real) powi (?x - 1) = 2 powi ?x / 2" by (simp add: power_int_diff)
    ultimately show ?thesis by (simp add: left_diff_distrib)
  qed
  finally have "(2 ^ 52 - 1 / 2) * 2 powi ?x \<le> real m * 2 powi e" .
  moreover have "(2::real) ^ 60 \<le> 2 powi ?x"
    using x power_int_increasing [of 60 ?x "2::real"] by simp
  moreover have "1 * 2 powi ?x \<le> (2 ^ 52 - 1 / 2 :: real) * 2 powi ?x" by (intro mult_right_mono) auto
  ultimately show ?thesis by simp
qed

text \<open>A canonical number that is not large has no bit left of the point to spare.\<close>

lemma f64_small_exponent:
  assumes "f64_wf (Fin s m e)" and "\<bar>f64_val (Fin s m e)\<bar> < 2 ^ 53"
  shows "e \<le> 0"
proof (rule ccontr)
  assume "\<not> e \<le> 0"
  with assms(1) have "2 ^ 52 \<le> m" and e: "1 \<le> e" by auto
  then have "2 ^ 52 \<le> real m" by (metis of_nat_le_iff of_nat_numeral of_nat_power)
  then have "(2 ^ 52 :: real) * 2 powi 1 \<le> real m * 2 powi e"
    using e by (intro mult_mono power_int_increasing) auto
  with assms(2) show False by (auto simp: abs_mult split: if_splits)
qed

section \<open>Multiplication and conversions\<close>

fun f64_mul :: "f64 \<Rightarrow> f64 \<Rightarrow> f64" where
  "f64_mul (Fin s m e) (Fin t n f) = f64_round (s \<noteq> t) (m * n) (e + f)"
| "f64_mul (Fin s m e) (Infty t) = (if m = 0 then NaN else Infty (s \<noteq> t))"
| "f64_mul (Infty s) (Fin t n f) = (if n = 0 then NaN else Infty (s \<noteq> t))"
| "f64_mul (Infty s) (Infty t) = Infty (s \<noteq> t)"
| "f64_mul _ _ = NaN"

instantiation f64 :: times
begin

definition times_f64 :: "f64 \<Rightarrow> f64 \<Rightarrow> f64" where
  "times_f64 = f64_mul"

instance ..

end

lemma f64_mul_wf: "f64_wf (x * y)"
  unfolding times_f64_def by (cases x; cases y) (auto simp: f64_round_wf simp del: f64_wf.simps(1))

lemma f64_mul_Fin_comm: "f64_mul (Fin s m e) (Fin t n f) = f64_mul (Fin t n f) (Fin s m e)"
  by (cases s; cases t) (simp_all add: mult.commute add.commute)

lemma f64_mul_comm: "(x :: f64) * y = y * x"
  unfolding times_f64_def by (cases x; cases y) (auto simp: f64_mul_Fin_comm simp del: f64_mul.simps(1))

definition f64_of_nat :: "nat \<Rightarrow> f64" where
  "f64_of_nat n = f64_round False n 0"

text \<open>
  \<open>int64(f)\<close> truncates towards zero. For a value that does not fit Go leaves the
  result to the implementation: the function \<open>oob\<close> is that implementation's choice.
\<close>

fun f64_trunc :: "f64 \<Rightarrow> int option" where
  "f64_trunc (Fin s m e) =
     (let a = (if 0 \<le> e then m * 2 ^ nat e else m div 2 ^ nat (- e))
      in Some (if s then - int a else int a))"
| "f64_trunc _ = None"

text \<open>Truncation is off by less than one, by how much depends on the bits right of the point.\<close>

lemma f64_trunc_error:
  assumes "f64_trunc (Fin s m e) = Some t"
  shows "\<bar>real_of_int t - f64_val (Fin s m e)\<bar> \<le> (if 0 \<le> e then 0 else 1 - 2 powi e)"
proof (cases "0 \<le> e")
  case True
  then have "(2::real) powi e = 2 ^ nat e" by (simp flip: power_int_of_nat)
  with True assms show ?thesis by (auto simp: Let_def)
next
  case False
  let ?k = "nat (- e)"
  let ?a = "m div 2 ^ ?k" and ?r = "m mod 2 ^ ?k"
  have p: "(2::real) powi e = 1 / 2 ^ ?k"
  proof -
    have "e = - int ?k" using False by simp
    then have "(2::real) powi e = 2 powi (- int ?k)" by (rule arg_cong)
    also have "\<dots> = inverse (2 ^ ?k)" by (simp only: power_int_minus power_int_of_nat)
    finally show ?thesis by (simp only: inverse_eq_divide)
  qed
  have "m = ?a * 2 ^ ?k + ?r" by (simp add: div_mult_mod_eq)
  then have "real m = real ?a * 2 ^ ?k + real ?r"
    by (metis of_nat_add of_nat_mult of_nat_numeral of_nat_power)
  then have v: "real m * 2 powi e - real ?a = real ?r / 2 ^ ?k" by (simp add: p field_simps)
  have "?r + 1 \<le> 2 ^ ?k" by (simp add: Suc_leI)
  then have "real ?r + 1 \<le> 2 ^ ?k" by (metis of_nat_1 of_nat_add of_nat_le_iff of_nat_numeral of_nat_power)
  then have "real ?r / 2 ^ ?k \<le> 1 - 1 / 2 ^ ?k" by (simp add: field_simps)
  then have "\<bar>real m * 2 powi e - real ?a\<bar> \<le> 1 - 1 / 2 ^ ?k"
    unfolding v by (subst abs_of_nonneg) auto
  then have "\<bar>real m * 2 powi e - real ?a\<bar> \<le> 1 - 2 powi e" unfolding p .
  moreover have t: "t = (if s then - int ?a else int ?a)" using False assms by (simp add: Let_def)
  moreover have "\<bar>real_of_int t - f64_val (Fin s m e)\<bar> = \<bar>real m * 2 powi e - real ?a\<bar>"
  proof (cases s)
    case True
    have "real_of_int t - f64_val (Fin s m e) = real m * 2 powi e - real ?a" using True t by simp
    then show ?thesis by (simp only:)
  next
    case False
    have "real_of_int t - f64_val (Fin s m e) = - (real m * 2 powi e - real ?a)" using False t by simp
    then show ?thesis by (simp only: abs_minus_cancel)
  qed
  ultimately show ?thesis using False by (simp only: if_False)
qed

definition f64_to_int64 :: "(f64 \<Rightarrow> int64) \<Rightarrow> f64 \<Rightarrow> int64" where
  "f64_to_int64 oob f =
     (case f64_trunc f of
        Some v \<Rightarrow> if - (2 ^ 63) \<le> v \<and> v < 2 ^ 63 then word_of_int v else oob f
      | None \<Rightarrow> oob f)"

text \<open>Evaluation of closed values: \<open>f64_eval\<close> unfolds the rounding on numerals.\<close>

lemmas f64_eval = f64_of_nat_def f64_round_def f64_mant_def f64_shift_def Let_def
  times_f64_def round_even_def compute_floorlog

lemma f64_of_nat_1e9: "f64_of_nat 1000000000 = Fin False 8388608000000000 (-23)"
  by (simp add: f64_eval)

end
