(* ===== verification/Go_Json.thy ===== *)
theory Go_Json
  imports Go_Strings Float64 "HOL-Library.AList"
begin

text \<open>
  Decoding of \<open>encoding/json\<close>, from the tree of a JSON document into Go values. A struct
  is decoded member by member through a table of its tagged fields: keys match exactly or,
  failing that, up to case; unknown keys are skipped; \<open>null\<close> leaves a field as it is; a
  value of the wrong kind makes \<open>Unmarshal\<close> return an error, and every caller in the
  program then drops the value, so an error is \<open>None\<close>. Numbers keep their text, as the
  decoder does: an integer field takes a plain integer literal in range, a float field the
  nearest binary64 number. \<open>Json_Text\<close> reads the tree off the text of a document.
\<close>

datatype json =
    JNull
  | JBool bool
  | JNum string
  | JStr string
  | JArr "json list"
  | JObj "(string \<times> json) list"

section \<open>Numbers\<close>

definition int64_range :: "int \<Rightarrow> bool" where
  "int64_range i \<longleftrightarrow> - (2 ^ 63) \<le> i \<and> i < 2 ^ 63"

text \<open>\<open>strconv.ParseInt(text, 10, 64)\<close> on the text of a JSON number.\<close>

definition parse_int64 :: "string \<Rightarrow> int64 option" where
  "parse_int64 s =
     (case parse_decimal s of
        Some i \<Rightarrow> if int64_range i then Some (word_of_int i) else None
      | None \<Rightarrow> None)"

lemma parse_int64_itoa: "int64_range i \<Longrightarrow> parse_int64 (go_itoa i) = Some (word_of_int i)"
  by (simp add: parse_int64_def parse_go_itoa)

text \<open>
  A number text \<open>[-]digits[.digits][(e|E)[+|-]digits]\<close> as sign, mantissa and power of ten.
\<close>

definition parse_exp :: "string \<Rightarrow> int option" where
  "parse_exp s =
     (case s of
        [] \<Rightarrow> Some 0
      | c # r \<Rightarrow>
          if c \<noteq> CHR ''e'' \<and> c \<noteq> CHR ''E'' then None
          else (case r of CHR ''+'' # ds \<Rightarrow> parse_decimal ds | _ \<Rightarrow> parse_decimal r))"

definition parse_float_text :: "string \<Rightarrow> (bool \<times> nat \<times> int) option" where
  "parse_float_text s =
     (let neg = (s \<noteq> [] \<and> hd s = CHR ''-''); t = (if neg then tl s else s);
          ip = takeWhile is_digit t; r = dropWhile is_digit t;
          dot = (r \<noteq> [] \<and> hd r = CHR ''.'');
          fp = (if dot then takeWhile is_digit (tl r) else []);
          r' = (if dot then dropWhile is_digit (tl r) else r)
      in if ip = [] \<or> (dot \<and> fp = []) then None
         else (case parse_exp r' of
                 None \<Rightarrow> None
               | Some e \<Rightarrow> Some (neg, digits_value (ip @ fp), e - int (length fp))))"

text \<open>
  The nearest binary64 number to \<open>m / d\<close>: the quotient is computed with at least 55
  bits and a sticky bit that records whether a remainder is left.
\<close>

definition f64_quot :: "bool \<Rightarrow> nat \<Rightarrow> nat \<Rightarrow> f64" where
  "f64_quot s m d =
     (let t = floorlog 2 d + 56 - floorlog 2 m; n = m * 2 ^ t
      in f64_round s (2 * (n div d) + (if n mod d = 0 then 0 else 1)) (- int t - 1))"

definition f64_of_decimal :: "bool \<Rightarrow> nat \<Rightarrow> int \<Rightarrow> f64" where
  "f64_of_decimal neg m e =
     (if 0 \<le> e then f64_round neg (m * 10 ^ nat e) 0 else f64_quot neg m (10 ^ nat (- e)))"

text \<open>\<open>strconv.ParseFloat(text, 64)\<close>: a value that overflows is a range error.\<close>

definition parse_f64 :: "string \<Rightarrow> f64 option" where
  "parse_f64 s =
     (case parse_float_text s of
        None \<Rightarrow> None
      | Some (neg, m, e) \<Rightarrow>
          let f = f64_of_decimal neg m e in if f64_finite f then Some f else None)"

lemma f64_of_decimal_wf: "f64_wf (f64_of_decimal neg m e)"
  by (simp add: f64_of_decimal_def f64_quot_def Let_def f64_round_wf)

lemma parse_f64_wf: "parse_f64 s = Some f \<Longrightarrow> f64_wf f \<and> f64_finite f"
  by (auto simp: parse_f64_def Let_def f64_of_decimal_wf split: option.splits if_splits)

section \<open>Fields\<close>

type_synonym 's field_dec = "json \<Rightarrow> 's \<Rightarrow> 's option"

fun json_string :: "json \<Rightarrow> string option" where
  "json_string (JStr s) = Some s"
| "json_string _ = None"

fun json_bool :: "json \<Rightarrow> bool option" where
  "json_bool (JBool b) = Some b"
| "json_bool _ = None"

fun json_int64 :: "json \<Rightarrow> int64 option" where
  "json_int64 (JNum s) = parse_int64 s"
| "json_int64 _ = None"

fun json_f64 :: "json \<Rightarrow> f64 option" where
  "json_f64 (JNum s) = parse_f64 s"
| "json_f64 _ = None"

text \<open>A field of a basic kind: \<open>upd\<close> is the record's update function for the field.\<close>

definition dec_prim :: "(json \<Rightarrow> 'v option) \<Rightarrow> (('v \<Rightarrow> 'v) \<Rightarrow> 's \<Rightarrow> 's) \<Rightarrow> 's field_dec" where
  "dec_prim conv upd j s =
     (if j = JNull then Some s else map_option (\<lambda>v. upd (\<lambda>_. v) s) (conv j))"

abbreviation dec_string :: "((string \<Rightarrow> string) \<Rightarrow> 's \<Rightarrow> 's) \<Rightarrow> 's field_dec" where
  "dec_string \<equiv> dec_prim json_string"

abbreviation dec_int64 :: "((int64 \<Rightarrow> int64) \<Rightarrow> 's \<Rightarrow> 's) \<Rightarrow> 's field_dec" where
  "dec_int64 \<equiv> dec_prim json_int64"

abbreviation dec_f64 :: "((f64 \<Rightarrow> f64) \<Rightarrow> 's \<Rightarrow> 's) \<Rightarrow> 's field_dec" where
  "dec_f64 \<equiv> dec_prim json_f64"

text \<open>
  An \<open>interface{}\<close> field takes any value whose numbers are in the range of a float;
  \<open>null\<close> makes it nil.
\<close>

fun any_ok :: "json \<Rightarrow> bool"
  and any_ok_list :: "json list \<Rightarrow> bool"
  and any_ok_members :: "(string \<times> json) list \<Rightarrow> bool"
where
  "any_ok (JNum t) = (parse_f64 t \<noteq> None)"
| "any_ok (JArr js) = any_ok_list js"
| "any_ok (JObj ms) = any_ok_members ms"
| "any_ok _ = True"
| "any_ok_list [] = True"
| "any_ok_list (j # js) = (any_ok j \<and> any_ok_list js)"
| "any_ok_members [] = True"
| "any_ok_members ((k, j) # ms) = (any_ok j \<and> any_ok_members ms)"

definition json_any :: "json \<Rightarrow> json option" where
  "json_any j = (if any_ok j then Some j else None)"

definition dec_any :: "((json \<Rightarrow> json) \<Rightarrow> 's \<Rightarrow> 's) \<Rightarrow> 's field_dec" where
  "dec_any upd j s = map_option (\<lambda>v. upd (\<lambda>_. v) s) (json_any j)"

text \<open>
  Slices, maps and structs nested in a field. The elements of a slice start as zero values;
  when a member with a slice is repeated in one object, Go starts from what the slice held,
  which is left out.
\<close>

definition dec_slice :: "(json \<Rightarrow> 'v option) \<Rightarrow> (('v list \<Rightarrow> 'v list) \<Rightarrow> 's \<Rightarrow> 's) \<Rightarrow> 's field_dec" where
  "dec_slice elem upd j s =
     (case j of
        JNull \<Rightarrow> Some (upd (\<lambda>_. []) s)
      | JArr js \<Rightarrow> map_option (\<lambda>vs. upd (\<lambda>_. vs) s) (those (map elem js))
      | _ \<Rightarrow> None)"

text \<open>
  An element of a slice or map starts as the zero value, which \<open>null\<close> leaves as it is.
\<close>

definition elem_or_zero :: "'v \<Rightarrow> (json \<Rightarrow> 'v option) \<Rightarrow> json \<Rightarrow> 'v option" where
  "elem_or_zero z conv j = (if j = JNull then Some z else conv j)"

text \<open>
  A Go map is the association list of its entries, with distinct keys. An object is decoded
  into the map that is there, whose other entries stay.
\<close>

fun json_entries :: "(json \<Rightarrow> 'v option) \<Rightarrow> (string \<times> json) list \<Rightarrow> (string \<times> 'v) list \<Rightarrow> (string \<times> 'v) list option" where
  "json_entries elem [] m = Some m"
| "json_entries elem ((k, j) # ms) m =
     (case elem j of None \<Rightarrow> None | Some v \<Rightarrow> json_entries elem ms (AList.update k v m))"

fun json_map :: "(json \<Rightarrow> 'v option) \<Rightarrow> (string \<times> 'v) list \<Rightarrow> json \<Rightarrow> (string \<times> 'v) list option" where
  "json_map elem m JNull = Some []"
| "json_map elem m (JObj ms) = json_entries elem ms m"
| "json_map elem m _ = None"

definition dec_map ::
    "(json \<Rightarrow> 'v option) \<Rightarrow> ('s \<Rightarrow> (string \<times> 'v) list) \<Rightarrow> (((string \<times> 'v) list \<Rightarrow> (string \<times> 'v) list) \<Rightarrow> 's \<Rightarrow> 's) \<Rightarrow> 's field_dec" where
  "dec_map elem get upd j s = map_option (\<lambda>m. upd (\<lambda>_. m) s) (json_map elem (get s) j)"

definition dec_nested :: "('s \<Rightarrow> 'v) \<Rightarrow> (('v \<Rightarrow> 'v) \<Rightarrow> 's \<Rightarrow> 's) \<Rightarrow> 'v field_dec \<Rightarrow> 's field_dec" where
  "dec_nested get upd dec j s = map_option (\<lambda>v. upd (\<lambda>_. v) s) (dec j (get s))"

section \<open>Structs\<close>

text \<open>The field a key selects: the exact name, or else the name up to case.\<close>

definition find_field :: "(string \<times> 'd) list \<Rightarrow> string \<Rightarrow> 'd option" where
  "find_field fs k =
     (case map_of fs k of
        Some d \<Rightarrow> Some d
      | None \<Rightarrow> map_of (map (\<lambda>(n, d). (go_lower n, d)) fs) (go_lower k))"

lemma find_field_exact: "map_of fs k = Some d \<Longrightarrow> find_field fs k = Some d"
  by (simp add: find_field_def)

fun dec_members :: "(string \<times> 's field_dec) list \<Rightarrow> (string \<times> json) list \<Rightarrow> 's \<Rightarrow> 's option" where
  "dec_members fs [] s = Some s"
| "dec_members fs ((k, j) # ms) s =
     (case find_field fs k of
        None \<Rightarrow> dec_members fs ms s
      | Some d \<Rightarrow> (case d j s of None \<Rightarrow> None | Some s' \<Rightarrow> dec_members fs ms s'))"

fun dec_struct :: "(string \<times> 's field_dec) list \<Rightarrow> 's field_dec" where
  "dec_struct fs JNull s = Some s"
| "dec_struct fs (JObj ms) s = dec_members fs ms s"
| "dec_struct fs _ s = None"

text \<open>
  An invariant of the destination that every field decoder keeps is kept by decoding the
  whole object, whatever members it has.
\<close>

lemma find_field_in: "find_field fs k = Some d \<Longrightarrow> d \<in> snd ` set fs"
  by (auto simp: find_field_def image_iff split: option.splits dest!: map_of_SomeD) force+

lemma dec_members_invar:
  assumes "dec_members fs ms s = Some s'" and "P s"
    and keep: "\<And>d j s s'. d \<in> snd ` set fs \<Longrightarrow> P s \<Longrightarrow> d j s = Some s' \<Longrightarrow> P s'"
  shows "P s'"
  using assms(1,2)
proof (induction ms arbitrary: s)
  case (Cons m ms)
  obtain k j where m: "m = (k, j)" by (cases m)
  show ?case
  proof (cases "find_field fs k")
    case None
    with Cons m show ?thesis by simp
  next
    case (Some d)
    with Cons.prems m obtain t where "d j s = Some t" "dec_members fs ms t = Some s'"
      by (auto split: option.splits)
    with Some Cons.prems(2) show ?thesis
      using Cons.IH keep find_field_in by metis
  qed
qed simp

lemma dec_struct_invar:
  assumes "dec_struct fs j s = Some s'" and "P s"
    and "\<And>d j s s'. d \<in> snd ` set fs \<Longrightarrow> P s \<Longrightarrow> d j s = Some s' \<Longrightarrow> P s'"
  shows "P s'"
proof (cases j)
  case (JObj ms)
  with assms(1) have "dec_members fs ms s = Some s'" by simp
  then show ?thesis using assms(2,3) by (rule dec_members_invar)
qed (use assms(1,2) in auto)

lemma json_entries_distinct:
  "json_entries elem ms m = Some m' \<Longrightarrow> distinct (map fst m) \<Longrightarrow> distinct (map fst m')"
  by (induction ms arbitrary: m) (auto split: option.splits simp: distinct_update)

lemma json_map_distinct: "json_map elem m j = Some m' \<Longrightarrow> distinct (map fst m) \<Longrightarrow> distinct (map fst m')"
  by (cases j) (auto dest: json_entries_distinct)

text \<open>An unknown key has no effect.\<close>

lemma dec_members_skip: "find_field fs k = None \<Longrightarrow> dec_members fs ((k, j) # ms) s = dec_members fs ms s"
  by simp

end
