(* ===== verification/Json_Text.thy ===== *)
theory Json_Text
  imports Go_Json
begin

text \<open>
  The text of JSON documents, as \<open>encoding/json\<close> reads and writes it: a scanner into
  tokens, a parser of tokens that keeps the open containers on a stack, and the encoder
  with its escapes. Strings are bytes; the reader replaces what is not UTF-8, and halves
  of surrogate pairs, by the replacement character. Containers nest at most 10000 deep.
\<close>

section \<open>Strings\<close>

definition code :: "char \<Rightarrow> nat" where
  "code c = of_char c"

text \<open>The bytes of a code point.\<close>

definition utf8_encode :: "nat \<Rightarrow> string" where
  "utf8_encode r =
     (if r < 0x80 then [char_of r]
      else if r < 0x800 then [char_of (0xC0 + r div 64), char_of (0x80 + r mod 64)]
      else if r < 0x10000 then
        [char_of (0xE0 + r div 4096), char_of (0x80 + r div 64 mod 64), char_of (0x80 + r mod 64)]
      else [char_of (0xF0 + r div 262144), char_of (0x80 + r div 4096 mod 64),
            char_of (0x80 + r div 64 mod 64), char_of (0x80 + r mod 64)])"

definition replacement :: string where
  "replacement = utf8_encode 0xFFFD"

text \<open>The bounds of the bytes that follow a first byte, if that byte starts a code point.\<close>

definition followers :: "nat \<Rightarrow> (nat \<times> nat) list option" where
  "followers a =
     (if a < 0x80 then Some []
      else if a < 0xC2 then None
      else if a < 0xE0 then Some [(0x80, 0xBF)]
      else if a = 0xE0 then Some [(0xA0, 0xBF), (0x80, 0xBF)]
      else if a = 0xED then Some [(0x80, 0x9F), (0x80, 0xBF)]
      else if a < 0xF0 then Some [(0x80, 0xBF), (0x80, 0xBF)]
      else if a = 0xF0 then Some [(0x90, 0xBF), (0x80, 0xBF), (0x80, 0xBF)]
      else if a < 0xF4 then Some [(0x80, 0xBF), (0x80, 0xBF), (0x80, 0xBF)]
      else if a = 0xF4 then Some [(0x80, 0x8F), (0x80, 0xBF), (0x80, 0xBF)]
      else None)"

definition in_bounds :: "nat \<times> nat \<Rightarrow> char \<Rightarrow> bool" where
  "in_bounds b c \<longleftrightarrow> fst b \<le> code c \<and> code c \<le> snd b"

text \<open>The length of the code point a string starts with; 0 when its bytes are not one.\<close>

definition rune_len :: "string \<Rightarrow> nat" where
  "rune_len s =
     (case s of
        [] \<Rightarrow> 0
      | a # t \<Rightarrow>
          (case followers (code a) of
             None \<Rightarrow> 0
           | Some bs \<Rightarrow> if list_all2 in_bounds bs (take (length bs) t) then Suc (length bs) else 0))"

definition hex4 :: "string \<Rightarrow> nat option" where
  "hex4 s =
     (case map hex_value (take 4 s) of
        [Some a, Some b, Some c, Some d] \<Rightarrow> Some (((a * 16 + b) * 16 + c) * 16 + d)
      | _ \<Rightarrow> None)"

definition is_surrogate :: "nat \<Rightarrow> bool" where
  "is_surrogate r \<longleftrightarrow> 0xD800 \<le> r \<and> r < 0xE000"

text \<open>The second half of a surrogate pair, written \<open>\u\<close> and four digits.\<close>

definition second_half :: "nat \<Rightarrow> string \<Rightarrow> nat option" where
  "second_half r s =
     (case s of
        CHR 0x5C # CHR ''u'' # t \<Rightarrow>
          (case hex4 t of
             Some r2 \<Rightarrow> if r < 0xDC00 \<and> 0xDC00 \<le> r2 \<and> r2 < 0xE000
               then Some (0x10000 + (r - 0xD800) * 1024 + (r2 - 0xDC00)) else None
           | None \<Rightarrow> None)
      | _ \<Rightarrow> None)"

definition escaped :: "char \<Rightarrow> char option" where
  "escaped d =
     (if d = CHR 0x22 \<or> d = CHR 0x5C \<or> d = CHR ''/'' then Some d
      else map_of [(CHR ''b'', CHR 0x08), (CHR ''f'', CHR 0x0C), (CHR ''n'', CHR 0x0A),
        (CHR ''r'', CHR 0x0D), (CHR ''t'', CHR 0x09)] d)"

text \<open>What stands between the quotes as the bytes it means.\<close>

function (sequential) unquote :: "string \<Rightarrow> string option" where
  "unquote [] = Some []"
| "unquote (c # cs) =
     (if c = CHR 0x5C then
        (case cs of
           [] \<Rightarrow> None
         | d # ds \<Rightarrow>
             if d = CHR ''u'' then
               (case hex4 ds of
                  None \<Rightarrow> None
                | Some r \<Rightarrow>
                    if is_surrogate r then
                      (case second_half r (drop 4 ds) of
                         Some rr \<Rightarrow> map_option (\<lambda>s. utf8_encode rr @ s) (unquote (drop 10 ds))
                       | None \<Rightarrow> map_option (\<lambda>s. replacement @ s) (unquote (drop 4 ds)))
                    else map_option (\<lambda>s. utf8_encode r @ s) (unquote (drop 4 ds)))
             else (case escaped d of
                     None \<Rightarrow> None
                   | Some e \<Rightarrow> map_option (\<lambda>s. e # s) (unquote ds)))
      else if rune_len (c # cs) = 0 then map_option (\<lambda>s. replacement @ s) (unquote cs)
      else map_option (\<lambda>s. take (rune_len (c # cs)) (c # cs) @ s) (unquote (drop (rune_len (c # cs)) (c # cs))))"
  by pat_completeness auto
termination
  by (relation "measure length") auto

declare unquote.simps [simp del]

text \<open>The text up to the closing quote, and what follows it.\<close>

fun scan_string :: "string \<Rightarrow> (string \<times> string) option" where
  "scan_string [] = None"
| "scan_string (c # cs) =
     (if c = CHR 0x22 then Some ([], cs)
      else if c = CHR 0x5C then
        (case cs of
           [] \<Rightarrow> None
         | d # ds \<Rightarrow> map_option (\<lambda>(b, r). (c # d # b, r)) (scan_string ds))
      else if code c < 32 then None
      else map_option (\<lambda>(b, r). (c # b, r)) (scan_string cs))"

lemma scan_string_shorter: "scan_string s = Some (b, r) \<Longrightarrow> length r < length s"
  by (induction s arbitrary: b r rule: scan_string.induct)
    (force split: if_splits list.splits)+

section \<open>Writing strings\<close>

text \<open>
  The encoder escapes quotes, backslashes, control characters and the characters that
  matter in HTML, writes the line separators U+2028 and U+2029 as escapes, and what is not
  UTF-8 as the escape of the replacement character.
\<close>

definition hex_char :: "nat \<Rightarrow> char" where
  "hex_char n = ''0123456789abcdef'' ! n"

definition json_char :: "char \<Rightarrow> string" where
  "json_char c =
     (if c = CHR 0x22 \<or> c = CHR 0x5C then [CHR 0x5C, c]
      else if c = CHR 0x08 then [CHR 0x5C, CHR ''b'']
      else if c = CHR 0x0C then [CHR 0x5C, CHR ''f'']
      else if c = CHR 0x0A then [CHR 0x5C, CHR ''n'']
      else if c = CHR 0x0D then [CHR 0x5C, CHR ''r'']
      else if c = CHR 0x09 then [CHR 0x5C, CHR ''t'']
      else if code c < 32 \<or> c \<in> {CHR ''<'', CHR ''>'', CHR ''&''}
        then [CHR 0x5C, CHR ''u'', CHR ''0'', CHR ''0'', hex_char (code c div 16), hex_char (code c mod 16)]
      else [c])"

definition json_rune :: "string \<Rightarrow> string" where
  "json_rune w =
     (if w = utf8_encode 0x2028 then CHR 0x5C # ''u2028''
      else if w = utf8_encode 0x2029 then CHR 0x5C # ''u2029'' else w)"

function (sequential) quote_body :: "string \<Rightarrow> string" where
  "quote_body [] = []"
| "quote_body (c # cs) =
     (if code c < 0x80 then json_char c @ quote_body cs
      else if rune_len (c # cs) = 0 then (CHR 0x5C # ''ufffd'') @ quote_body cs
      else json_rune (take (rune_len (c # cs)) (c # cs)) @ quote_body (drop (rune_len (c # cs)) (c # cs)))"
  by pat_completeness auto
termination
  by (relation "measure length") auto

declare quote_body.simps [simp del]

definition quote_json :: "string \<Rightarrow> string" where
  "quote_json s = CHR 0x22 # quote_body s @ [CHR 0x22]"

text \<open>A string with what is not UTF-8 replaced, byte by byte.\<close>

function (sequential) to_valid :: "string \<Rightarrow> string" where
  "to_valid [] = []"
| "to_valid (c # cs) =
     (if rune_len (c # cs) = 0 then replacement @ to_valid cs
      else take (rune_len (c # cs)) (c # cs) @ to_valid (drop (rune_len (c # cs)) (c # cs)))"
  by pat_completeness auto
termination
  by (relation "measure length") auto

declare to_valid.simps [simp del]

section \<open>Tokens\<close>

datatype token = TLBrace | TRBrace | TLBrack | TRBrack | TColon | TComma | TStr string | TVal json

definition is_space :: "char \<Rightarrow> bool" where
  "is_space c \<longleftrightarrow> c \<in> {CHR 0x20, CHR 0x09, CHR 0x0A, CHR 0x0D}"

definition punctuation :: "char \<Rightarrow> token option" where
  "punctuation = map_of [(CHR ''{'', TLBrace), (CHR ''}'', TRBrace), (CHR ''['', TLBrack),
     (CHR '']'', TRBrack), (CHR '':'', TColon), (CHR '','', TComma)]"

definition num_char :: "char \<Rightarrow> bool" where
  "num_char c \<longleftrightarrow> is_digit c \<or> c \<in> {CHR ''+'', CHR ''-'', CHR ''.'', CHR ''e'', CHR ''E''}"

text \<open>\<open>-? (0 | [1-9][0-9]*) ([.][0-9]+)? ([eE][+-]?[0-9]+)?\<close>\<close>

definition valid_exp :: "string \<Rightarrow> bool" where
  "valid_exp s =
     (case s of
        [] \<Rightarrow> True
      | e # t \<Rightarrow> (e = CHR ''e'' \<or> e = CHR ''E'') \<and>
          (let u = (if t \<noteq> [] \<and> (hd t = CHR ''+'' \<or> hd t = CHR ''-'') then tl t else t)
           in u \<noteq> [] \<and> list_all is_digit u))"

definition valid_frac :: "string \<Rightarrow> bool" where
  "valid_frac s =
     (if s \<noteq> [] \<and> hd s = CHR ''.''
      then takeWhile is_digit (tl s) \<noteq> [] \<and> valid_exp (dropWhile is_digit (tl s))
      else valid_exp s)"

definition valid_number :: "string \<Rightarrow> bool" where
  "valid_number s =
     (let t = (if s \<noteq> [] \<and> hd s = CHR ''-'' then tl s else s); ip = takeWhile is_digit t
      in ip \<noteq> [] \<and> (hd ip = CHR ''0'' \<longrightarrow> length ip = 1) \<and> valid_frac (dropWhile is_digit t))"

function (sequential) lex :: "string \<Rightarrow> token list option" where
  "lex [] = Some []"
| "lex (c # cs) =
     (if is_space c then lex cs
      else (case punctuation c of
          Some t \<Rightarrow> map_option ((#) t) (lex cs)
        | None \<Rightarrow>
            if c = CHR 0x22 then
              (case scan_string cs of
                 None \<Rightarrow> None
               | Some (b, r) \<Rightarrow>
                   (case unquote b of
                      None \<Rightarrow> None
                    | Some s \<Rightarrow> map_option ((#) (TStr s)) (lex r)))
            else if num_char c then
              (if valid_number (takeWhile num_char (c # cs))
               then map_option ((#) (TVal (JNum (takeWhile num_char (c # cs))))) (lex (dropWhile num_char (c # cs)))
               else None)
            else if take 4 (c # cs) = ''true'' then map_option ((#) (TVal (JBool True))) (lex (drop 4 (c # cs)))
            else if take 5 (c # cs) = ''false'' then map_option ((#) (TVal (JBool False))) (lex (drop 5 (c # cs)))
            else if take 4 (c # cs) = ''null'' then map_option ((#) (TVal JNull)) (lex (drop 4 (c # cs)))
            else None))"
  by pat_completeness auto
termination
  by (relation "measure length")
    (auto simp: le_imp_less_Suc length_dropWhile_le dest: scan_string_shorter)

declare lex.simps [simp del]

section \<open>The parser\<close>

text \<open>
  The open containers, innermost first, each with the elements read so far in reverse; an
  object also with the key whose value is being read.
\<close>

datatype container = InArr "json list" | InObj "(string \<times> json) list" string

datatype mode =
    WantValue
  | WantValueOrEnd
  | WantKey "(string \<times> json) list"
  | WantColon "(string \<times> json) list" string
  | After json

definition max_depth :: nat where
  "max_depth = 10000"

fun start_value :: "token \<Rightarrow> container list \<Rightarrow> (mode \<times> container list) option" where
  "start_value (TVal j) st = Some (After j, st)"
| "start_value (TStr s) st = Some (After (JStr s), st)"
| "start_value TLBrace st = (if length st < max_depth then Some (WantKey [], st) else None)"
| "start_value TLBrack st = (if length st < max_depth then Some (WantValueOrEnd, InArr [] # st) else None)"
| "start_value _ st = None"

fun parse_step :: "token \<Rightarrow> mode \<times> container list \<Rightarrow> (mode \<times> container list) option" where
  "parse_step t (WantValue, st) = start_value t st"
| "parse_step TRBrack (WantValueOrEnd, InArr [] # st) = Some (After (JArr []), st)"
| "parse_step t (WantValueOrEnd, st) = start_value t st"
| "parse_step (TStr k) (WantKey ms, st) = Some (WantColon ms k, st)"
| "parse_step TRBrace (WantKey [], st) = Some (After (JObj []), st)"
| "parse_step TColon (WantColon ms k, st) = Some (WantValue, InObj ms k # st)"
| "parse_step TComma (After j, InArr js # st) = Some (WantValue, InArr (j # js) # st)"
| "parse_step TRBrack (After j, InArr js # st) = Some (After (JArr (rev (j # js))), st)"
| "parse_step TComma (After j, InObj ms k # st) = Some (WantKey ((k, j) # ms), st)"
| "parse_step TRBrace (After j, InObj ms k # st) = Some (After (JObj (rev ((k, j) # ms))), st)"
| "parse_step _ _ = None"

fun parse_tokens :: "token list \<Rightarrow> mode \<times> container list \<Rightarrow> (mode \<times> container list) option" where
  "parse_tokens [] s = Some s"
| "parse_tokens (t # ts) s = (case parse_step t s of None \<Rightarrow> None | Some s' \<Rightarrow> parse_tokens ts s')"

definition json_parse :: "string \<Rightarrow> json option" where
  "json_parse s =
     (case lex s of
        None \<Rightarrow> None
      | Some ts \<Rightarrow> (case parse_tokens ts (WantValue, []) of Some (After j, []) \<Rightarrow> Some j | _ \<Rightarrow> None))"

end
