(* ===== verification/Core_Types.thy ===== *)
theory Core_Types
  imports Json_Text
begin

text \<open>
  The data types of \<open>core/type.go\<close>. A struct is a record; its zero value is the record
  \<open>zero_...\<close>; its JSON tags are the table \<open>..._fields\<close>, one entry per tagged field, and
  \<open>unmarshal_...\<close> is \<open>json.Unmarshal\<close> into the zero value. Anonymous structs get a
  record of their own.
\<close>

section \<open>Signals\<close>

record SignalPath =
  sp_Price :: f64
  sp_Amount :: f64
  sp_Symbol :: string
  sp_PriceAvg :: f64
  sp_AmountSum :: f64
  sp_Exchange :: int64
  sp_Market :: int64
  sp_SymbolType :: int64
  sp_PriceExpect :: f64

definition zero_SignalPath :: SignalPath where
  "zero_SignalPath = \<lparr> sp_Price = f64_zero, sp_Amount = f64_zero, sp_Symbol = [],
     sp_PriceAvg = f64_zero, sp_AmountSum = f64_zero, sp_Exchange = 0, sp_Market = 0,
     sp_SymbolType = 0, sp_PriceExpect = f64_zero \<rparr>"

definition SignalPath_fields :: "(string \<times> SignalPath field_dec) list" where
  "SignalPath_fields =
     [(''price'', dec_f64 sp_Price_update),
      (''amount'', dec_f64 sp_Amount_update),
      (''symbol'', dec_string sp_Symbol_update),
      (''price_avg'', dec_f64 sp_PriceAvg_update),
      (''amount_sum'', dec_f64 sp_AmountSum_update),
      (''exchange'', dec_int64 sp_Exchange_update),
      (''market'', dec_int64 sp_Market_update),
      (''symbol_type'', dec_int64 sp_SymbolType_update),
      (''price_expect'', dec_f64 sp_PriceExpect_update)]"

record BuildTx =
  bt_Nonce :: int64
  bt_From :: string
  bt_To :: string
  bt_Value :: int64
  bt_Gas :: int64
  bt_GasPrice :: int64
  bt_MaxPriorityFeePerGas :: int64
  bt_MaxFeePerGas :: int64
  bt_Data :: string
  bt_ChainId :: int64

definition zero_BuildTx :: BuildTx where
  "zero_BuildTx = \<lparr> bt_Nonce = 0, bt_From = [], bt_To = [], bt_Value = 0, bt_Gas = 0,
     bt_GasPrice = 0, bt_MaxPriorityFeePerGas = 0, bt_MaxFeePerGas = 0, bt_Data = [],
     bt_ChainId = 0 \<rparr>"

definition BuildTx_fields :: "(string \<times> BuildTx field_dec) list" where
  "BuildTx_fields =
     [(''nonce'', dec_int64 bt_Nonce_update),
      (''from'', dec_string bt_From_update),
      (''to'', dec_string bt_To_update),
      (''value'', dec_int64 bt_Value_update),
      (''gas'', dec_int64 bt_Gas_update),
      (''gasPrice'', dec_int64 bt_GasPrice_update),
      (''maxPriorityFeePerGas'', dec_int64 bt_MaxPriorityFeePerGas_update),
      (''maxFeePerGas'', dec_int64 bt_MaxFeePerGas_update),
      (''data'', dec_string bt_Data_update),
      (''chainId'', dec_int64 bt_ChainId_update)]"

text \<open>The elements of \<open>DepthDetails\<close>.\<close>

record DepthDetail =
  dd_Exchange :: int64
  dd_PriceAvg :: f64
  dd_AmountSum :: f64
  dd_AmountUsdt :: f64
  dd_Path :: "SignalPath list"
  dd_LastAmountSum :: f64
  dd_LastPriceAvg :: f64
  dd_Amount :: f64
  dd_Price :: f64
  dd_AmountConsume :: f64
  dd_TotalRatio :: f64
  dd_ConsumeRatio :: f64
  dd_PriceExpect :: f64

definition zero_DepthDetail :: DepthDetail where
  "zero_DepthDetail = \<lparr> dd_Exchange = 0, dd_PriceAvg = f64_zero, dd_AmountSum = f64_zero,
     dd_AmountUsdt = f64_zero, dd_Path = [], dd_LastAmountSum = f64_zero,
     dd_LastPriceAvg = f64_zero, dd_Amount = f64_zero, dd_Price = f64_zero,
     dd_AmountConsume = f64_zero, dd_TotalRatio = f64_zero, dd_ConsumeRatio = f64_zero,
     dd_PriceExpect = f64_zero \<rparr>"

definition DepthDetail_fields :: "(string \<times> DepthDetail field_dec) list" where
  "DepthDetail_fields =
     [(''exchange'', dec_int64 dd_Exchange_update),
      (''price_avg'', dec_f64 dd_PriceAvg_update),
      (''amount_sum'', dec_f64 dd_AmountSum_update),
      (''amount_usdt'', dec_f64 dd_AmountUsdt_update),
      (''path'', dec_slice (\<lambda>j. dec_struct SignalPath_fields j zero_SignalPath) dd_Path_update),
      (''last_amount_sum'', dec_f64 dd_LastAmountSum_update),
      (''last_price_avg'', dec_f64 dd_LastPriceAvg_update),
      (''amount'', dec_f64 dd_Amount_update),
      (''price'', dec_f64 dd_Price_update),
      (''amount_consume'', dec_f64 dd_AmountConsume_update),
      (''total_ratio'', dec_f64 dd_TotalRatio_update),
      (''consume_ratio'', dec_f64 dd_ConsumeRatio_update),
      (''price_expect'', dec_f64 dd_PriceExpect_update)]"

record Signal =
  sg_Server :: string
  sg_DexMarket :: string
  sg_Symbol :: string
  sg_BuildTx :: BuildTx
  sg_UpdateTime :: f64
  sg_SignalBlockNum :: int64
  sg_SignalBlockTime :: f64
  sg_MaxGasPrice :: f64
  sg_BaseGasPrice :: f64
  sg_TradeBlockNum :: int64
  sg_RegistId :: int64
  sg_HedgeId :: int64
  sg_DepthDetails :: "(string \<times> DepthDetail list) list"
  sg_SymbolsTradeSide :: "(string \<times> (string \<times> string) list) list"
  sg_PriceExpect :: f64
  sg_Side :: string
  sg_AmountArb :: f64
  sg_AmountEntry :: f64

definition zero_Signal :: Signal where
  "zero_Signal = \<lparr> sg_Server = [], sg_DexMarket = [], sg_Symbol = [],
     sg_BuildTx = zero_BuildTx, sg_UpdateTime = f64_zero, sg_SignalBlockNum = 0,
     sg_SignalBlockTime = f64_zero, sg_MaxGasPrice = f64_zero, sg_BaseGasPrice = f64_zero,
     sg_TradeBlockNum = 0, sg_RegistId = 0, sg_HedgeId = 0, sg_DepthDetails = [],
     sg_SymbolsTradeSide = [], sg_PriceExpect = f64_zero, sg_Side = [],
     sg_AmountArb = f64_zero, sg_AmountEntry = f64_zero \<rparr>"

text \<open>The element decoders of the two map fields.\<close>

definition json_DepthDetails :: "json \<Rightarrow> DepthDetail list option" where
  "json_DepthDetails j =
     dec_slice (\<lambda>j. dec_struct DepthDetail_fields j zero_DepthDetail) (\<lambda>f s. f s) j []"

definition Signal_fields :: "(string \<times> Signal field_dec) list" where
  "Signal_fields =
     [(''server'', dec_string sg_Server_update),
      (''dex_market'', dec_string sg_DexMarket_update),
      (''symbol'', dec_string sg_Symbol_update),
      (''build_tx'', dec_nested sg_BuildTx sg_BuildTx_update (dec_struct BuildTx_fields)),
      (''updatetime'', dec_f64 sg_UpdateTime_update),
      (''signal_blocknum'', dec_int64 sg_SignalBlockNum_update),
      (''signal_blocktime'', dec_f64 sg_SignalBlockTime_update),
      (''max_gas_price'', dec_f64 sg_MaxGasPrice_update),
      (''base_gas_price'', dec_f64 sg_BaseGasPrice_update),
      (''trade_blocknum'', dec_int64 sg_TradeBlockNum_update),
      (''regist_id'', dec_int64 sg_RegistId_update),
      (''hedge_id'', dec_int64 sg_HedgeId_update),
      (''depth_details'', dec_map json_DepthDetails sg_DepthDetails sg_DepthDetails_update),
      (''symbols_trade_side'',
         dec_map (json_map (elem_or_zero [] json_string) []) sg_SymbolsTradeSide sg_SymbolsTradeSide_update),
      (''price_expect'', dec_f64 sg_PriceExpect_update),
      (''side'', dec_string sg_Side_update),
      (''amount_arb'', dec_f64 sg_AmountArb_update),
      (''amount_entry'', dec_f64 sg_AmountEntry_update)]"

definition unmarshal_Signal :: "json \<Rightarrow> Signal option" where
  "unmarshal_Signal j = dec_struct Signal_fields j zero_Signal"

section \<open>Pending transactions and block headers\<close>

record PendingTx =
  px_Type :: string
  px_ChainId :: string
  px_Nonce :: string
  px_From :: string
  px_To :: string
  px_Gas :: string
  px_GasPrice :: json
  px_MaxPriorityFeePerGas :: string
  px_MaxFeePerGas :: string
  px_Value :: string
  px_Input :: string
  px_AccessList :: "json list"
  px_V :: string
  px_R :: string
  px_S :: string
  px_YParity :: string
  px_Hash :: string

definition zero_PendingTx :: PendingTx where
  "zero_PendingTx = \<lparr> px_Type = [], px_ChainId = [], px_Nonce = [], px_From = [], px_To = [],
     px_Gas = [], px_GasPrice = JNull, px_MaxPriorityFeePerGas = [], px_MaxFeePerGas = [],
     px_Value = [], px_Input = [], px_AccessList = [], px_V = [], px_R = [], px_S = [],
     px_YParity = [], px_Hash = [] \<rparr>"

definition PendingTx_fields :: "(string \<times> PendingTx field_dec) list" where
  "PendingTx_fields =
     [(''type'', dec_string px_Type_update),
      (''chainId'', dec_string px_ChainId_update),
      (''nonce'', dec_string px_Nonce_update),
      (''from'', dec_string px_From_update),
      (''to'', dec_string px_To_update),
      (''gas'', dec_string px_Gas_update),
      (''gasPrice'', dec_any px_GasPrice_update),
      (''maxPriorityFeePerGas'', dec_string px_MaxPriorityFeePerGas_update),
      (''maxFeePerGas'', dec_string px_MaxFeePerGas_update),
      (''value'', dec_string px_Value_update),
      (''input'', dec_string px_Input_update),
      (''accessList'', dec_slice (elem_or_zero JNull json_any) px_AccessList_update),
      (''v'', dec_string px_V_update),
      (''r'', dec_string px_R_update),
      (''s'', dec_string px_S_update),
      (''yParity'', dec_string px_YParity_update),
      (''hash'', dec_string px_Hash_update)]"

definition unmarshal_PendingTx :: "json \<Rightarrow> PendingTx option" where
  "unmarshal_PendingTx j = dec_struct PendingTx_fields j zero_PendingTx"

record HeadResult =
  hr_ParentHash :: string
  hr_Sha3Uncles :: string
  hr_Miner :: string
  hr_StateRoot :: string
  hr_TransactionsRoot :: string
  hr_ReceiptsRoot :: string
  hr_LogsBloom :: string
  hr_Difficulty :: string
  hr_Number :: int64
  hr_GasLimit :: string
  hr_GasUsed :: string
  hr_Timestamp :: int64
  hr_ExtraData :: string
  hr_MixHash :: string
  hr_Nonce :: string
  hr_ExtDataHash :: string
  hr_BaseFeePerGas :: string
  hr_ExtDataGasUsed :: string
  hr_BlockGasCost :: string
  hr_BlobGasUsed :: json
  hr_ExcessBlobGas :: json
  hr_ParentBeaconBlockRoot :: json
  hr_Hash :: string

definition zero_HeadResult :: HeadResult where
  "zero_HeadResult = \<lparr> hr_ParentHash = [], hr_Sha3Uncles = [], hr_Miner = [],
     hr_StateRoot = [], hr_TransactionsRoot = [], hr_ReceiptsRoot = [], hr_LogsBloom = [],
     hr_Difficulty = [], hr_Number = 0, hr_GasLimit = [], hr_GasUsed = [], hr_Timestamp = 0,
     hr_ExtraData = [], hr_MixHash = [], hr_Nonce = [], hr_ExtDataHash = [],
     hr_BaseFeePerGas = [], hr_ExtDataGasUsed = [], hr_BlockGasCost = [],
     hr_BlobGasUsed = JNull, hr_ExcessBlobGas = JNull, hr_ParentBeaconBlockRoot = JNull,
     hr_Hash = [] \<rparr>"

definition HeadResult_fields :: "(string \<times> HeadResult field_dec) list" where
  "HeadResult_fields =
     [(''parentHash'', dec_string hr_ParentHash_update),
      (''sha3Uncles'', dec_string hr_Sha3Uncles_update),
      (''miner'', dec_string hr_Miner_update),
      (''stateRoot'', dec_string hr_StateRoot_update),
      (''transactionsRoot'', dec_string hr_TransactionsRoot_update),
      (''receiptsRoot'', dec_string hr_ReceiptsRoot_update),
      (''logsBloom'', dec_string hr_LogsBloom_update),
      (''difficulty'', dec_string hr_Difficulty_update),
      (''number'', dec_int64 hr_Number_update),
      (''gasLimit'', dec_string hr_GasLimit_update),
      (''gasUsed'', dec_string hr_GasUsed_update),
      (''timestamp'', dec_int64 hr_Timestamp_update),
      (''extraData'', dec_string hr_ExtraData_update),
      (''mixHash'', dec_string hr_MixHash_update),
      (''nonce'', dec_string hr_Nonce_update),
      (''extDataHash'', dec_string hr_ExtDataHash_update),
      (''baseFeePerGas'', dec_string hr_BaseFeePerGas_update),
      (''extDataGasUsed'', dec_string hr_ExtDataGasUsed_update),
      (''blockGasCost'', dec_string hr_BlockGasCost_update),
      (''blobGasUsed'', dec_any hr_BlobGasUsed_update),
      (''excessBlobGas'', dec_any hr_ExcessBlobGas_update),
      (''parentBeaconBlockRoot'', dec_any hr_ParentBeaconBlockRoot_update),
      (''hash'', dec_string hr_Hash_update)]"

record HeadParams =
  hp_Subscription :: string
  hp_Result :: HeadResult

definition HeadParams_fields :: "(string \<times> HeadParams field_dec) list" where
  "HeadParams_fields =
     [(''subscription'', dec_string hp_Subscription_update),
      (''result'', dec_nested hp_Result hp_Result_update (dec_struct HeadResult_fields))]"

record HeadRsp =
  hd_Jsonrpc :: string
  hd_Method :: string
  hd_Params :: HeadParams

definition zero_HeadRsp :: HeadRsp where
  "zero_HeadRsp = \<lparr> hd_Jsonrpc = [], hd_Method = [],
     hd_Params = \<lparr> hp_Subscription = [], hp_Result = zero_HeadResult \<rparr> \<rparr>"

definition HeadRsp_fields :: "(string \<times> HeadRsp field_dec) list" where
  "HeadRsp_fields =
     [(''jsonrpc'', dec_string hd_Jsonrpc_update),
      (''method'', dec_string hd_Method_update),
      (''params'', dec_nested hd_Params hd_Params_update (dec_struct HeadParams_fields))]"

definition unmarshal_HeadRsp :: "json \<Rightarrow> HeadRsp option" where
  "unmarshal_HeadRsp j = dec_struct HeadRsp_fields j zero_HeadRsp"

section \<open>Call traces\<close>

record wsRequest =
  wr_Id :: int64
  wr_JsonRpc :: f64
  wr_Method :: string
  wr_Params :: "string list"

definition zero_wsRequest :: wsRequest where
  "zero_wsRequest = \<lparr> wr_Id = 0, wr_JsonRpc = f64_zero, wr_Method = [], wr_Params = [] \<rparr>"

definition wsRequest_fields :: "(string \<times> wsRequest field_dec) list" where
  "wsRequest_fields =
     [(''id'', dec_int64 wr_Id_update),
      (''jsonrpc'', dec_f64 wr_JsonRpc_update),
      (''method'', dec_string wr_Method_update),
      (''params'', dec_slice (elem_or_zero [] json_string) wr_Params_update)]"

definition unmarshal_wsRequest :: "json \<Rightarrow> wsRequest option" where
  "unmarshal_wsRequest j = dec_struct wsRequest_fields j zero_wsRequest"

record ParamsA =
  pa_From :: string
  pa_To :: string
  pa_Data :: string

record TracerConfig =
  tc_WithLog :: bool
  tc_OnlyTopCall :: bool

record Tracer =
  tr_Tracer :: string
  tr_TracerConfig :: TracerConfig

datatype CallsRes = CallsRes
  (cr_From: string) (cr_Gas: string) (cr_GasUsed: string) (cr_To: string)
  (cr_Input: string) (cr_Output: string) (cr_Value: string) (cr_Type: string)
  (cr_Call: "CallsRes list")

definition zero_CallsRes :: CallsRes where
  "zero_CallsRes = CallsRes [] [] [] [] [] [] [] [] []"

text \<open>
  The tagged string fields of \<open>CallsRes\<close>; \<open>calls\<close> is decoded by the recursion below.
\<close>

fun set_CallsRes :: "string \<Rightarrow> string \<Rightarrow> CallsRes \<Rightarrow> CallsRes" where
  "set_CallsRes f v (CallsRes fr g gu t i ou va ty cs) =
     (if f = ''from'' then CallsRes v g gu t i ou va ty cs
      else if f = ''gas'' then CallsRes fr v gu t i ou va ty cs
      else if f = ''gasUsed'' then CallsRes fr g v t i ou va ty cs
      else if f = ''to'' then CallsRes fr g gu v i ou va ty cs
      else if f = ''input'' then CallsRes fr g gu t v ou va ty cs
      else if f = ''output'' then CallsRes fr g gu t i v va ty cs
      else if f = ''value'' then CallsRes fr g gu t i ou v ty cs
      else if f = ''type'' then CallsRes fr g gu t i ou va v cs
      else CallsRes fr g gu t i ou va ty cs)"

fun set_Call :: "CallsRes list \<Rightarrow> CallsRes \<Rightarrow> CallsRes" where
  "set_Call cs' (CallsRes fr g gu t i ou va ty cs) = CallsRes fr g gu t i ou va ty cs'"

definition CallsRes_names :: "(string \<times> string) list" where
  "CallsRes_names = map (\<lambda>n. (n, n))
     [''from'', ''gas'', ''gasUsed'', ''to'', ''input'', ''output'', ''value'', ''type'', ''calls'']"

fun dec_CallsRes :: "json \<Rightarrow> CallsRes \<Rightarrow> CallsRes option"
  and dec_CallsRes_members :: "(string \<times> json) list \<Rightarrow> CallsRes \<Rightarrow> CallsRes option"
  and dec_CallsRes_list :: "json list \<Rightarrow> CallsRes list option"
where
  "dec_CallsRes JNull c = Some c"
| "dec_CallsRes (JObj ms) c = dec_CallsRes_members ms c"
| "dec_CallsRes _ c = None"
| "dec_CallsRes_members [] c = Some c"
| "dec_CallsRes_members ((k, j) # ms) c =
     (case find_field CallsRes_names k of
        None \<Rightarrow> dec_CallsRes_members ms c
      | Some f \<Rightarrow>
          if f = ''calls'' then
            (case j of
               JNull \<Rightarrow> dec_CallsRes_members ms (set_Call [] c)
             | JArr js \<Rightarrow>
                 (case dec_CallsRes_list js of
                    None \<Rightarrow> None
                  | Some cs \<Rightarrow> dec_CallsRes_members ms (set_Call cs c))
             | _ \<Rightarrow> None)
          else
            (case j of
               JNull \<Rightarrow> dec_CallsRes_members ms c
             | JStr v \<Rightarrow> dec_CallsRes_members ms (set_CallsRes f v c)
             | _ \<Rightarrow> None))"
| "dec_CallsRes_list [] = Some []"
| "dec_CallsRes_list (j # js) =
     (case dec_CallsRes j zero_CallsRes of
        None \<Rightarrow> None
      | Some c \<Rightarrow> (case dec_CallsRes_list js of None \<Rightarrow> None | Some cs \<Rightarrow> Some (c # cs)))"

definition unmarshal_CallsRes :: "json \<Rightarrow> CallsRes option" where
  "unmarshal_CallsRes j = dec_CallsRes j zero_CallsRes"

text \<open>
  Two more message types of the file, which no function uses: the request and the answer of
  \<open>debug_traceCall\<close>. The \<open>calls\<close> of the answer is one trace, not a list of them.
\<close>

record DebugTraceCallReq =
  dt_Method :: string
  dt_Params :: "json list"
  dt_Id :: int64
  dt_Jsonrpc :: string

definition DebugTraceCallReq_fields :: "(string \<times> DebugTraceCallReq field_dec) list" where
  "DebugTraceCallReq_fields =
     [(''method'', dec_string dt_Method_update),
      (''params'', dec_slice (elem_or_zero JNull json_any) dt_Params_update),
      (''id'', dec_int64 dt_Id_update),
      (''jsonrpc'', dec_string dt_Jsonrpc_update)]"

record TraceResult =
  tt_From :: string
  tt_Gas :: string
  tt_GasUsed :: string
  tt_To :: string
  tt_Input :: string
  tt_Output :: string
  tt_Error :: string
  tt_Calls :: CallsRes
  tt_Value :: string
  tt_Type :: string

definition TraceResult_fields :: "(string \<times> TraceResult field_dec) list" where
  "TraceResult_fields =
     [(''from'', dec_string tt_From_update),
      (''gas'', dec_string tt_Gas_update),
      (''gasUsed'', dec_string tt_GasUsed_update),
      (''to'', dec_string tt_To_update),
      (''input'', dec_string tt_Input_update),
      (''output'', dec_string tt_Output_update),
      (''error'', dec_string tt_Error_update),
      (''calls'', dec_nested tt_Calls tt_Calls_update dec_CallsRes),
      (''value'', dec_string tt_Value_update),
      (''type'', dec_string tt_Type_update)]"

record TraceCallRes =
  tx_Jsonrpc :: string
  tx_Id :: int64
  tx_Result :: TraceResult

definition TraceCallRes_fields :: "(string \<times> TraceCallRes field_dec) list" where
  "TraceCallRes_fields =
     [(''jsonrpc'', dec_string tx_Jsonrpc_update),
      (''id'', dec_int64 tx_Id_update),
      (''result'', dec_nested tx_Result tx_Result_update (dec_struct TraceResult_fields))]"

text \<open>Addresses are 20 bytes. The two numeric fields of a path are not read by the program.\<close>

type_synonym address = "byte list"

record TraderJoePath =
  tj_PairBinSteps :: "int list"
  tj_Versions :: "byte list"
  tj_TokenPath :: "address list"

section \<open>What decoding guarantees\<close>

text \<open>A member of the wrong kind makes the whole value an error.\<close>

lemma dec_members_error:
  assumes "(k, j) \<in> set ms" and "find_field fs k = Some d" and "\<And>s. d j s = None"
  shows "dec_members fs ms s = None"
  using assms by (induction fs ms s rule: dec_members.induct) (auto split: option.splits)

lemma unmarshal_Signal_maps_distinct:
  assumes "unmarshal_Signal j = Some s"
  shows "distinct (map fst (sg_DepthDetails s)) \<and> distinct (map fst (sg_SymbolsTradeSide s))"
proof (rule dec_struct_invar [OF assms [unfolded unmarshal_Signal_def]])
  show "distinct (map fst (sg_DepthDetails zero_Signal)) \<and> distinct (map fst (sg_SymbolsTradeSide zero_Signal))"
    by (simp add: zero_Signal_def)
next
  fix d j' s1 s2
  assume "d \<in> snd ` set Signal_fields"
    and "distinct (map fst (sg_DepthDetails s1)) \<and> distinct (map fst (sg_SymbolsTradeSide s1))"
    and "d j' s1 = Some s2"
  then show "distinct (map fst (sg_DepthDetails s2)) \<and> distinct (map fst (sg_SymbolsTradeSide s2))"
    by (auto simp: Signal_fields_def dec_prim_def dec_nested_def dec_map_def split: if_splits)
      (erule json_map_distinct, assumption)+
qed

end
