(* ===== verification/Symbol_Decoder.thy ===== *)
theory Symbol_Decoder
  imports Core_Types
begin

text \<open>
  The contract the transaction loop relies on of both decoders of \<open>core/node_mgr.go\<close>:
  decoding one pending transaction yields symbols and whether the transaction is already
  mined, and a mined transaction yields no symbols. The client's part of the loop, what it
  does with a decoded transaction, is proved once here.
\<close>

text \<open>What the loop does after decoding: nothing, cancel, or rebuild for some symbols.\<close>

datatype reaction = Ignore | Cancel | Rebuild "string list"

definition react :: "bool \<Rightarrow> string list \<times> bool \<Rightarrow> reaction" where
  "react have_signals d =
     (case d of (symbolList, alreadyOnChain) \<Rightarrow>
        if symbolList \<noteq> [] \<and> have_signals
        then (if alreadyOnChain then Cancel else Rebuild symbolList)
        else Ignore)"

locale symbol_decoder =
  fixes decode :: "'i \<Rightarrow> (string list \<times> bool) go"
    and vocabulary :: "'i \<Rightarrow> string set"
  assumes mined_is_silent: "decode i = Inr (syms, True) \<Longrightarrow> syms = []"
    and known_symbols: "decode i = Inr (syms, onChain) \<Longrightarrow> set syms \<subseteq> vocabulary i"
begin

lemma never_cancels: "decode i = Inr d \<Longrightarrow> react h d \<noteq> Cancel"
  by (cases d) (auto simp: react_def dest: mined_is_silent)

lemma rebuild_iff:
  "decode i = Inr (syms, onChain) \<Longrightarrow> react h (syms, onChain) = Rebuild ss \<longleftrightarrow> h \<and> syms \<noteq> [] \<and> ss = syms"
  using mined_is_silent [of i syms] by (cases onChain) (auto simp: react_def)

lemma rebuild_known:
  "decode i = Inr d \<Longrightarrow> react h d = Rebuild ss \<Longrightarrow> ss \<noteq> [] \<and> hd ss \<in> vocabulary i"
  using known_symbols [of i "fst d" "snd d"]
  by (cases d) (auto simp: react_def split: if_splits intro: subsetD hd_in_set)

end

end
