(* ===== verification/Call_Decoder.thy ===== *)
theory Call_Decoder
  imports Symbol_Decoder
begin

text \<open>
  \<open>CallClientDecoder\<close> of \<open>core/node_mgr.go\<close>: a competitor's transaction is traced
  with \<open>debug_traceCall\<close>, every contract its call tree touches is collected, and the
  ones that are known pairs give the symbols it trades. The node's answers are arguments:
  \<open>rpc_trace\<close> is the result of the call as a JSON tree, \<open>None\<close> for an error, and
  \<open>rpc_receipt\<close> says whether \<open>TransactionReceipt\<close> returned without an error.
\<close>

record call_rpc =
  rpc_trace :: "ParamsA \<Rightarrow> string \<Rightarrow> Tracer \<Rightarrow> json option"
  rpc_receipt :: "string \<Rightarrow> bool"

section \<open>\<open>GetAllAddress\<close>\<close>

fun GetAllAddress :: "CallsRes list \<Rightarrow> string list" where
  "GetAllAddress [] = []"
| "GetAllAddress (CallsRes fr g gu t i ou va ty cs # rest) =
     t # GetAllAddress cs @ GetAllAddress rest"

lemma GetAllAddress_Cons: "GetAllAddress (c # cs) = cr_To c # GetAllAddress (cr_Call c) @ GetAllAddress cs"
  by (cases c) simp

lemma GetAllAddress_append: "GetAllAddress (cs @ ds) = GetAllAddress cs @ GetAllAddress ds"
  by (induction cs) (simp_all add: GetAllAddress_Cons)

text \<open>The calls of a trace: the ones listed and, again and again, the calls they make.\<close>

inductive call_in :: "CallsRes list \<Rightarrow> CallsRes \<Rightarrow> bool" where
  top: "c \<in> set cs \<Longrightarrow> call_in cs c"
| sub: "call_in cs c \<Longrightarrow> d \<in> set (cr_Call c) \<Longrightarrow> call_in cs d"

lemma call_in_Nil [simp]: "\<not> call_in [] c"
proof
  assume "call_in [] c"
  then show False by (induction "[] :: CallsRes list" c rule: call_in.induct) auto
qed

lemma call_in_mono: "call_in cs c \<Longrightarrow> set cs \<subseteq> set ds \<Longrightarrow> call_in ds c"
  by (induction rule: call_in.induct) (auto intro: call_in.intros)

lemma call_in_children: "call_in (cr_Call c) d \<Longrightarrow> call_in (c # cs) d"
proof (induction "cr_Call c" d rule: call_in.induct)
  case (top d)
  have "call_in (c # cs) c" by (rule call_in.top) simp
  then show ?case using top by (rule call_in.sub)
next
  case (sub d e)
  then show ?case by (blast intro: call_in.sub)
qed

lemma call_in_Cons:
  "call_in (c # cs) d \<longleftrightarrow> d = c \<or> call_in (cr_Call c) d \<or> call_in cs d"
proof
  assume "call_in (c # cs) d"
  then show "d = c \<or> call_in (cr_Call c) d \<or> call_in cs d"
    by (induction "c # cs" d rule: call_in.induct) (auto intro: call_in.intros)
next
  assume "d = c \<or> call_in (cr_Call c) d \<or> call_in cs d"
  then show "call_in (c # cs) d"
    by (auto intro: call_in.top call_in_children call_in_mono [of cs d])
qed

lemma set_GetAllAddress: "set (GetAllAddress cs) = {cr_To c | c. call_in cs c}"
proof (induction cs rule: GetAllAddress.induct)
  case 1
  show ?case by simp
next
  case (2 fr g gu t i ou va ty cs rest)
  let ?c = "CallsRes fr g gu t i ou va ty cs"
  have "{cr_To c |c. call_in (?c # rest) c} =
    insert (cr_To ?c) ({cr_To c |c. call_in (cr_Call ?c) c} \<union> {cr_To c |c. call_in rest c})"
    by (auto simp only: call_in_Cons)
  with 2 show ?case by simp
qed

text \<open>One address per call of the tree.\<close>

fun count_calls :: "CallsRes list \<Rightarrow> nat" where
  "count_calls [] = 0"
| "count_calls (CallsRes fr g gu t i ou va ty cs # rest) = Suc (count_calls cs + count_calls rest)"

lemma length_GetAllAddress: "length (GetAllAddress cs) = count_calls cs"
  by (induction cs rule: GetAllAddress.induct) auto

section \<open>\<open>DecodeToSymbol\<close>\<close>

text \<open>The variables the two goroutines share with the function that waits for them.\<close>

record call_vars =
  cv_addresses :: "string list"
  cv_alreadyOnChain :: bool

definition trace_params :: "PendingTx \<Rightarrow> ParamsA" where
  "trace_params pendingTx =
     \<lparr> pa_From = px_From pendingTx, pa_To = px_To pendingTx, pa_Data = px_Input pendingTx \<rparr>"

definition trace_config :: Tracer where
  "trace_config = \<lparr> tr_Tracer = ''callTracer'',
     tr_TracerConfig = \<lparr> tc_WithLog = True, tc_OnlyTopCall = False \<rparr> \<rparr>"

definition trace_job :: "call_rpc \<Rightarrow> PendingTx \<Rightarrow> call_vars \<Rightarrow> call_vars" where
  "trace_job rpc pendingTx v =
     (case rpc_trace rpc (trace_params pendingTx) ''latest'' trace_config of
        None \<Rightarrow> v
      | Some result \<Rightarrow>
          (case unmarshal_CallsRes result of
             None \<Rightarrow> v
           | Some resTraceCall \<Rightarrow> v\<lparr>cv_addresses := GetAllAddress [resTraceCall]\<rparr>))"

definition receipt_job :: "call_rpc \<Rightarrow> PendingTx \<Rightarrow> call_vars \<Rightarrow> call_vars" where
  "receipt_job rpc pendingTx v =
     (if rpc_receipt rpc (px_Hash pendingTx) then v else v\<lparr>cv_alreadyOnChain := False\<rparr>)"

definition init_vars :: call_vars where
  "init_vars = \<lparr> cv_addresses = [], cv_alreadyOnChain = True \<rparr>"

definition collect_symbols :: "(string \<rightharpoonup> string) \<Rightarrow> call_vars \<Rightarrow> string list \<times> bool" where
  "collect_symbols pairSymbolMap v =
     (if cv_alreadyOnChain v then [] else List.map_filter pairSymbolMap (cv_addresses v),
      cv_alreadyOnChain v)"

definition Call_DecodeToSymbol :: "call_rpc \<Rightarrow> (string \<rightharpoonup> string) \<Rightarrow> PendingTx \<Rightarrow> string list \<times> bool" where
  "Call_DecodeToSymbol rpc pairSymbolMap pendingTx =
     collect_symbols pairSymbolMap (receipt_job rpc pendingTx (trace_job rpc pendingTx init_vars))"

text \<open>The goroutines write different variables, so their order does not matter.\<close>

lemma jobs_commute:
  "receipt_job rpc tx (trace_job rpc tx v) = trace_job rpc tx (receipt_job rpc tx v)"
  by (simp add: receipt_job_def trace_job_def split: option.splits)

definition traced_calls :: "call_rpc \<Rightarrow> PendingTx \<Rightarrow> CallsRes list" where
  "traced_calls rpc tx =
     (case rpc_trace rpc (trace_params tx) ''latest'' trace_config of
        None \<Rightarrow> []
      | Some j \<Rightarrow> (case unmarshal_CallsRes j of None \<Rightarrow> [] | Some r \<Rightarrow> [r]))"

lemma Call_DecodeToSymbol_eq:
  "Call_DecodeToSymbol rpc m tx =
     (if rpc_receipt rpc (px_Hash tx) then ([], True)
      else (List.map_filter m (GetAllAddress (traced_calls rpc tx)), False))"
  by (simp add: Call_DecodeToSymbol_def collect_symbols_def receipt_job_def trace_job_def
      init_vars_def traced_calls_def List.map_filter_def split: option.splits)

lemma set_map_filter: "set (List.map_filter m xs) = {y. \<exists>x \<in> set xs. m x = Some y}"
  by (induction xs) (auto simp: map_filter_simps split: option.splits)

text \<open>The decoder meets the contract of the transaction loop.\<close>

definition call_decode :: "call_rpc \<times> (string \<rightharpoonup> string) \<times> PendingTx \<Rightarrow> (string list \<times> bool) go" where
  "call_decode i = (case i of (rpc, m, tx) \<Rightarrow> Inr (Call_DecodeToSymbol rpc m tx))"

interpretation call_dec: symbol_decoder call_decode "\<lambda>(rpc, m, tx). ran m"
  by unfold_locales
    (auto simp: call_decode_def Call_DecodeToSymbol_eq set_map_filter ran_def split: if_splits)

end
