(* ===== verification/Router_Decoder.thy ===== *)
theory Router_Decoder
  imports Symbol_Decoder
begin

text \<open>
  \<open>RouterDecoder\<close> of \<open>core/node_mgr.go\<close>: the calldata of a transaction to a known
  router is decoded with the router's ABI and the two tokens of its path give the symbols.
  An ABI is what the program uses of it: \<open>MethodById\<close> on the selector gives, unless it
  fails, the method's \<open>Inputs.Unpack\<close>, which gives the parameters or fails. The ABI
  library, the re-encoding of a parameter as a path, and \<open>Address.String\<close> are arguments.
\<close>

type_synonym 'v abi = "byte list \<Rightarrow> (byte list \<Rightarrow> 'v list option) option"

record 'v RouterDecoder =
  rd_AddrTokens :: "string \<rightharpoonup> string"
  rd_UniswapV3RouterAbi :: "'v abi"
  rd_TraderjoeRouterAbi :: "'v abi"

record 'v router_lib =
  rl_path :: "'v \<Rightarrow> TraderJoePath option"
  rl_address_string :: "address \<Rightarrow> string"

definition NewRouterDecoder ::
    "(string \<Rightarrow> 'v abi option) \<Rightarrow> string \<Rightarrow> string \<Rightarrow> (string \<rightharpoonup> string) \<Rightarrow> 'v RouterDecoder option" where
  "NewRouterDecoder abi_JSON uniData joeData addrTokens =
     (case abi_JSON uniData of
        None \<Rightarrow> None
      | Some uni \<Rightarrow>
          (case abi_JSON joeData of
             None \<Rightarrow> None
           | Some joe \<Rightarrow> Some \<lparr> rd_AddrTokens = addrTokens, rd_UniswapV3RouterAbi = uni,
                                rd_TraderjoeRouterAbi = joe \<rparr>))"

text \<open>\<open>fmt.Sprintf("%v_%v", a, b)\<close>.\<close>

definition pair_symbol :: "string \<Rightarrow> string \<Rightarrow> string" where
  "pair_symbol a b = a @ ''_'' @ b"

definition traderjoe_symbols ::
    "'v router_lib \<Rightarrow> 'v RouterDecoder \<Rightarrow> byte list \<Rightarrow> byte list \<Rightarrow> string list go" where
  "traderjoe_symbols lib r funcSig ti =
     (case rd_TraderjoeRouterAbi r funcSig of
        None \<Rightarrow> Inr []
      | Some unpack \<Rightarrow>
          (case unpack ti of
             None \<Rightarrow> Inr []
           | Some params \<Rightarrow>
               go_bind (go_index params 2) (\<lambda>p2.
                 case rl_path lib p2 of
                   None \<Rightarrow> Inr []
                 | Some path \<Rightarrow>
                     go_bind (go_index (tj_TokenPath path) 0) (\<lambda>tokenAddr0.
                     go_bind (go_index (tj_TokenPath path) 1) (\<lambda>tokenAddr1.
                       case (rd_AddrTokens r (rl_address_string lib tokenAddr0),
                             rd_AddrTokens r (rl_address_string lib tokenAddr1)) of
                         (Some token0, Some token1) \<Rightarrow>
                           Inr [pair_symbol token0 token1, pair_symbol token1 token0]
                       | _ \<Rightarrow> Inr [])))))"

text \<open>The Uniswap branch only prints the third parameter.\<close>

definition uniswap_symbols ::
    "'v RouterDecoder \<Rightarrow> byte list \<Rightarrow> byte list \<Rightarrow> string list go" where
  "uniswap_symbols r funcSig ti =
     (case rd_UniswapV3RouterAbi r funcSig of
        None \<Rightarrow> Inr []
      | Some unpack \<Rightarrow>
          (case unpack ti of
             None \<Rightarrow> Inr []
           | Some params \<Rightarrow> go_bind (go_index params 2) (\<lambda>_. Inr [])))"

text \<open>
  The branch on the router's name. The decoder pointer is nil (\<open>None\<close>) when its
  constructor failed; the method reads its fields only in the two branches that decode.
\<close>

definition router_branch ::
    "'v router_lib \<Rightarrow> 'v RouterDecoder option \<Rightarrow> string \<Rightarrow> byte list \<Rightarrow> byte list \<Rightarrow> string list go" where
  "router_branch lib r dexName funcSig ti =
     (if dexName = ''traderjoe'' then
        (case r of None \<Rightarrow> Inl NilDereference | Some rd \<Rightarrow> traderjoe_symbols lib rd funcSig ti)
      else if dexName = ''avaxuniswap'' then
        (case r of None \<Rightarrow> Inl NilDereference | Some rd \<Rightarrow> uniswap_symbols rd funcSig ti)
      else Inr [])"

definition Router_DecodeToSymbol ::
    "'v router_lib \<Rightarrow> 'v RouterDecoder option \<Rightarrow> string \<Rightarrow> PendingTx \<Rightarrow> string list go" where
  "Router_DecodeToSymbol lib r dexName pendingTx =
     go_bind (go_slice (px_Input pendingTx) 2 10) (\<lambda>sigHex.
       case go_hex_decode sigHex of (funcSig, err) \<Rightarrow>
         if err then Inr []
         else go_bind (go_slice_from (px_Input pendingTx) 10) (\<lambda>rest.
           router_branch lib r dexName funcSig (fst (go_hex_decode rest))))"

lemma Router_DecodeToSymbol_eq:
  "Router_DecodeToSymbol lib r dexName tx =
     (if length (px_Input tx) < 10 then Inl SliceOutOfRange
      else if snd (go_hex_decode (take 8 (drop 2 (px_Input tx)))) then Inr []
      else router_branch lib r dexName (fst (go_hex_decode (take 8 (drop 2 (px_Input tx)))))
             (fst (go_hex_decode (drop 10 (px_Input tx)))))"
  by (simp add: Router_DecodeToSymbol_def go_slice_def go_slice_from_def split: prod.splits)

section \<open>Shape of the result\<close>

lemma traderjoe_symbols_shape:
  assumes "traderjoe_symbols lib r fs ti = Inr syms"
  shows "syms = [] \<or> (\<exists>t0 t1. t0 \<in> ran (rd_AddrTokens r) \<and> t1 \<in> ran (rd_AddrTokens r) \<and>
           syms = [pair_symbol t0 t1, pair_symbol t1 t0])"
  using assms by (auto simp: traderjoe_symbols_def go_simps ran_def split: option.splits)

lemma uniswap_symbols_empty: "uniswap_symbols r fs ti = Inr syms \<Longrightarrow> syms = []"
  by (auto simp: uniswap_symbols_def go_simps split: option.splits)

lemma Router_cases:
  assumes "Router_DecodeToSymbol lib r dexName tx = Inr syms"
  shows "syms = [] \<or> (dexName = ''traderjoe'' \<and> (\<exists>rd t0 t1. r = Some rd \<and>
           t0 \<in> ran (rd_AddrTokens rd) \<and> t1 \<in> ran (rd_AddrTokens rd) \<and>
           syms = [pair_symbol t0 t1, pair_symbol t1 t0]))"
  using assms
  by (auto simp: Router_DecodeToSymbol_eq router_branch_def
      split: if_splits option.splits dest!: traderjoe_symbols_shape dest: uniswap_symbols_empty)

definition router_decode ::
    "'v router_lib \<times> 'v RouterDecoder option \<times> string \<times> PendingTx \<Rightarrow> (string list \<times> bool) go" where
  "router_decode i =
     (case i of (lib, r, dexName, tx) \<Rightarrow>
        go_bind (Router_DecodeToSymbol lib r dexName tx) (\<lambda>syms. Inr (syms, False)))"

definition router_vocabulary :: "'v RouterDecoder option \<Rightarrow> string set" where
  "router_vocabulary r =
     (case r of None \<Rightarrow> {}
      | Some rd \<Rightarrow> {pair_symbol a b | a b. a \<in> ran (rd_AddrTokens rd) \<and> b \<in> ran (rd_AddrTokens rd)})"

interpretation router_dec: symbol_decoder router_decode "\<lambda>(lib, r, dexName, tx). router_vocabulary r"
proof unfold_locales
  fix i :: "'v router_lib \<times> 'v RouterDecoder option \<times> string \<times> PendingTx" and syms onChain
  show "router_decode i = Inr (syms, True) \<Longrightarrow> syms = []"
    by (auto simp: router_decode_def go_simps split: prod.splits)
  assume "router_decode i = Inr (syms, onChain)"
  then show "set syms \<subseteq> (case i of (lib, r, dexName, tx) \<Rightarrow> router_vocabulary r)"
    by (fastforce simp: router_decode_def go_simps router_vocabulary_def dest!: Router_cases
        split: prod.splits option.splits)
qed

section \<open>Panics\<close>

text \<open>Calldata shorter than a selector, as in a plain transfer, panics for any router.\<close>

lemma Router_short_input:
  "length (px_Input tx) < 10 \<Longrightarrow> Router_DecodeToSymbol lib r dexName tx = Inl SliceOutOfRange"
  by (simp add: Router_DecodeToSymbol_eq)

lemma Router_other_dex_total:
  assumes "10 \<le> length (px_Input tx)" and "dexName \<noteq> ''traderjoe''" and "dexName \<noteq> ''avaxuniswap''"
  shows "Router_DecodeToSymbol lib r dexName tx = Inr []"
  using assms by (simp add: Router_DecodeToSymbol_eq router_branch_def)

end
