(* ===== verification/Trade.thy ===== *)
theory Trade
  imports Core_Types
begin

text \<open>
  \<open>NodeMgr.Trade\<close> of \<open>core/node_mgr.go\<close> up to the publication: from a signal and a new
  priority fee to the trading request. The message types carry the fields the code sets;
  enumeration types of the protocol are 32-bit integers, and the values of the constants
  the code names, which are generated outside the repository, are a record argument.
\<close>

section \<open>Messages\<close>

datatype TradeSide = TradeSide_BUY | TradeSide_SELL

record proto_consts =
  TradeType_TAKER :: int32
  Exchange_AVALANCHE_DEX :: int32
  Market_SPOT :: int32
  OrderSysType_TRADE_DEX :: int32
  SymbolType_SPOT_NORMAL :: int32
  EthTransactionType_DynamicFeeTx :: int32

record OrderHedge =
  oh_Side :: TradeSide
  oh_PriceExpected :: f64
  oh_Amount :: f64
  oh_ExpiredTimeMs :: int64
  oh_Exchange :: int32
  oh_AccountId :: string
  oh_Market :: int32
  oh_Type :: int32
  oh_Token :: string
  oh_Quote :: string

record EthInfo =
  ei_TxType :: int32
  ei_GasLimit :: uint64
  ei_Nonce :: uint64
  ei_Data :: string
  ei_MaxPriorityFeePerGas :: uint64
  ei_MaxFeePerGas :: uint64
  ei_Value :: string

record DexInfo =
  di_Signer :: string
  di_Info :: EthInfo

record TradingReqInfoWAP =
  tq_ProjectId :: string
  tq_ReqNo :: int64
  tq_Hedge :: int64
  tq_TradeType :: int32
  tq_TradeSide :: TradeSide
  tq_PriceExpect :: f64
  tq_Token :: string
  tq_Quote :: string
  tq_Amount :: f64
  tq_ExchangeId :: int32
  tq_ExchangeAddr :: string
  tq_AccountId :: string
  tq_Market :: int32
  tq_Type :: int32
  tq_Contract :: int32
  tq_Dex :: DexInfo
  tq_HedgeExpect :: "OrderHedge list"

section \<open>Building the request\<close>

definition trade_side :: "string \<Rightarrow> TradeSide" where
  "trade_side s = (if s = ''buy'' then TradeSide_BUY else TradeSide_SELL)"

definition dex_info :: "proto_consts \<Rightarrow> Signal \<Rightarrow> int \<Rightarrow> DexInfo" where
  "dex_info pc signal newGasPrice =
     \<lparr> di_Signer = bt_From (sg_BuildTx signal),
       di_Info =
         \<lparr> ei_TxType = EthTransactionType_DynamicFeeTx pc,
           ei_GasLimit = bt_Gas (sg_BuildTx signal),
           ei_Nonce = bt_Nonce (sg_BuildTx signal),
           ei_Data = bt_Data (sg_BuildTx signal),
           ei_MaxPriorityFeePerGas = big_Uint64 newGasPrice,
           ei_MaxFeePerGas = bt_MaxFeePerGas (sg_BuildTx signal),
           ei_Value = go_itoa (sint (bt_Value (sg_BuildTx signal))) \<rparr> \<rparr>"

text \<open>\<open>signal.SymbolsTradeSide[subject][symbol]\<close>: a missing key reads as the zero value.\<close>

definition hedge_side :: "Signal \<Rightarrow> string \<Rightarrow> SignalPath \<Rightarrow> TradeSide" where
  "hedge_side signal subject item =
     (let symbol = go_lower (go_replace (sp_Symbol item) ''/'' ''_'' (-1))
      in trade_side (map_get [] (map_of (map_get [] (map_of (sg_SymbolsTradeSide signal)) subject)) symbol))"

text \<open>One pass of the innermost loop; \<open>now\<close> is its reading of the clock in milliseconds.\<close>

definition order_hedge ::
    "Signal \<Rightarrow> int64 \<Rightarrow> string \<times> DepthDetail \<times> SignalPath \<Rightarrow> OrderHedge go" where
  "order_hedge signal now t =
     (case t of (subject, itemDetail, item) \<Rightarrow>
        let itemTokens = go_split CHR ''/'' (sp_Symbol item) in
        go_bind (go_index itemTokens 0) (\<lambda>itemBase.
        go_bind (go_index itemTokens 1) (\<lambda>itemQuote.
          Inr \<lparr> oh_Side = hedge_side signal subject item,
                oh_PriceExpected = sp_PriceAvg item,
                oh_Amount = dd_ConsumeRatio itemDetail * dd_AmountSum itemDetail,
                oh_ExpiredTimeMs = 15000 + now,
                oh_Exchange = ucast (sp_Exchange item),
                oh_AccountId = ''ptneurm1'',
                oh_Market = ucast (sp_Market item),
                oh_Type = ucast (sp_SymbolType item),
                oh_Token = itemBase,
                oh_Quote = itemQuote \<rparr>)))"

text \<open>
  The three nested loops visit these triples in this order; the order of the outer one,
  over a map, is the order of the association list. The clock is read once per pass.
\<close>

definition hedge_targets :: "(string \<times> DepthDetail list) list \<Rightarrow> (string \<times> DepthDetail \<times> SignalPath) list" where
  "hedge_targets dds =
     concat (map (\<lambda>(subject, depthDetails).
       concat (map (\<lambda>itemDetail. map (\<lambda>item. (subject, itemDetail, item)) (dd_Path itemDetail))
         depthDetails)) dds)"

definition hedge_expect :: "(nat \<Rightarrow> int64) \<Rightarrow> Signal \<Rightarrow> OrderHedge list go" where
  "hedge_expect nowMilli signal =
     go_map (\<lambda>(i, t). order_hedge signal (nowMilli i) t)
       (List.enumerate 0 (hedge_targets (sg_DepthDetails signal)))"

definition trade_request ::
    "proto_consts \<Rightarrow> (nat \<Rightarrow> int64) \<Rightarrow> Signal \<Rightarrow> int \<Rightarrow> TradingReqInfoWAP go" where
  "trade_request pc nowMilli signal newGasPrice =
     (let tokens = go_split CHR ''_'' (sg_Symbol signal) in
      go_bind (go_index tokens 0) (\<lambda>token.
      go_bind (go_index tokens 1) (\<lambda>quote.
      go_bind (hedge_expect nowMilli signal) (\<lambda>hedgeExpect.
        Inr \<lparr> tq_ProjectId = ''avalanche_v1'',
              tq_ReqNo = sg_RegistId signal,
              tq_Hedge = sg_HedgeId signal,
              tq_TradeType = TradeType_TAKER pc,
              tq_TradeSide = trade_side (sg_Side signal),
              tq_PriceExpect = sg_PriceExpect signal,
              tq_Token = go_upper token,
              tq_Quote = go_lower quote,
              tq_Amount = sg_AmountArb signal,
              tq_ExchangeId = Exchange_AVALANCHE_DEX pc,
              tq_ExchangeAddr = bt_To (sg_BuildTx signal),
              tq_AccountId = ''avalanche'',
              tq_Market = Market_SPOT pc,
              tq_Type = OrderSysType_TRADE_DEX pc,
              tq_Contract = SymbolType_SPOT_NORMAL pc,
              tq_Dex = dex_info pc signal newGasPrice,
              tq_HedgeExpect = hedgeExpect \<rparr>))))"

section \<open>The request as a function\<close>

text \<open>
  The order a triple gives when its symbol has a slash, and the outcome of the whole
  construction: it panics exactly when the signal's symbol lacks an underscore or a
  path item's symbol lacks a slash.
\<close>

definition hedge_of :: "Signal \<Rightarrow> int64 \<Rightarrow> string \<times> DepthDetail \<times> SignalPath \<Rightarrow> OrderHedge" where
  "hedge_of signal now t =
     (case t of (subject, d, item) \<Rightarrow>
        \<lparr> oh_Side = hedge_side signal subject item, oh_PriceExpected = sp_PriceAvg item,
          oh_Amount = dd_ConsumeRatio d * dd_AmountSum d, oh_ExpiredTimeMs = 15000 + now,
          oh_Exchange = ucast (sp_Exchange item), oh_AccountId = ''ptneurm1'',
          oh_Market = ucast (sp_Market item), oh_Type = ucast (sp_SymbolType item),
          oh_Token = split_head CHR ''/'' (sp_Symbol item),
          oh_Quote = split_second CHR ''/'' (sp_Symbol item) \<rparr>)"

definition has_slash :: "string \<times> DepthDetail \<times> SignalPath \<Rightarrow> bool" where
  "has_slash t \<longleftrightarrow> CHR ''/'' \<in> set (sp_Symbol (snd (snd t)))"

definition tradable :: "Signal \<Rightarrow> bool" where
  "tradable signal \<longleftrightarrow> CHR ''_'' \<in> set (sg_Symbol signal) \<and>
     list_all has_slash (hedge_targets (sg_DepthDetails signal))"

definition hedges_of :: "(nat \<Rightarrow> int64) \<Rightarrow> Signal \<Rightarrow> OrderHedge list" where
  "hedges_of nowMilli signal =
     map (\<lambda>(i, t). hedge_of signal (nowMilli i) t)
       (List.enumerate 0 (hedge_targets (sg_DepthDetails signal)))"

lemma order_hedge_eq:
  "order_hedge sg now t = (if has_slash t then Inr (hedge_of sg now t) else Inl IndexOutOfRange)"
  by (cases t) (simp add: order_hedge_def Let_def go_index_split_1 has_slash_def hedge_of_def)

lemma set_enumerate_snd: "(\<forall>x \<in> set (List.enumerate n xs). P (snd x)) \<longleftrightarrow> list_all P xs"
  by (induction xs arbitrary: n) auto

lemma hedge_expect_eq:
  "hedge_expect nowMilli sg =
     (if list_all has_slash (hedge_targets (sg_DepthDetails sg))
      then Inr (hedges_of nowMilli sg) else Inl IndexOutOfRange)"
proof -
  have "hedge_expect nowMilli sg =
    (if \<forall>x \<in> set (List.enumerate 0 (hedge_targets (sg_DepthDetails sg))). has_slash (snd x)
     then Inr (hedges_of nowMilli sg) else Inl IndexOutOfRange)"
    unfolding hedge_expect_def hedges_of_def
    by (rule go_map_uniform) (simp add: order_hedge_eq split: prod.splits)
  then show ?thesis by (simp add: set_enumerate_snd)
qed

definition request_of ::
    "proto_consts \<Rightarrow> (nat \<Rightarrow> int64) \<Rightarrow> Signal \<Rightarrow> int \<Rightarrow> TradingReqInfoWAP" where
  "request_of pc nowMilli sg g =
     \<lparr> tq_ProjectId = ''avalanche_v1'', tq_ReqNo = sg_RegistId sg, tq_Hedge = sg_HedgeId sg,
       tq_TradeType = TradeType_TAKER pc, tq_TradeSide = trade_side (sg_Side sg),
       tq_PriceExpect = sg_PriceExpect sg,
       tq_Token = go_upper (split_head CHR ''_'' (sg_Symbol sg)),
       tq_Quote = go_lower (split_second CHR ''_'' (sg_Symbol sg)),
       tq_Amount = sg_AmountArb sg, tq_ExchangeId = Exchange_AVALANCHE_DEX pc,
       tq_ExchangeAddr = bt_To (sg_BuildTx sg), tq_AccountId = ''avalanche'',
       tq_Market = Market_SPOT pc, tq_Type = OrderSysType_TRADE_DEX pc,
       tq_Contract = SymbolType_SPOT_NORMAL pc, tq_Dex = dex_info pc sg g,
       tq_HedgeExpect = hedges_of nowMilli sg \<rparr>"

lemma trade_request_eq:
  "trade_request pc nowMilli sg g =
     (if tradable sg then Inr (request_of pc nowMilli sg g) else Inl IndexOutOfRange)"
  by (simp add: trade_request_def Let_def go_index_split_1 hedge_expect_eq tradable_def request_of_def)

section \<open>Counting and order of the hedges\<close>

lemma length_hedge_targets:
  "length (hedge_targets dds) =
     sum_list (map (\<lambda>(subject, ds). sum_list (map (\<lambda>d. length (dd_Path d)) ds)) dds)"
  by (simp add: hedge_targets_def length_concat comp_def split_def)

lemma length_hedges_of: "length (hedges_of nowMilli sg) = length (hedge_targets (sg_DepthDetails sg))"
  by (simp add: hedges_of_def)

lemma hedge_targets_Cons:
  "hedge_targets ((subject, ds) # dds) =
     concat (map (\<lambda>d. map (\<lambda>item. (subject, d, item)) (dd_Path d)) ds) @ hedge_targets dds"
  by (simp add: hedge_targets_def)

lemma detail_targets_iff:
  "(s, d, p) \<in> set (concat (map (\<lambda>d. map (\<lambda>item. (subject, d, item)) (dd_Path d)) ds)) \<longleftrightarrow>
     s = subject \<and> d \<in> set ds \<and> p \<in> set (dd_Path d)"
  by (induction ds) auto

lemma hedge_targets_iff:
  "(subject, d, p) \<in> set (hedge_targets dds) \<longleftrightarrow>
     (\<exists>ds. (subject, ds) \<in> set dds \<and> d \<in> set ds \<and> p \<in> set (dd_Path d))"
proof (induction dds)
  case Nil
  show ?case by (simp add: hedge_targets_def)
next
  case (Cons a dds)
  obtain s ds where a: "a = (s, ds)" by (cases a)
  show ?case
    unfolding a hedge_targets_Cons set_append Un_iff detail_targets_iff Cons.IH by auto
qed

lemma mset_hedge_targets:
  "mset dds = mset dds' \<Longrightarrow> mset (hedge_targets dds) = mset (hedge_targets dds')"
proof -
  assume "mset dds = mset dds'"
  then have "mset (map f dds) = mset (map f dds')" for f :: "_ \<Rightarrow> (string \<times> DepthDetail \<times> SignalPath) multiset"
    by (metis mset_map)
  then have "sum_list (map f dds) = sum_list (map f dds')" for f :: "_ \<Rightarrow> (string \<times> DepthDetail \<times> SignalPath) multiset"
    by (metis sum_mset_sum_list)
  then show ?thesis by (simp add: hedge_targets_def mset_concat comp_def)
qed

lemma tradable_cong:
  assumes "mset (sg_DepthDetails sg) = mset dds"
  shows "tradable (sg\<lparr>sg_DepthDetails := dds\<rparr>) \<longleftrightarrow> tradable sg"
proof -
  have "set (hedge_targets dds) = set (hedge_targets (sg_DepthDetails sg))"
    using mset_hedge_targets [OF assms] by (metis set_mset_mset)
  then show ?thesis by (simp add: tradable_def list_all_iff)
qed

lemma hedge_of_cong: "hedge_of (sg\<lparr>sg_DepthDetails := dds\<rparr>) = hedge_of sg"
  by (intro ext) (simp add: hedge_of_def hedge_side_def)

text \<open>With a clock that stands still during one trade only the order of the hedges varies.\<close>

lemma hedges_of_const:
  "hedges_of (\<lambda>_. t) sg = map (hedge_of sg t) (hedge_targets (sg_DepthDetails sg))"
proof -
  have "hedges_of (\<lambda>_. t) sg = map (hedge_of sg t) (map snd (List.enumerate 0 (hedge_targets (sg_DepthDetails sg))))"
    by (simp add: hedges_of_def comp_def split_def del: map_snd_enumerate)
  then show ?thesis by simp
qed

lemma mset_hedges_of:
  assumes "mset (sg_DepthDetails sg) = mset dds"
  shows "mset (hedges_of (\<lambda>_. t) (sg\<lparr>sg_DepthDetails := dds\<rparr>)) = mset (hedges_of (\<lambda>_. t) sg)"
  using mset_hedge_targets [OF assms] by (simp add: hedges_of_const hedge_of_cong)

end
