(* ===== verification/Node_Mgr.thy ===== *)
theory Node_Mgr
  imports Sliding_Window Call_Decoder Router_Decoder Trade
begin

text \<open>
  \<open>NodeMgr\<close> of \<open>core/node_mgr.go\<close>: its state, the handlers of its two loops
  (\<open>GasPriceAnalyse\<close> and \<open>SubGethBlockHeader\<close>) and the functions they call. A handler
  returns the state and, when it panics, the panic; what it changed before the panic stays
  changed. Reading the chain, the clock and the ABI, publishing, and turning a document's
  text into a JSON tree are arguments, gathered in the record \<open>tx_env\<close>. \<open>nm_Outbox\<close> and
  \<open>nm_Cancels\<close> record the messages handed to the publisher and the calls of \<open>CancelTx\<close>.
\<close>

section \<open>State\<close>

record Header =
  bh_Number :: int
  bh_Time :: uint64

record ('tx, 'v) NodeMgr =
  nm_RouterMap :: "string \<rightharpoonup> string"
  nm_EnemiesMap :: "string \<rightharpoonup> bool"
  nm_PendingTxList :: "'tx list"
  nm_HeaderWsList :: "Header list"
  nm_Signals :: "Signal list"
  nm_rDecoder :: "'v RouterDecoder option"
  nm_PairSymbolMap :: "string \<rightharpoonup> string"
  nm_Outbox :: "(string \<times> TradingReqInfoWAP) list"
  nm_Cancels :: nat
  nm_WsCloses :: nat

record ('tx, 'v) tx_env =
  te_marshal :: "'tx \<Rightarrow> bytes"
  te_sender :: "'tx \<Rightarrow> string"
  te_gas_price :: "'tx \<Rightarrow> int"
  te_router :: "'v router_lib"
  te_rpc :: call_rpc
  te_second :: "nat \<Rightarrow> int64"
  te_milli :: "nat \<Rightarrow> int64"
  te_oob :: "f64 \<Rightarrow> int64"
  te_consts :: proto_consts
  te_publish :: "string \<Rightarrow> TradingReqInfoWAP \<Rightarrow> bool"

type_synonym 'm outcome = "'m \<times> go_panic option"

definition DATA_ORDER_TOOL :: string where
  "DATA_ORDER_TOOL = ''ter.{{Exchange}}.{{AccountId}}.{{ProjectId}}''"

section \<open>Choosing a signal and a block\<close>

text \<open>
  \<open>GetLastSignalBySymbol\<close>: the loop runs from the newest signal to the oldest and
  assigns the named result in every pass, whether the symbol matches or not.
\<close>

fun last_signal_loop :: "Signal \<Rightarrow> Signal list \<Rightarrow> string \<Rightarrow> Signal" where
  "last_signal_loop signal [] symbol = signal"
| "last_signal_loop signal (s # older) symbol =
     (if sg_Symbol s = symbol then s else last_signal_loop s older symbol)"

definition GetLastSignalBySymbol :: "Signal list \<Rightarrow> string \<Rightarrow> Signal" where
  "GetLastSignalBySymbol signals symbol = last_signal_loop zero_Signal (rev signals) symbol"

text \<open>
  \<open>GetPendingBlockNum\<close>: \<open>timeNow\<close> is what \<open>time.Now().Second()\<close> reads. The
  conversion of the block's time to \<open>int64\<close> keeps its bits.
\<close>

definition GetPendingBlockNum :: "Header list \<Rightarrow> int64 \<Rightarrow> int64 go" where
  "GetPendingBlockNum headers timeNow =
     go_bind (go_last headers) (\<lambda>lastPendingBlock.
       if 2 <s timeNow - bh_Time lastPendingBlock then Inr 0
       else Inr (big_Int64 (bh_Number lastPendingBlock) + 1))"

section \<open>\<open>Trade\<close>, \<open>RebuildTx\<close> and \<open>CancelTx\<close>\<close>

definition Trade ::
    "('tx, 'v) tx_env \<Rightarrow> Signal \<Rightarrow> int \<Rightarrow> ('tx, 'v) NodeMgr \<Rightarrow> ('tx, 'v) NodeMgr outcome" where
  "Trade env signal newGasPrice n =
     (case trade_request (te_consts env) (te_milli env) signal newGasPrice of
        Inl p \<Rightarrow> (n, Some p)
      | Inr ter \<Rightarrow>
          if te_publish env DATA_ORDER_TOOL ter
          then (n\<lparr>nm_Outbox := nm_Outbox n @ [(DATA_ORDER_TOOL, ter)]\<rparr>, None)
          else (n, None))"

text \<open>\<open>big.NewInt(int64(curSignal.BaseGasPrice * math.Pow(10, 9)))\<close>.\<close>

definition base_gas_price :: "(f64 \<Rightarrow> int64) \<Rightarrow> Signal \<Rightarrow> int" where
  "base_gas_price oob signal = sint (f64_to_int64 oob (sg_BaseGasPrice signal * f64_of_nat 1000000000))"

definition rebuild_gas_price :: "(f64 \<Rightarrow> int64) \<Rightarrow> Signal \<Rightarrow> int \<Rightarrow> int" where
  "rebuild_gas_price oob signal txGasPrice = 1 + txGasPrice - base_gas_price oob signal"

text \<open>The log line before the check reads the pending block number for the first time.\<close>

definition RebuildTx ::
    "('tx, 'v) tx_env \<Rightarrow> string list \<Rightarrow> int \<Rightarrow> ('tx, 'v) NodeMgr \<Rightarrow> ('tx, 'v) NodeMgr outcome" where
  "RebuildTx env symbolList txGasPrice n =
     (case go_index symbolList 0 of
        Inl p \<Rightarrow> (n, Some p)
      | Inr symbol \<Rightarrow>
          let curSignal = GetLastSignalBySymbol (nm_Signals n) symbol in
          (case GetPendingBlockNum (nm_HeaderWsList n) (te_second env 0) of
             Inl p \<Rightarrow> (n, Some p)
           | Inr _ \<Rightarrow>
               (case GetPendingBlockNum (nm_HeaderWsList n) (te_second env 1) of
                  Inl p \<Rightarrow> (n, Some p)
                | Inr pendingBlockNum \<Rightarrow>
                    if pendingBlockNum \<le>s sg_TradeBlockNum curSignal
                    then Trade env curSignal (rebuild_gas_price (te_oob env) curSignal txGasPrice) n
                    else (n, None))))"

definition CancelTx :: "('tx, 'v) NodeMgr \<Rightarrow> ('tx, 'v) NodeMgr outcome" where
  "CancelTx n = (n\<lparr>nm_Cancels := Suc (nm_Cancels n)\<rparr>, None)"

section \<open>The handlers of \<open>GasPriceAnalyse\<close>\<close>

text \<open>What follows the decoding of a transaction.\<close>

definition after_decode ::
    "('tx, 'v) tx_env \<Rightarrow> 'tx \<Rightarrow> string list \<times> bool \<Rightarrow> ('tx, 'v) NodeMgr \<Rightarrow> ('tx, 'v) NodeMgr outcome" where
  "after_decode env tx d n =
     (case react (nm_Signals n \<noteq> []) d of
        Ignore \<Rightarrow> (n, None)
      | Cancel \<Rightarrow> CancelTx n
      | Rebuild symbolList \<Rightarrow> RebuildTx env symbolList (te_gas_price env tx) n)"

text \<open>A transaction to a competitor's contract.\<close>

definition enemy_tx ::
    "('tx, 'v) tx_env \<Rightarrow> 'tx \<Rightarrow> PendingTx \<Rightarrow> ('tx, 'v) NodeMgr \<Rightarrow> ('tx, 'v) NodeMgr outcome" where
  "enemy_tx env tx pendingTx n =
     (let n' = n\<lparr>nm_PendingTxList := window_push (nm_PendingTxList n) tx\<rparr> in
      case go_last (nm_HeaderWsList n') of
        Inl p \<Rightarrow> (n', Some p)
      | Inr latestBlock \<Rightarrow>
          after_decode env tx (Call_DecodeToSymbol (te_rpc env) (nm_PairSymbolMap n') pendingTx) n')"

definition handle_tx ::
    "('tx, 'v) tx_env \<Rightarrow> 'tx option \<Rightarrow> ('tx, 'v) NodeMgr \<Rightarrow> ('tx, 'v) NodeMgr outcome" where
  "handle_tx env otx n =
     (case otx of
        None \<Rightarrow> (n, Some NilDereference)
      | Some tx \<Rightarrow>
          (case Option.bind (json_parse (te_marshal env tx)) unmarshal_PendingTx of
             None \<Rightarrow> (n, None)
           | Some px \<Rightarrow>
               let pendingTx = px\<lparr>px_From := te_sender env tx\<rparr>; toAddress = px_To pendingTx in
               (case nm_RouterMap n toAddress of
                  Some dexName \<Rightarrow>
                    (case Router_DecodeToSymbol (te_router env) (nm_rDecoder n) dexName pendingTx of
                       Inl p \<Rightarrow> (n, Some p)
                     | Inr symbolList \<Rightarrow> after_decode env tx (symbolList, False) n)
                | None \<Rightarrow>
                    if map_get False (nm_EnemiesMap n) toAddress
                    then enemy_tx env tx pendingTx n
                    else after_decode env tx ([], False) n)))"

definition handle_signal ::
    "('tx, 'v) tx_env \<Rightarrow> string \<Rightarrow> ('tx, 'v) NodeMgr \<Rightarrow> ('tx, 'v) NodeMgr outcome" where
  "handle_signal env data n =
     (case Option.bind (json_parse data) unmarshal_Signal of
        None \<Rightarrow> (n, None)
      | Some signal \<Rightarrow>
          let n' = n\<lparr>nm_Signals := window_push (nm_Signals n) signal\<rparr> in
          if nm_PendingTxList n' \<noteq> []
          then (case GetPendingBlockNum (nm_HeaderWsList n') (te_second env 0) of
                  Inl p \<Rightarrow> (n', Some p)
                | Inr _ \<Rightarrow> (n', None))
          else (n', None))"

section \<open>The handler of \<open>SubGethBlockHeader\<close>, and the cancelled context\<close>

definition handle_head :: "Header option \<Rightarrow> ('tx, 'v) NodeMgr \<Rightarrow> ('tx, 'v) NodeMgr outcome" where
  "handle_head newHead n =
     (case newHead of
        None \<Rightarrow> (n, Some NilDereference)
      | Some h \<Rightarrow>
          if big_Int64 (bh_Number h) = 0 then (n, None)
          else (n\<lparr>nm_HeaderWsList := window_push (nm_HeaderWsList n) h\<rparr>, None))"

text \<open>
  Both loops answer a cancelled context by closing the connection and going on.
\<close>

definition handle_done :: "('tx, 'v) NodeMgr \<Rightarrow> ('tx, 'v) NodeMgr outcome" where
  "handle_done n = (n\<lparr>nm_WsCloses := Suc (nm_WsCloses n)\<rparr>, None)"

section \<open>\<open>GetLastSignalBySymbol\<close>\<close>

lemma last_signal_loop_eq:
  "last_signal_loop s ss symbol =
     (case find (\<lambda>s. sg_Symbol s = symbol) ss of Some t \<Rightarrow> t | None \<Rightarrow> last (s # ss))"
  by (induction ss arbitrary: s) (auto split: option.splits)

lemma GetLast_found:
  "find (\<lambda>s. sg_Symbol s = symbol) (rev signals) = Some s \<Longrightarrow> GetLastSignalBySymbol signals symbol = s"
  by (simp add: GetLastSignalBySymbol_def last_signal_loop_eq)

lemma GetLast_not_found:
  "signals \<noteq> [] \<Longrightarrow> find (\<lambda>s. sg_Symbol s = symbol) (rev signals) = None \<Longrightarrow>
     GetLastSignalBySymbol signals symbol = hd signals"
  by (simp add: GetLastSignalBySymbol_def last_signal_loop_eq last_rev)

lemma GetLast_in: "signals \<noteq> [] \<Longrightarrow> GetLastSignalBySymbol signals symbol \<in> set signals"
proof (cases "find (\<lambda>s. sg_Symbol s = symbol) (rev signals)")
  case None
  then show "signals \<noteq> [] \<Longrightarrow> ?thesis" by (simp add: GetLast_not_found)
next
  case (Some s)
  then show ?thesis
    by (simp add: GetLast_found) (metis find_Some_iff nth_mem set_rev)
qed

section \<open>Panics and effects\<close>

lemma GetPendingBlockNum_cases:
  "GetPendingBlockNum hs t =
     (if hs = [] then Inl IndexOutOfRange
      else Inr (if 2 <s t - bh_Time (last hs) then 0 else big_Int64 (bh_Number (last hs)) + 1))"
  by (cases hs rule: rev_cases) (simp_all add: GetPendingBlockNum_def)

lemma Trade_cases:
  "Trade env sg g n =
     (if \<not> tradable sg then (n, Some IndexOutOfRange)
      else if te_publish env DATA_ORDER_TOOL (request_of (te_consts env) (te_milli env) sg g)
      then (n\<lparr>nm_Outbox := nm_Outbox n @
              [(DATA_ORDER_TOOL, request_of (te_consts env) (te_milli env) sg g)]\<rparr>, None)
      else (n, None))"
  by (simp add: Trade_def trade_request_eq)

text \<open>
  When a rebuild goes ahead: the block check of \<open>RebuildTx\<close> with the second reading of
  the clock.
\<close>

definition rebuild_allowed :: "('tx, 'v) tx_env \<Rightarrow> ('tx, 'v) NodeMgr \<Rightarrow> Signal \<Rightarrow> bool" where
  "rebuild_allowed env n sg \<longleftrightarrow>
     (if 2 <s te_second env 1 - bh_Time (last (nm_HeaderWsList n)) then 0
      else big_Int64 (bh_Number (last (nm_HeaderWsList n))) + 1) \<le>s sg_TradeBlockNum sg"

lemma RebuildTx_cases:
  assumes "symbols \<noteq> []"
  shows "RebuildTx env symbols g n =
     (if nm_HeaderWsList n = [] then (n, Some IndexOutOfRange)
      else let sg = GetLastSignalBySymbol (nm_Signals n) (hd symbols) in
        if rebuild_allowed env n sg then Trade env sg (rebuild_gas_price (te_oob env) sg g) n
        else (n, None))"
  using assms by (cases symbols) (simp_all add: RebuildTx_def go_index_def GetPendingBlockNum_cases rebuild_allowed_def Let_def)

text \<open>The fields each step may change.\<close>

lemma Trade_frame:
  "fst (Trade env sg g n) = n\<lparr>nm_Outbox := nm_Outbox (fst (Trade env sg g n))\<rparr>"
  by (simp add: Trade_cases)

lemma RebuildTx_frame:
  "fst (RebuildTx env ss g n) = n\<lparr>nm_Outbox := nm_Outbox (fst (RebuildTx env ss g n))\<rparr>"
  by (cases ss) (auto simp: RebuildTx_cases RebuildTx_def[of _ "[]"] go_index_def Let_def Trade_frame [symmetric])

text \<open>A handled transaction cancels nothing and changes only its log and the outbox.\<close>

lemma after_decode_no_cancel:
  "react (nm_Signals n \<noteq> []) d \<noteq> Cancel \<Longrightarrow>
     fst (after_decode env tx d n) = n\<lparr>nm_Outbox := nm_Outbox (fst (after_decode env tx d n))\<rparr>"
  by (auto simp: after_decode_def RebuildTx_frame [symmetric] split: reaction.splits)

lemma router_silent: "react h (syms, False) \<noteq> Cancel"
  by (simp add: react_def)

lemma call_silent: "react h (Call_DecodeToSymbol rpc m tx) \<noteq> Cancel"
  using call_dec.never_cancels [of "(rpc, m, tx)"] by (simp add: call_decode_def)

lemma enemy_tx_frame:
  "\<exists>txs ob. fst (enemy_tx env tx px n) = n\<lparr>nm_PendingTxList := txs, nm_Outbox := ob\<rparr>"
proof (cases "nm_HeaderWsList n = []")
  case True
  then show ?thesis
    by (auto simp: enemy_tx_def Let_def
        intro!: exI [of _ "window_push (nm_PendingTxList n) tx"] exI [of _ "nm_Outbox n"])
next
  case False
  let ?n = "n\<lparr>nm_PendingTxList := window_push (nm_PendingTxList n) tx\<rparr>"
  let ?d = "Call_DecodeToSymbol (te_rpc env) (nm_PairSymbolMap n) px"
  have "fst (enemy_tx env tx px n) = fst (after_decode env tx ?d ?n)"
    using False by (simp add: enemy_tx_def Let_def go_last_nonempty)
  also have "\<dots> = ?n\<lparr>nm_Outbox := nm_Outbox (fst (after_decode env tx ?d ?n))\<rparr>"
    by (rule after_decode_no_cancel) (simp add: call_silent)
  finally show ?thesis by blast
qed

lemma handle_tx_frame:
  "\<exists>txs ob. fst (handle_tx env otx n) = n\<lparr>nm_PendingTxList := txs, nm_Outbox := ob\<rparr>"
proof -
  have id: "\<exists>txs ob. n = n\<lparr>nm_PendingTxList := txs, nm_Outbox := ob\<rparr>"
    by (intro exI [of _ "nm_PendingTxList n"] exI [of _ "nm_Outbox n"]) simp
  have ad: "\<exists>txs ob. fst (after_decode env tx (syms, False) n) = n\<lparr>nm_PendingTxList := txs, nm_Outbox := ob\<rparr>"
    for tx syms
    by (subst after_decode_no_cancel [OF router_silent])
      (auto intro!: exI [of _ "nm_PendingTxList n"])
  show ?thesis
    unfolding handle_tx_def Let_def
    by (auto split: option.splits sum.splits intro: id ad enemy_tx_frame)
qed

text \<open>The message, if any, a decoded transaction adds to the outbox.\<close>

definition order_for ::
    "('tx, 'v) tx_env \<Rightarrow> Signal \<Rightarrow> int \<Rightarrow> string \<times> TradingReqInfoWAP" where
  "order_for env sg gas =
     (DATA_ORDER_TOOL,
      request_of (te_consts env) (te_milli env) sg (rebuild_gas_price (te_oob env) sg gas))"

definition may_order ::
    "('tx, 'v) tx_env \<Rightarrow> ('tx, 'v) NodeMgr \<Rightarrow> string list \<times> bool \<Rightarrow> Signal \<Rightarrow> bool" where
  "may_order env n d sg \<longleftrightarrow>
     nm_Signals n \<noteq> [] \<and> fst d \<noteq> [] \<and> \<not> snd d \<and> sg = GetLastSignalBySymbol (nm_Signals n) (hd (fst d)) \<and>
     nm_HeaderWsList n \<noteq> [] \<and> rebuild_allowed env n sg \<and> tradable sg"

lemma after_decode_outbox:
  assumes "react (nm_Signals n \<noteq> []) d \<noteq> Cancel"
  shows "nm_Outbox (fst (after_decode env tx d n)) =
    (if may_order env n d (GetLastSignalBySymbol (nm_Signals n) (hd (fst d))) \<and>
        te_publish env DATA_ORDER_TOOL (snd (order_for env (GetLastSignalBySymbol (nm_Signals n) (hd (fst d))) (te_gas_price env tx)))
     then nm_Outbox n @ [order_for env (GetLastSignalBySymbol (nm_Signals n) (hd (fst d))) (te_gas_price env tx)]
     else nm_Outbox n)"
  using assms
  by (cases d) (auto simp: after_decode_def react_def may_order_def order_for_def RebuildTx_cases
      Trade_cases Let_def)

end
