(* ===== verification/Mgr_System.thy ===== *)
theory Mgr_System
  imports Node_Mgr
begin

text \<open>
  The two loops of \<open>NodeMgr\<close> running side by side. A loop that panics recovers, sleeps
  and starts itself again; while it recovers it takes no event. A step is one event taken
  by one loop, with the environment it meets; \<open>sys_run\<close> is a finite execution. The loops
  share the manager without a lock; the model takes each handler as one step.
\<close>

datatype loop = Running | Recovering

datatype 'tx event =
    TxArrived "'tx option"
  | SignalArrived string
  | HeadArrived "Header option"
  | GaDone
  | ShDone
  | GaRestart
  | ShRestart

record ('tx, 'v) sys =
  sy_mgr :: "('tx, 'v) NodeMgr"
  sy_ga :: loop
  sy_sh :: loop

definition loop_after :: "go_panic option \<Rightarrow> loop" where
  "loop_after r = (case r of None \<Rightarrow> Running | Some _ \<Rightarrow> Recovering)"

definition ga_outcome :: "('tx, 'v) sys \<Rightarrow> ('tx, 'v) NodeMgr outcome \<Rightarrow> ('tx, 'v) sys" where
  "ga_outcome s o1 = s\<lparr>sy_mgr := fst o1, sy_ga := loop_after (snd o1)\<rparr>"

definition sh_outcome :: "('tx, 'v) sys \<Rightarrow> ('tx, 'v) NodeMgr outcome \<Rightarrow> ('tx, 'v) sys" where
  "sh_outcome s o1 = s\<lparr>sy_mgr := fst o1, sy_sh := loop_after (snd o1)\<rparr>"

inductive sys_step ::
    "('tx, 'v) sys \<Rightarrow> ('tx, 'v) tx_env \<times> 'tx event \<Rightarrow> ('tx, 'v) sys \<Rightarrow> bool" where
  ga_tx: "sy_ga s = Running \<Longrightarrow>
     sys_step s (env, TxArrived otx) (ga_outcome s (handle_tx env otx (sy_mgr s)))"
| ga_signal: "sy_ga s = Running \<Longrightarrow>
     sys_step s (env, SignalArrived data) (ga_outcome s (handle_signal env data (sy_mgr s)))"
| ga_done: "sy_ga s = Running \<Longrightarrow>
     sys_step s (env, GaDone) (ga_outcome s (handle_done (sy_mgr s)))"
| ga_restart: "sy_ga s = Recovering \<Longrightarrow> sys_step s (env, GaRestart) (s\<lparr>sy_ga := Running\<rparr>)"
| sh_head: "sy_sh s = Running \<Longrightarrow>
     sys_step s (env, HeadArrived oh) (sh_outcome s (handle_head oh (sy_mgr s)))"
| sh_done: "sy_sh s = Running \<Longrightarrow>
     sys_step s (env, ShDone) (sh_outcome s (handle_done (sy_mgr s)))"
| sh_restart: "sy_sh s = Recovering \<Longrightarrow> sys_step s (env, ShRestart) (s\<lparr>sy_sh := Running\<rparr>)"

inductive_simps sys_step_tx: "sys_step s (env, TxArrived otx) t"
inductive_simps sys_step_signal: "sys_step s (env, SignalArrived data) t"
inductive_simps sys_step_head: "sys_step s (env, HeadArrived oh) t"
inductive_simps sys_step_ga_done: "sys_step s (env, GaDone) t"
inductive_simps sys_step_sh_done: "sys_step s (env, ShDone) t"
inductive_simps sys_step_ga_restart: "sys_step s (env, GaRestart) t"
inductive_simps sys_step_sh_restart: "sys_step s (env, ShRestart) t"

lemmas sys_step_simps = sys_step_tx sys_step_signal sys_step_head sys_step_ga_done
  sys_step_sh_done sys_step_ga_restart sys_step_sh_restart

inductive sys_run ::
    "('tx, 'v) sys \<Rightarrow> (('tx, 'v) tx_env \<times> 'tx event) list \<Rightarrow> ('tx, 'v) sys \<Rightarrow> bool" where
  run_refl: "sys_run s [] s"
| run_snoc: "sys_run s tr t \<Longrightarrow> sys_step t e u \<Longrightarrow> sys_run s (tr @ [e]) u"

lemma sys_step_deterministic: "sys_step s e t \<Longrightarrow> sys_step s e u \<Longrightarrow> t = u"
  by (cases e; cases "snd e") (auto simp: sys_step_simps)

lemma ga_outcome_simps [simp]:
  "sy_mgr (ga_outcome s o1) = fst o1" "sy_ga (ga_outcome s o1) = loop_after (snd o1)"
  "sy_sh (ga_outcome s o1) = sy_sh s"
  by (simp_all add: ga_outcome_def)

lemma sh_outcome_simps [simp]:
  "sy_mgr (sh_outcome s o1) = fst o1" "sy_sh (sh_outcome s o1) = loop_after (snd o1)"
  "sy_ga (sh_outcome s o1) = sy_ga s"
  by (simp_all add: sh_outcome_def)

section \<open>What one step does to each log\<close>

definition accepted_signal :: "('tx, 'v) tx_env \<times> 'tx event \<Rightarrow> Signal option" where
  "accepted_signal e =
     (case e of (env, SignalArrived data) \<Rightarrow> Option.bind (json_parse data) unmarshal_Signal
      | _ \<Rightarrow> None)"

definition accepted_head :: "('tx, 'v) tx_env \<times> 'tx event \<Rightarrow> Header option" where
  "accepted_head e =
     (case e of
        (env, HeadArrived (Some h)) \<Rightarrow> if big_Int64 (bh_Number h) = 0 then None else Some h
      | _ \<Rightarrow> None)"

definition push_opt :: "'a list \<Rightarrow> 'a option \<Rightarrow> 'a list" where
  "push_opt xs ox = (case ox of None \<Rightarrow> xs | Some x \<Rightarrow> window_push xs x)"

lemma handle_tx_fields:
  "nm_Signals (fst (handle_tx env otx n)) = nm_Signals n"
  "nm_HeaderWsList (fst (handle_tx env otx n)) = nm_HeaderWsList n"
  "nm_Cancels (fst (handle_tx env otx n)) = nm_Cancels n"
  "nm_RouterMap (fst (handle_tx env otx n)) = nm_RouterMap n"
  "nm_EnemiesMap (fst (handle_tx env otx n)) = nm_EnemiesMap n"
  "nm_PairSymbolMap (fst (handle_tx env otx n)) = nm_PairSymbolMap n"
  "nm_rDecoder (fst (handle_tx env otx n)) = nm_rDecoder n"
  using handle_tx_frame [of env otx n] by auto

lemma handle_signal_frame:
  "fst (handle_signal env data n) =
     n\<lparr>nm_Signals := push_opt (nm_Signals n) (Option.bind (json_parse data) unmarshal_Signal)\<rparr>"
  by (auto simp: handle_signal_def push_opt_def Let_def split: option.splits sum.splits)

lemma handle_head_frame:
  "fst (handle_head oh n) =
     n\<lparr>nm_HeaderWsList := push_opt (nm_HeaderWsList n)
        (case oh of None \<Rightarrow> None | Some h \<Rightarrow> if big_Int64 (bh_Number h) = 0 then None else Some h)\<rparr>"
  by (auto simp: handle_head_def push_opt_def split: option.splits)

lemma handle_done_frame: "fst (handle_done n) = n\<lparr>nm_WsCloses := Suc (nm_WsCloses n)\<rparr>"
  by (simp add: handle_done_def)

lemmas handler_frames = handle_tx_fields handle_signal_frame handle_head_frame handle_done_frame

lemma step_Signals:
  "sys_step s e t \<Longrightarrow> nm_Signals (sy_mgr t) = push_opt (nm_Signals (sy_mgr s)) (accepted_signal e)"
  by (induction rule: sys_step.induct)
    (simp_all add: handler_frames accepted_signal_def push_opt_def)

lemma step_Headers:
  "sys_step s e t \<Longrightarrow> nm_HeaderWsList (sy_mgr t) = push_opt (nm_HeaderWsList (sy_mgr s)) (accepted_head e)"
  by (induction rule: sys_step.induct)
    (simp_all add: handler_frames accepted_head_def push_opt_def split: option.splits)

lemma step_Cancels: "sys_step s e t \<Longrightarrow> nm_Cancels (sy_mgr t) = nm_Cancels (sy_mgr s)"
  by (induction rule: sys_step.induct) (simp_all add: handler_frames)

lemma step_config:
  "sys_step s e t \<Longrightarrow>
     nm_RouterMap (sy_mgr t) = nm_RouterMap (sy_mgr s) \<and> nm_EnemiesMap (sy_mgr t) = nm_EnemiesMap (sy_mgr s) \<and>
     nm_PairSymbolMap (sy_mgr t) = nm_PairSymbolMap (sy_mgr s) \<and> nm_rDecoder (sy_mgr t) = nm_rDecoder (sy_mgr s)"
  by (induction rule: sys_step.induct) (simp_all add: handler_frames)

lemma handle_tx_PendingTxList:
  "nm_PendingTxList (fst (handle_tx env otx n)) = nm_PendingTxList n \<or>
   (\<exists>tx. otx = Some tx \<and> nm_PendingTxList (fst (handle_tx env otx n)) = window_push (nm_PendingTxList n) tx)"
proof -
  have ad: "nm_PendingTxList (fst (after_decode env tx (syms, False) n)) = nm_PendingTxList n" for tx syms
    by (subst after_decode_no_cancel [OF router_silent]) simp
  have en: "nm_PendingTxList (fst (enemy_tx env tx px n)) = window_push (nm_PendingTxList n) tx" for tx px
  proof (cases "nm_HeaderWsList n")
    case Nil
    then show ?thesis by (simp add: enemy_tx_def Let_def)
  next
    case (Cons h hs)
    then show ?thesis
      by (simp add: enemy_tx_def Let_def go_last_def, subst after_decode_no_cancel [OF call_silent]) simp
  qed
  show ?thesis
    unfolding handle_tx_def Let_def by (auto simp: ad en split: option.splits sum.splits)
qed

section \<open>Invariants of every execution\<close>

definition windows_bounded :: "('tx, 'v) NodeMgr \<Rightarrow> bool" where
  "windows_bounded n \<longleftrightarrow>
     length (nm_Signals n) \<le> 201 \<and> length (nm_HeaderWsList n) \<le> 201 \<and> length (nm_PendingTxList n) \<le> 201"

lemma push_opt_bounded: "length xs \<le> 201 \<Longrightarrow> length (push_opt xs ox) \<le> 201"
  by (cases ox) (simp_all add: push_opt_def window.push_cap)

lemma step_PendingTxList_bounded:
  "sys_step s e t \<Longrightarrow> length (nm_PendingTxList (sy_mgr s)) \<le> 201 \<Longrightarrow> length (nm_PendingTxList (sy_mgr t)) \<le> 201"
proof (induction rule: sys_step.induct)
  case (ga_tx s env otx)
  then show ?case
    using handle_tx_PendingTxList [of env otx "sy_mgr s"] by (auto simp: window.push_cap)
qed (simp_all add: handler_frames)

lemma step_windows_bounded:
  "sys_step s e t \<Longrightarrow> windows_bounded (sy_mgr s) \<Longrightarrow> windows_bounded (sy_mgr t)"
  by (auto simp: windows_bounded_def step_Signals step_Headers push_opt_bounded
      dest: step_PendingTxList_bounded)

lemma run_invariant:
  assumes "sys_run s tr t" and "P s" and "\<And>s e t. sys_step s e t \<Longrightarrow> P s \<Longrightarrow> P t"
  shows "P t"
  using assms by (induction rule: sys_run.induct) auto

lemma run_windows_bounded:
  "sys_run s tr t \<Longrightarrow> windows_bounded (sy_mgr s) \<Longrightarrow> windows_bounded (sy_mgr t)"
  by (rule run_invariant [where P = "\<lambda>s. windows_bounded (sy_mgr s)"]) (auto intro: step_windows_bounded)

lemma run_Cancels: "sys_run s tr t \<Longrightarrow> nm_Cancels (sy_mgr t) = nm_Cancels (sy_mgr s)"
  by (rule run_invariant [where P = "\<lambda>u. nm_Cancels (sy_mgr u) = nm_Cancels (sy_mgr s)"])
    (auto simp: step_Cancels)

text \<open>The logs are windows onto the histories of accepted signals and headers.\<close>

definition signal_history :: "(('tx, 'v) tx_env \<times> 'tx event) list \<Rightarrow> Signal list" where
  "signal_history tr = List.map_filter accepted_signal tr"

definition head_history :: "(('tx, 'v) tx_env \<times> 'tx event) list \<Rightarrow> Header list" where
  "head_history tr = List.map_filter accepted_head tr"

lemma map_filter_snoc:
  "List.map_filter f (xs @ [x]) = List.map_filter f xs @ (case f x of None \<Rightarrow> [] | Some y \<Rightarrow> [y])"
  by (simp add: List.map_filter_def split: option.splits)

lemma run_Signals:
  "sys_run s tr t \<Longrightarrow> nm_Signals (sy_mgr t) = foldl window_push (nm_Signals (sy_mgr s)) (signal_history tr)"
  by (induction rule: sys_run.induct)
    (auto simp: signal_history_def map_filter_snoc map_filter_simps step_Signals push_opt_def split: option.splits)

lemma run_Headers:
  "sys_run s tr t \<Longrightarrow> nm_HeaderWsList (sy_mgr t) = foldl window_push (nm_HeaderWsList (sy_mgr s)) (head_history tr)"
  by (induction rule: sys_run.induct)
    (auto simp: head_history_def map_filter_snoc map_filter_simps step_Headers push_opt_def split: option.splits)

section \<open>Where the orders come from\<close>

text \<open>
  The block check against the header \<open>h\<close>, and what justifies an order: a pending
  transaction, a received signal that can be traded, and a header of the history against
  which the signal's block passed the check.
\<close>

definition block_ok :: "('tx, 'v) tx_env \<Rightarrow> Header \<Rightarrow> Signal \<Rightarrow> bool" where
  "block_ok env h sg \<longleftrightarrow>
     (if 2 <s te_second env 1 - bh_Time h then 0 else big_Int64 (bh_Number h) + 1) \<le>s sg_TradeBlockNum sg"

lemma rebuild_allowed_block_ok: "rebuild_allowed env n sg \<longleftrightarrow> block_ok env (last (nm_HeaderWsList n)) sg"
  by (simp add: rebuild_allowed_def block_ok_def)

definition order_step ::
    "('tx, 'v) tx_env \<Rightarrow> 'tx option \<Rightarrow> ('tx, 'v) NodeMgr \<Rightarrow> (string \<times> TradingReqInfoWAP) \<Rightarrow> bool" where
  "order_step env otx n m \<longleftrightarrow>
     (\<exists>tx sg. otx = Some tx \<and> sg \<in> set (nm_Signals n) \<and> nm_HeaderWsList n \<noteq> [] \<and>
        block_ok env (last (nm_HeaderWsList n)) sg \<and> tradable sg \<and>
        te_publish env DATA_ORDER_TOOL (snd m) \<and> m = order_for env sg (te_gas_price env tx))"

lemma after_decode_orders:
  assumes "react (nm_Signals n \<noteq> []) d \<noteq> Cancel"
  shows "nm_Outbox (fst (after_decode env tx d n)) = nm_Outbox n \<or>
    (\<exists>m. nm_Outbox (fst (after_decode env tx d n)) = nm_Outbox n @ [m] \<and> order_step env (Some tx) n m)"
proof -
  let ?sg = "GetLastSignalBySymbol (nm_Signals n) (hd (fst d))"
  let ?m = "order_for env ?sg (te_gas_price env tx)"
  show ?thesis
  proof (cases "may_order env n d ?sg \<and> te_publish env DATA_ORDER_TOOL (snd ?m)")
    case True
    then have "order_step env (Some tx) n ?m"
      unfolding order_step_def may_order_def rebuild_allowed_block_ok using GetLast_in by blast
    moreover have "nm_Outbox (fst (after_decode env tx d n)) = nm_Outbox n @ [?m]"
      using True by (simp only: after_decode_outbox [OF assms] if_True simp_thms)
    ultimately show ?thesis by blast
  next
    case False
    then have "nm_Outbox (fst (after_decode env tx d n)) = nm_Outbox n"
      by (simp only: after_decode_outbox [OF assms] if_False simp_thms)
    then show ?thesis ..
  qed
qed

lemma order_step_pending [simp]:
  "order_step env otx (n\<lparr>nm_PendingTxList := txs\<rparr>) m \<longleftrightarrow> order_step env otx n m"
  by (simp add: order_step_def)

lemma enemy_tx_orders:
  "nm_Outbox (fst (enemy_tx env tx px n)) = nm_Outbox n \<or>
    (\<exists>m. nm_Outbox (fst (enemy_tx env tx px n)) = nm_Outbox n @ [m] \<and> order_step env (Some tx) n m)"
proof (cases "nm_HeaderWsList n = []")
  case True
  then show ?thesis by (simp add: enemy_tx_def Let_def)
next
  case False
  let ?n = "n\<lparr>nm_PendingTxList := window_push (nm_PendingTxList n) tx\<rparr>"
  let ?d = "Call_DecodeToSymbol (te_rpc env) (nm_PairSymbolMap n) px"
  have "nm_Outbox (fst (after_decode env tx ?d ?n)) = nm_Outbox ?n \<or>
    (\<exists>m. nm_Outbox (fst (after_decode env tx ?d ?n)) = nm_Outbox ?n @ [m] \<and> order_step env (Some tx) ?n m)"
    by (rule after_decode_orders) (rule call_silent)
  with False show ?thesis by (simp add: enemy_tx_def Let_def go_last_nonempty)
qed

lemma handle_tx_orders:
  "nm_Outbox (fst (handle_tx env otx n)) = nm_Outbox n \<or>
    (\<exists>m. nm_Outbox (fst (handle_tx env otx n)) = nm_Outbox n @ [m] \<and> order_step env otx n m)"
proof (cases otx)
  case None
  then show ?thesis by (simp add: handle_tx_def)
next
  case (Some tx)
  show ?thesis
    unfolding handle_tx_def Let_def Some
    using after_decode_orders [OF router_silent, where n = n and env = env and tx = tx] enemy_tx_orders [of env tx _ n]
    by (auto split: option.splits sum.splits)
qed

definition order_justified ::
    "(('tx, 'v) tx_env \<times> 'tx event) list \<Rightarrow> (string \<times> TradingReqInfoWAP) \<Rightarrow> bool" where
  "order_justified tr m \<longleftrightarrow>
     (\<exists>env tx sg h. (env, TxArrived (Some tx)) \<in> set tr \<and> sg \<in> set (signal_history tr) \<and>
        h \<in> set (head_history tr) \<and> block_ok env h sg \<and> tradable sg \<and>
        m = order_for env sg (te_gas_price env tx))"

lemma history_mono:
  "set (signal_history tr) \<subseteq> set (signal_history (tr @ [e]))"
  "set (head_history tr) \<subseteq> set (head_history (tr @ [e]))"
  by (auto simp: signal_history_def head_history_def map_filter_snoc)

lemma order_justified_mono: "order_justified tr m \<Longrightarrow> order_justified (tr @ [e]) m"
  unfolding order_justified_def using history_mono [of tr e] by (simp, blast)

lemma foldl_window_subset: "set (foldl window_push xs ys) \<subseteq> set xs \<union> set ys"
  by (induction ys rule: rev_induct) (use window.set_push in \<open>fastforce+\<close>)

lemma run_orders:
  assumes "sys_run s tr t" and "nm_Signals (sy_mgr s) = []" and "nm_HeaderWsList (sy_mgr s) = []"
    and "nm_Outbox (sy_mgr s) = []" and "m \<in> set (nm_Outbox (sy_mgr t))"
  shows "order_justified tr m"
  using assms
proof (induction arbitrary: m rule: sys_run.induct)
  case (run_refl s)
  then show ?case by simp
next
  case (run_snoc s tr t e u)
  show ?case
  proof (cases "m \<in> set (nm_Outbox (sy_mgr t))")
    case True
    then show ?thesis using run_snoc.IH run_snoc.prems by (blast intro: order_justified_mono)
  next
    case False
    from run_snoc.hyps(2) False run_snoc.prems(4)
    obtain env otx where e: "e = (env, TxArrived otx)" and m: "order_step env otx (sy_mgr t) m"
    proof (induction rule: sys_step.induct)
      case (ga_tx s env otx)
      then show ?case using handle_tx_orders [of env otx "sy_mgr s"] by auto
    qed (simp_all add: handler_frames)
    have sub: "set (nm_Signals (sy_mgr t)) \<subseteq> set (signal_history tr)"
      "set (nm_HeaderWsList (sy_mgr t)) \<subseteq> set (head_history tr)"
      using run_Signals [OF run_snoc.hyps(1)] run_Headers [OF run_snoc.hyps(1)] run_snoc.prems(1,2)
        foldl_window_subset [of "[]" "signal_history tr"] foldl_window_subset [of "[]" "head_history tr"]
      by simp_all
    from m obtain tx sg where o: "otx = Some tx" "sg \<in> set (nm_Signals (sy_mgr t))"
      "nm_HeaderWsList (sy_mgr t) \<noteq> []" "block_ok env (last (nm_HeaderWsList (sy_mgr t))) sg"
      "tradable sg" "m = order_for env sg (te_gas_price env tx)"
      unfolding order_step_def by blast
    have "sg \<in> set (signal_history (tr @ [e]))"
      using o(2) sub(1) history_mono(1) [of tr e] by blast
    moreover have "last (nm_HeaderWsList (sy_mgr t)) \<in> set (head_history (tr @ [e]))"
      using last_in_set [OF o(3)] sub(2) history_mono(2) [of tr e] by blast
    moreover have "(env, TxArrived (Some tx)) \<in> set (tr @ [e])" using e o(1) by simp
    ultimately show ?thesis unfolding order_justified_def using o(4-6) by blast
  qed
qed

section \<open>The loops survive every panic\<close>

text \<open>From every state one restart step, or none, makes a loop ready for its next event.\<close>

lemma ga_recovers:
  "\<exists>tr t. length tr \<le> 1 \<and> sys_run s tr t \<and> sy_ga t = Running \<and> sy_mgr t = sy_mgr s"
proof (cases "sy_ga s")
  case Running
  then show ?thesis by (intro exI [of _ "[]"] exI [of _ s]) (simp add: run_refl)
next
  case Recovering
  have "sys_run s ([] @ [(env, GaRestart)]) (s\<lparr>sy_ga := Running\<rparr>)" for env
    by (rule run_snoc [OF run_refl]) (rule ga_restart [OF Recovering])
  then show ?thesis
    by (intro exI [of _ "[(undefined, GaRestart)]"] exI [of _ "s\<lparr>sy_ga := Running\<rparr>"]) simp
qed

end
