(* ===== verification/Json_Print.thy ===== *)
theory Json_Print
  imports Json_Text
begin

text \<open>
  The encoder of \<open>encoding/json\<close> on whole documents, and the proof that the reader
  takes back what it writes: strings first, then numbers, then the tokens of a document
  and the containers the parser keeps open.
\<close>

section \<open>Strings\<close>

lemma code_simps [simp]: "code (char_of n) = n mod 256" "code c < 256"
  by (simp_all add: code_def)

text \<open>Whether a string starts with a code point depends on its first bytes only.\<close>

lemma rune_len_cases:
  assumes "0 < rune_len s"
  obtains a t bs where "s = a # t" "followers (code a) = Some bs"
    "list_all2 in_bounds bs (take (length bs) t)" "rune_len s = Suc (length bs)"
  using assms by (auto simp: rune_len_def split: list.splits option.splits if_splits)

lemma rune_len_bound: "rune_len s \<le> length s"
proof (cases "0 < rune_len s")
  case True
  then show ?thesis
    by (rule rune_len_cases) (auto dest: list_all2_lengthD)
qed simp

lemma rune_len_take:
  assumes "0 < rune_len s"
  shows "rune_len (take (rune_len s) s @ r) = rune_len s"
  using assms
proof (rule rune_len_cases)
  fix a t bs
  assume *: "s = a # t" "followers (code a) = Some bs"
    "list_all2 in_bounds bs (take (length bs) t)" "rune_len s = Suc (length bs)"
  then have "length bs \<le> length t" by (auto dest: list_all2_lengthD)
  with * show ?thesis by (simp add: rune_len_def)
qed

lemma followers_high: "followers a = Some bs \<Longrightarrow> b \<in> set bs \<Longrightarrow> 0x80 \<le> fst b \<and> 0x80 \<le> a"
  by (auto simp: followers_def split: if_splits)

lemma rune_len_high:
  assumes "1 < rune_len s" and "c \<in> set (take (rune_len s) s)"
  shows "0x80 \<le> code c"
proof -
  obtain a t bs where s: "s = a # t" "followers (code a) = Some bs"
    "list_all2 in_bounds bs (take (length bs) t)" "rune_len s = Suc (length bs)"
    using assms(1) rune_len_cases [of s thesis] by simp
  then obtain b where "b \<in> set bs" using assms(1) by (cases bs) auto
  from followers_high [OF s(2) this] have a: "0x80 \<le> code a" by simp
  have "0x80 \<le> code d" if "d \<in> set (take (length bs) t)" for d
  proof -
    from that obtain i where i: "i < length bs" "d = take (length bs) t ! i"
      by (auto simp: in_set_conv_nth)
    with s(3) have "in_bounds (bs ! i) d" by (simp add: list_all2_conv_all_nth)
    with i followers_high [OF s(2), of "bs ! i"] show ?thesis by (simp add: in_bounds_def)
  qed
  with a s assms(2) show ?thesis by auto
qed

lemma rune_len_low: "code c < 0x80 \<Longrightarrow> rune_len (c # cs) = 1"
  by (simp add: rune_len_def followers_def)

lemma rune_len_not_low: "0x80 \<le> code c \<Longrightarrow> rune_len (c # cs) \<noteq> 1"
  by (auto simp: rune_len_def followers_def split: option.splits if_splits)

text \<open>Text that the scanner passes over, and the text it stands for.\<close>

definition ahead :: "string \<Rightarrow> (string \<times> string) option \<Rightarrow> (string \<times> string) option" where
  "ahead w = map_option (\<lambda>(b, r). (w @ b, r))"

lemma ahead_simps [simp]:
  "ahead [] p = p" "ahead v (ahead w p) = ahead (v @ w) p"
  "ahead w None = None" "ahead w (Some (b, r)) = Some (w @ b, r)"
  by (cases p; auto simp: ahead_def)+

lemma scan_string_ahead:
  "scan_string (CHR 0x5C # d # ds) = ahead [CHR 0x5C, d] (scan_string ds)"
  "0x20 \<le> code c \<Longrightarrow> c \<noteq> CHR 0x22 \<Longrightarrow> c \<noteq> CHR 0x5C \<Longrightarrow> scan_string (c # cs) = ahead [c] (scan_string cs)"
  by (simp_all add: ahead_def)

definition before :: "'a list \<Rightarrow> 'a list option \<Rightarrow> 'a list option" where
  "before v = map_option ((@) v)"

lemma before_simps [simp]:
  "before [] p = p" "before v (before w p) = before (v @ w) p"
  "before v None = None" "before v (Some s) = Some (v @ s)"
  by (cases p; simp add: before_def)+

lemma before_eq: "map_option ((#) e) p = before [e] p" "map_option ((@) v) p = before v p"
  by (cases p; simp add: before_def)+

definition reads_as :: "string \<Rightarrow> string \<Rightarrow> bool" where
  "reads_as w v \<longleftrightarrow>
     (\<forall>r. scan_string (w @ r) = ahead w (scan_string r) \<and> unquote (w @ r) = before v (unquote r))"

lemma reads_asI:
  "(\<And>r. scan_string (w @ r) = ahead w (scan_string r)) \<Longrightarrow>
     (\<And>r. unquote (w @ r) = before v (unquote r)) \<Longrightarrow> reads_as w v"
  by (simp add: reads_as_def)

lemma reads_as_Nil: "reads_as [] []"
  by (rule reads_asI) simp_all

lemma reads_as_append: "reads_as w v \<Longrightarrow> reads_as w' v' \<Longrightarrow> reads_as (w @ w') (v @ v')"
  by (simp add: reads_as_def)

lemma reads_as_string:
  assumes "reads_as w v"
  shows "scan_string (w @ CHR 0x22 # r) = Some (w, r)" and "unquote w = Some v"
proof -
  have *: "scan_string (w @ r) = ahead w (scan_string r)" "unquote (w @ r) = before v (unquote r)" for r
    using assms by (simp_all add: reads_as_def)
  show "scan_string (w @ CHR 0x22 # r) = Some (w, r)" using *(1) [of "CHR 0x22 # r"] by simp
  show "unquote w = Some v" using *(2) [of "[]"] by (simp add: unquote.simps)
qed

lemma scan_plain:
  "list_all (\<lambda>c. 0x20 \<le> code c \<and> c \<noteq> CHR 0x22 \<and> c \<noteq> CHR 0x5C) w \<Longrightarrow>
     scan_string (w @ r) = ahead w (scan_string r)"
  by (induction w) (simp_all add: scan_string_ahead del: scan_string.simps)

lemma reads_as_escape:
  assumes "escaped d = Some e" and "d \<noteq> CHR ''u''"
  shows "reads_as [CHR 0x5C, d] [e]"
  using assms by (intro reads_asI) (simp_all add: unquote.simps before_eq scan_string_ahead del: scan_string.simps)

lemma reads_as_unicode:
  assumes "hex4 [a, b, c, d] = Some r" and "\<not> is_surrogate r"
    and "list_all (\<lambda>c. 0x20 \<le> code c \<and> c \<noteq> CHR 0x22 \<and> c \<noteq> CHR 0x5C) [a, b, c, d]"
  shows "reads_as [CHR 0x5C, CHR ''u'', a, b, c, d] (utf8_encode r)"
proof -
  have "hex4 (a # b # c # d # t) = Some r" for t using assms(1) by (simp add: hex4_def)
  with assms(2,3) show ?thesis
    by (intro reads_asI) (simp_all add: unquote.simps before_eq scan_string_ahead del: scan_string.simps)
qed

lemma reads_as_plain:
  assumes "0x20 \<le> code c" "code c < 0x80" "c \<noteq> CHR 0x22" "c \<noteq> CHR 0x5C"
  shows "reads_as [c] [c]"
  using assms by (intro reads_asI) (simp_all add: unquote.simps before_eq rune_len_low scan_string_ahead del: scan_string.simps)

lemma reads_as_rune:
  assumes "1 < rune_len s"
  shows "reads_as (take (rune_len s) s) (take (rune_len s) s)" (is "reads_as ?w _")
proof (rule reads_asI)
  have high: "list_all (\<lambda>c. 0x20 \<le> code c \<and> c \<noteq> CHR 0x22 \<and> c \<noteq> CHR 0x5C) ?w"
    using rune_len_high [OF assms] by (fastforce simp: list_all_iff code_def)
  then show "scan_string (?w @ r) = ahead ?w (scan_string r)" for r
    by (rule scan_plain)
  fix r
  have len: "length ?w = rune_len s" using rune_len_bound [of s] by simp
  obtain c t where w: "?w @ r = c # t" "c \<in> set ?w"
    using len assms by (cases ?w) auto
  then have "c \<noteq> CHR 0x5C" using high by (auto simp: list_all_iff)
  moreover have n: "rune_len (c # t) = rune_len s"
    using rune_len_take [of s r] assms w by simp
  moreover have "take (rune_len s) (c # t) = ?w" "drop (rune_len s) (c # t) = r"
    unfolding w(1) [symmetric] using len by simp_all
  ultimately show "unquote (?w @ r) = before ?w (unquote r)"
    using assms unfolding w(1) by (simp add: unquote.simps before_eq)
qed

lemma hex_digits:
  assumes "n < 16"
  shows "hex_value (hex_char n) = Some n \<and> 0x20 \<le> code (hex_char n) \<and> hex_char n \<noteq> CHR 0x22 \<and> hex_char n \<noteq> CHR 0x5C"
proof -
  have "list_all (\<lambda>n. hex_value (hex_char n) = Some n \<and> 0x20 \<le> code (hex_char n) \<and>
      hex_char n \<noteq> CHR 0x22 \<and> hex_char n \<noteq> CHR 0x5C) [0..<16]"
    by (simp add: upt_rec hex_char_def hex_value_def code_def)
  with assms show ?thesis by (simp add: list_all_iff)
qed

lemma reads_as_json_char:
  assumes "code c < 0x80"
  shows "reads_as (json_char c) [c]"
proof -
  have u: "reads_as [CHR 0x5C, CHR ''u'', CHR ''0'', CHR ''0'', hex_char (code c div 16), hex_char (code c mod 16)] [c]"
  proof -
    have "hex4 [CHR ''0'', CHR ''0'', hex_char (code c div 16), hex_char (code c mod 16)] = Some (code c)"
      using hex_digits [of "code c div 16"] hex_digits [of "code c mod 16"] assms
      by (simp add: hex4_def hex_value_def)
    then have "reads_as [CHR 0x5C, CHR ''u'', CHR ''0'', CHR ''0'', hex_char (code c div 16), hex_char (code c mod 16)]
        (utf8_encode (code c))"
      using hex_digits [of "code c div 16"] hex_digits [of "code c mod 16"] assms
      by (intro reads_as_unicode) (auto simp: is_surrogate_def code_def)
    moreover have "utf8_encode (code c) = [c]" using assms by (simp add: utf8_encode_def code_def)
    ultimately show ?thesis by simp
  qed
  show ?thesis
  proof (cases "c \<in> {CHR 0x22, CHR 0x5C, CHR 0x08, CHR 0x0C, CHR 0x0A, CHR 0x0D, CHR 0x09}")
    case True
    then show ?thesis
      by (elim insertE emptyE) (simp_all add: json_char_def reads_as_escape escaped_def)
  next
    case False
    then show ?thesis
      using u reads_as_plain [of c] assms by (simp add: json_char_def)
  qed
qed

lemma reads_as_json_rune:
  assumes "1 < rune_len s"
  shows "reads_as (json_rune (take (rune_len s) s)) (take (rune_len s) s)"
proof -
  have "reads_as (CHR 0x5C # ''u2028'') (utf8_encode 0x2028)" "reads_as (CHR 0x5C # ''u2029'') (utf8_encode 0x2029)"
    by (auto intro!: reads_as_unicode simp: hex4_def hex_value_def is_surrogate_def code_def)
  then show ?thesis using reads_as_rune [OF assms] by (simp add: json_rune_def)
qed

lemma reads_as_quote_body: "reads_as (quote_body s) (to_valid s)"
proof (induction s rule: quote_body.induct)
  case 1
  then show ?case by (simp add: quote_body.simps to_valid.simps reads_as_Nil)
next
  case (2 c cs)
  have bad: "reads_as (CHR 0x5C # ''ufffd'') replacement"
    unfolding replacement_def
    by (rule reads_as_unicode) (simp_all add: hex4_def hex_value_def is_surrogate_def code_def)
  show ?case
  proof (cases "code c < 0x80")
    case True
    with 2(1) reads_as_append [OF reads_as_json_char [OF True]] show ?thesis
      by (simp add: quote_body.simps to_valid.simps rune_len_low)
  next
    case False
    show ?thesis
    proof (cases "rune_len (c # cs) = 0")
      case True
      with False 2(2) reads_as_append [OF bad] show ?thesis
        by (simp add: quote_body.simps to_valid.simps)
    next
      case ok: False
      then have "1 < rune_len (c # cs)"
        using rune_len_not_low [of c cs] False by (cases "rune_len (c # cs) = 1") auto
      from reads_as_append [OF reads_as_json_rune [OF this] 2(3) [OF False ok]] False ok show ?thesis
        by (simp add: quote_body.simps to_valid.simps)
    qed
  qed
qed

text \<open>ASCII text is valid as it stands.\<close>

lemma to_valid_ascii: "list_all (\<lambda>c. code c < 0x80) s \<Longrightarrow> to_valid s = s"
  by (induction s) (simp_all add: to_valid.simps rune_len_low)

section \<open>Numbers\<close>

lemma digits_only:
  assumes "list_all is_digit ds"
  shows "takeWhile is_digit ds = ds" and "dropWhile is_digit ds = []"
  using assms by (induction ds) auto

lemma nat_digits_hd: "0 < n \<Longrightarrow> hd (nat_digits n) \<noteq> CHR ''0''"
proof (induction n rule: nat_digits.induct)
  case (1 n)
  have "digit_char n \<noteq> CHR ''0''" if "n < 10" "0 < n"
    using of_char_digit [OF that(1)] that by auto
  with 1 show ?case
    by (subst nat_digits.simps) (auto simp: nat_digits_not_Nil hd_append)
qed

lemma nat_digits_zero: "nat_digits 0 = ''0''"
  by (simp add: nat_digits.simps digit_char_def char_of_eq_iff)

lemma valid_digits:
  assumes "list_all is_digit ds" and "ds \<noteq> []" and "hd ds = CHR ''0'' \<longrightarrow> length ds = 1"
  shows "valid_number ds" and "valid_number (CHR ''-'' # ds)"
proof -
  have "hd ds \<noteq> CHR ''-''" using assms(1,2) by (cases ds) (auto simp: is_digit_def)
  with assms(2,3) show "valid_number ds" "valid_number (CHR ''-'' # ds)"
    by (simp_all add: valid_number_def Let_def valid_frac_def valid_exp_def digits_only [OF assms(1)] assms(1) [unfolded list_all_iff])
qed

lemma valid_nat_digits: "valid_number (nat_digits n)" "valid_number (CHR ''-'' # nat_digits n)"
proof -
  have "hd (nat_digits n) = CHR ''0'' \<longrightarrow> length (nat_digits n) = 1"
    using nat_digits_hd [of n] by (cases "n = 0") (auto simp: nat_digits_zero)
  from valid_digits [OF nat_digits_all nat_digits_not_Nil this]
  show "valid_number (nat_digits n)" "valid_number (CHR ''-'' # nat_digits n)" .
qed

lemma valid_itoa: "valid_number (go_itoa i)"
  by (simp add: go_itoa_def valid_nat_digits)

lemma digit_num_char: "is_digit c \<Longrightarrow> num_char c"
  by (simp add: num_char_def)

lemma valid_exp_chars: "valid_exp s \<Longrightarrow> list_all num_char s"
  by (auto simp: valid_exp_def Let_def num_char_def list_all_iff neq_Nil_conv split: list.splits if_splits)

lemma split_digits:
  assumes "list_all num_char (dropWhile is_digit s)"
  shows "list_all num_char s"
proof -
  have "list_all num_char (takeWhile is_digit s)"
    by (auto simp: list_all_iff digit_num_char dest: set_takeWhileD)
  with assms have "list_all num_char (takeWhile is_digit s @ dropWhile is_digit s)"
    by (simp only: list_all_append)
  then show ?thesis unfolding takeWhile_dropWhile_id .
qed

lemma valid_frac_chars:
  assumes "valid_frac s"
  shows "list_all num_char s"
proof (cases "s \<noteq> [] \<and> hd s = CHR ''.''")
  case True
  then obtain t where "s = CHR ''.'' # t" by (cases s) auto
  with assms split_digits valid_exp_chars show ?thesis by (simp add: valid_frac_def num_char_def)
next
  case False
  with assms valid_exp_chars show ?thesis by (auto simp: valid_frac_def)
qed

lemma valid_number_chars:
  assumes "valid_number s"
  shows "list_all num_char s"
proof (cases "s \<noteq> [] \<and> hd s = CHR ''-''")
  case True
  then obtain t where "s = CHR ''-'' # t" by (cases s) auto
  with assms split_digits valid_frac_chars show ?thesis by (simp add: valid_number_def Let_def num_char_def)
next
  case False
  then have "valid_frac (dropWhile is_digit s)" using assms by (auto simp: valid_number_def Let_def)
  then show ?thesis using split_digits valid_frac_chars by blast
qed

lemma valid_number_not_Nil: "valid_number s \<Longrightarrow> s \<noteq> []"
  by (auto simp: valid_number_def)

section \<open>Documents\<close>

text \<open>The compact form: no spaces, members in the order they stand in.\<close>

fun json_print :: "json \<Rightarrow> string"
  and print_elems :: "json list \<Rightarrow> string"
  and print_members :: "(string \<times> json) list \<Rightarrow> string"
where
  "json_print JNull = ''null''"
| "json_print (JBool b) = (if b then ''true'' else ''false'')"
| "json_print (JNum t) = t"
| "json_print (JStr s) = quote_json s"
| "json_print (JArr []) = ''[]''"
| "json_print (JArr (j # js)) = CHR ''['' # json_print j @ print_elems js"
| "json_print (JObj []) = ''{}''"
| "json_print (JObj ((k, j) # ms)) = CHR ''{'' # quote_json k @ CHR '':'' # json_print j @ print_members ms"
| "print_elems [] = '']''"
| "print_elems (j # js) = CHR '','' # json_print j @ print_elems js"
| "print_members [] = ''}''"
| "print_members ((k, j) # ms) = CHR '','' # quote_json k @ CHR '':'' # json_print j @ print_members ms"

fun tokens_of :: "json \<Rightarrow> token list"
  and elem_tokens :: "json list \<Rightarrow> token list"
  and member_tokens :: "(string \<times> json) list \<Rightarrow> token list"
where
  "tokens_of JNull = [TVal JNull]"
| "tokens_of (JBool b) = [TVal (JBool b)]"
| "tokens_of (JNum t) = [TVal (JNum t)]"
| "tokens_of (JStr s) = [TStr s]"
| "tokens_of (JArr []) = [TLBrack, TRBrack]"
| "tokens_of (JArr (j # js)) = TLBrack # tokens_of j @ elem_tokens js"
| "tokens_of (JObj []) = [TLBrace, TRBrace]"
| "tokens_of (JObj ((k, j) # ms)) = TLBrace # TStr k # TColon # tokens_of j @ member_tokens ms"
| "elem_tokens [] = [TRBrack]"
| "elem_tokens (j # js) = TComma # tokens_of j @ elem_tokens js"
| "member_tokens [] = [TRBrace]"
| "member_tokens ((k, j) # ms) = TComma # TStr k # TColon # tokens_of j @ member_tokens ms"

text \<open>
  The documents the round trip covers: numbers in JSON's syntax, strings in UTF-8, at most
  \<open>d\<close> containers inside each other.
\<close>

fun printable :: "nat \<Rightarrow> json \<Rightarrow> bool"
  and printable_list :: "nat \<Rightarrow> json list \<Rightarrow> bool"
  and printable_members :: "nat \<Rightarrow> (string \<times> json) list \<Rightarrow> bool"
where
  "printable d JNull = True"
| "printable d (JBool b) = True"
| "printable d (JNum t) = valid_number t"
| "printable d (JStr s) = (to_valid s = s)"
| "printable 0 (JArr js) = False"
| "printable (Suc d) (JArr js) = printable_list d js"
| "printable 0 (JObj ms) = False"
| "printable (Suc d) (JObj ms) = printable_members d ms"
| "printable_list d [] = True"
| "printable_list d (j # js) = (printable d j \<and> printable_list d js)"
| "printable_members d [] = True"
| "printable_members d ((k, j) # ms) = (to_valid k = k \<and> printable d j \<and> printable_members d ms)"

text \<open>Lexing what was printed.\<close>

lemma lex_punctuation: "punctuation c = Some t \<Longrightarrow> lex (c # cs) = before [t] (lex cs)"
  by (auto simp: lex.simps before_eq punctuation_def is_space_def split: if_splits)

lemma punctuations [simp]:
  "punctuation CHR ''{'' = Some TLBrace" "punctuation CHR ''}'' = Some TRBrace"
  "punctuation CHR ''['' = Some TLBrack" "punctuation CHR '']'' = Some TRBrack"
  "punctuation CHR '':'' = Some TColon" "punctuation CHR '','' = Some TComma"
  by (simp_all add: punctuation_def)

lemma lex_string:
  assumes "to_valid s = s"
  shows "lex (quote_json s @ r) = before [TStr s] (lex r)"
  using reads_as_string [OF reads_as_quote_body [of s]] assms
  by (simp add: quote_json_def before_eq lex.simps(2) [of "CHR 0x22"] is_space_def punctuation_def)

lemma lex_number:
  assumes "valid_number t" and "r = [] \<or> \<not> num_char (hd r)"
  shows "lex (t @ r) = before [TVal (JNum t)] (lex r)"
proof -
  have chars: "list_all num_char t" by (rule valid_number_chars [OF assms(1)])
  obtain c u where t: "t = c # u" using valid_number_not_Nil [OF assms(1)] by (cases t) auto
  have c: "num_char c" using chars t by simp
  then have "\<not> is_space c" "punctuation c = None" "c \<noteq> CHR 0x22"
    by (auto simp: num_char_def is_digit_def is_space_def punctuation_def)
  moreover have "takeWhile num_char (t @ r) = t \<and> dropWhile num_char (t @ r) = r"
    using chars assms(2) by (cases r) (simp_all add: list_all_iff takeWhile_append2 dropWhile_append2)
  ultimately show ?thesis
    using c assms(1) t by (simp add: before_eq lex.simps(2) [of c])
qed

lemma lex_word:
  "lex (''null'' @ r) = before [(TVal JNull)] (lex r)"
  "lex (''true'' @ r) = before [(TVal (JBool True))] (lex r)"
  "lex (''false'' @ r) = before [(TVal (JBool False))] (lex r)"
  by (simp_all add: before_eq lex.simps(2) [of "CHR ''n''"] lex.simps(2) [of "CHR ''t''"] lex.simps(2) [of "CHR ''f''"]
      is_space_def punctuation_def num_char_def is_digit_def)

text \<open>A printed document ends where a number cannot go on.\<close>

definition ends_number :: "string \<Rightarrow> bool" where
  "ends_number r \<longleftrightarrow> r = [] \<or> \<not> num_char (hd r)"

lemma ends_number_more [simp]:
  "ends_number (print_elems js @ r)" "ends_number (print_members ms @ r)" "ends_number []"
  by (cases js; cases ms; auto simp: ends_number_def num_char_def is_digit_def)+

lemma lex_print:
  "printable d j \<Longrightarrow> ends_number r \<Longrightarrow> lex (json_print j @ r) = before (tokens_of j) (lex r)"
  "printable_list d js \<Longrightarrow> lex (print_elems js @ r) = before (elem_tokens js) (lex r)"
  "printable_members d ms \<Longrightarrow> lex (print_members ms @ r) = before (member_tokens ms) (lex r)"
proof (induction j and js and ms arbitrary: d r and d r and d r rule: tokens_of_elem_tokens_member_tokens.induct)
  case (3 t)
  then show ?case using lex_number [of t r] by (simp add: ends_number_def)
next
  case (6 j js)
  then obtain e where d: "d = Suc e" by (cases d) auto
  with 6 show ?case
    using 6(1) [of e "print_elems js @ r"] 6(2) [of e r]
    by (simp add: lex_punctuation)
next
  case (8 k j ms)
  then obtain e where d: "d = Suc e" by (cases d) auto
  with 8 show ?case
    using 8(1) [of e "print_members ms @ r"] 8(2) [of e r]
    by (simp add: lex_punctuation lex_string)
next
  case (10 j js)
  then show ?case
    using 10(1) [of d "print_elems js @ r"] 10(2) [of d r] by (simp add: lex_punctuation)
next
  case (12 k j ms)
  then show ?case
    using 12(1) [of d "print_members ms @ r"] 12(2) [of d r] by (simp add: lex_punctuation lex_string)
qed (simp_all add: lex_word [simplified] lex_punctuation lex_string)

text \<open>Parsing the tokens of a document gives the document, under the containers that were open.\<close>

lemma start_other: "t \<noteq> TRBrack \<Longrightarrow> parse_step t (WantValueOrEnd, st) = start_value t st"
  by (cases t) simp_all

lemma tokens_start:
  "parse_tokens (tokens_of j @ ts) (WantValueOrEnd, st) = parse_tokens (tokens_of j @ ts) (WantValue, st)"
  by (cases j rule: tokens_of.cases) (simp_all add: start_other)

lemma parse_tokens_of:
  "printable d j \<Longrightarrow> d + length st \<le> max_depth \<Longrightarrow>
     parse_tokens (tokens_of j @ ts) (WantValue, st) = parse_tokens ts (After j, st)"
  "printable_list d js \<Longrightarrow> d + length st < max_depth \<Longrightarrow>
     parse_tokens (elem_tokens js @ ts) (After x, InArr xs # st) =
       parse_tokens ts (After (JArr (rev xs @ x # js)), st)"
  "printable_members d ms \<Longrightarrow> d + length st < max_depth \<Longrightarrow>
     parse_tokens (member_tokens ms @ ts) (After x, InObj ys y # st) =
       parse_tokens ts (After (JObj (rev ys @ (y, x) # ms)), st)"
proof (induction j and js and ms arbitrary: d st ts and d st ts x xs and d st ts x ys y
    rule: tokens_of_elem_tokens_member_tokens.induct)
  case 5
  then show ?case by (cases d) simp_all
next
  case (6 j js)
  then obtain e where d: "d = Suc e" by (cases d) auto
  with 6 show ?case
    using 6(1) [of e "InArr [] # st" "elem_tokens js @ ts"] 6(2) [of e st ts j "[]"]
    by (simp add: tokens_start)
next
  case 7
  then show ?case by (cases d) simp_all
next
  case (8 k j ms)
  then obtain e where d: "d = Suc e" by (cases d) auto
  with 8 show ?case
    using 8(1) [of e "InObj [] k # st" "member_tokens ms @ ts"] 8(2) [of e st ts j "[]" k] by simp
next
  case (10 j js)
  then show ?case
    using 10(1) [of d "InArr (x # xs) # st" "elem_tokens js @ ts"] 10(2) [of d st ts j "x # xs"] by simp
next
  case (12 k j ms)
  then show ?case
    using 12(1) [of d "InObj ((y, x) # ys) k # st" "member_tokens ms @ ts"] 12(2) [of d st ts j "(y, x) # ys" k]
    by simp
qed simp_all

lemma json_parse_print:
  assumes "printable max_depth j"
  shows "json_parse (json_print j) = Some j"
proof -
  have "lex (json_print j) = Some (tokens_of j)"
    using lex_print(1) [OF assms, of "[]"] by (simp add: lex.simps)
  moreover have "parse_tokens (tokens_of j) (WantValue, []) = Some (After j, [])"
    using parse_tokens_of(1) [OF assms, of "[]" "[]"] by simp
  ultimately show ?thesis by (simp add: json_parse_def)
qed

lemma printable_mono:
  "printable d j \<Longrightarrow> d \<le> e \<Longrightarrow> printable e j"
  "printable_list d js \<Longrightarrow> d \<le> e \<Longrightarrow> printable_list e js"
  "printable_members d ms \<Longrightarrow> d \<le> e \<Longrightarrow> printable_members e ms"
proof (induction d j and d js and d ms arbitrary: e and e and e
    rule: printable_printable_list_printable_members.induct)
  case (6 d js)
  then show ?case by (cases e) auto
next
  case (8 d ms)
  then show ?case by (cases e) auto
qed auto

end
