(* ===== verification/Sample_Chain.thy ===== *)
theory Sample_Chain
  imports Mgr_System Json_Print
begin

text \<open>
  One concrete manager, environment and execution, on which the theorems about the manager
  are instantiated: a header arrives, a signal for \<open>avax_usdc\<close> arrives, and then a
  competitor's transaction that touches the pair's contract.
\<close>

definition sample_path :: SignalPath where
  "sample_path = zero_SignalPath\<lparr>sp_Symbol := ''AVAX/USDC''\<rparr>"

definition sample_detail :: DepthDetail where
  "sample_detail = zero_DepthDetail\<lparr>dd_Path := [sample_path]\<rparr>"

definition sample_json :: json where
  "sample_json = JObj
     [(''symbol'', JStr ''avax_usdc''),
      (''side'', JStr ''buy''),
      (''base_gas_price'', JNum ''25''),
      (''trade_blocknum'', JNum ''8''),
      (''depth_details'',
        JObj [(''cex'', JArr [JObj [(''path'', JArr [JObj [(''symbol'', JStr ''AVAX/USDC'')]])]])])]"

definition sample_signal :: Signal where
  "sample_signal = zero_Signal\<lparr>sg_Symbol := ''avax_usdc'', sg_Side := ''buy'',
     sg_BaseGasPrice := Fin False 7036874417766400 (-48), sg_TradeBlockNum := 8,
     sg_DepthDetails := [(''cex'', [sample_detail])]\<rparr>"

definition sample_tx_json :: json where
  "sample_tx_json = JObj [(''to'', JStr ''0xenemy''), (''hash'', JStr ''0x1'')]"

definition sample_trace :: json where
  "sample_trace = JObj [(''to'', JStr ''0xenemy''), (''calls'', JArr [JObj [(''to'', JStr ''0xpair'')]])]"

definition sample_env :: "(nat, nat) tx_env" where
  "sample_env =
     \<lparr> te_marshal = (\<lambda>_. json_print sample_tx_json), te_sender = (\<lambda>_. ''0xfrom''),
       te_gas_price = (\<lambda>_. 30000000000),
       te_router = \<lparr> rl_path = (\<lambda>_. None), rl_address_string = (\<lambda>_. []) \<rparr>,
       te_rpc = \<lparr> rpc_trace = (\<lambda>_ _ _. Some sample_trace), rpc_receipt = (\<lambda>_. False) \<rparr>,
       te_second = (\<lambda>_. 30), te_milli = (\<lambda>i. 1000 + of_nat i), te_oob = (\<lambda>_. 0),
       te_consts = \<lparr> TradeType_TAKER = 1, Exchange_AVALANCHE_DEX = 67, Market_SPOT = 2,
         OrderSysType_TRADE_DEX = 3, SymbolType_SPOT_NORMAL = 4, EthTransactionType_DynamicFeeTx = 5 \<rparr>,
       te_publish = (\<lambda>_ _. True) \<rparr>"

text \<open>The text of the signal, and that it is read back.\<close>

definition sample_text :: string where
  "sample_text = json_print sample_json"

lemma json_read:
  assumes "printable 8 j"
  shows "json_parse (json_print j) = Some j"
proof (rule json_parse_print)
  have "(8::nat) \<le> max_depth" unfolding max_depth_def by simp
  with assms show "printable max_depth j" by (rule printable_mono(1))
qed

lemma sample_read: "json_parse sample_text = Some sample_json" "json_parse (json_print sample_tx_json) = Some sample_tx_json"
proof -
  have "printable 8 sample_json" "printable 8 sample_tx_json"
    by (simp_all add: sample_json_def sample_tx_json_def numeral_eq_Suc to_valid_ascii code_def valid_number_def
        is_digit_def valid_frac_def valid_exp_def Let_def)
  then show "json_parse sample_text = Some sample_json" "json_parse (json_print sample_tx_json) = Some sample_tx_json"
    by (simp_all add: sample_text_def json_read)
qed

definition sample_header :: Header where
  "sample_header = \<lparr> bh_Number = 7, bh_Time = 1720000000 \<rparr>"

definition sample_mgr :: "(nat, nat) NodeMgr" where
  "sample_mgr =
     \<lparr> nm_RouterMap = Map.empty, nm_EnemiesMap = [''0xenemy'' \<mapsto> True], nm_PendingTxList = [],
       nm_HeaderWsList = [], nm_Signals = [], nm_rDecoder = None,
       nm_PairSymbolMap = [''0xpair'' \<mapsto> ''avax_usdc''], nm_Outbox = [], nm_Cancels = 0,
       nm_WsCloses = 0 \<rparr>"

definition sample_sys :: "(nat, nat) sys" where
  "sample_sys = \<lparr> sy_mgr = sample_mgr, sy_ga = Running, sy_sh = Running \<rparr>"

lemma sample_numbers:
  "parse_f64 ''25'' = Some (Fin False 7036874417766400 (-48))" "parse_int64 ''8'' = Some 8"
proof -
  have "parse_float_text ''25'' = Some (False, 25, 0)"
    by (simp add: parse_float_text_def parse_exp_def is_digit_def digits_value_def Let_def)
  moreover have "f64_of_decimal False 25 0 = Fin False 7036874417766400 (-48)"
    by (simp add: f64_of_decimal_def f64_eval)
  ultimately show "parse_f64 ''25'' = Some (Fin False 7036874417766400 (-48))"
    by (simp add: parse_f64_def Let_def)
  show "parse_int64 ''8'' = Some 8"
    by (simp add: parse_int64_def parse_decimal_def is_digit_def digits_value_def int64_range_def Let_def)
qed

lemma sample_fields:
  "find_field SignalPath_fields ''symbol'' = Some (dec_string sp_Symbol_update)"
  "find_field DepthDetail_fields ''path'' =
     Some (dec_slice (\<lambda>j. dec_struct SignalPath_fields j zero_SignalPath) dd_Path_update)"
  "find_field Signal_fields ''symbol'' = Some (dec_string sg_Symbol_update)"
  "find_field Signal_fields ''side'' = Some (dec_string sg_Side_update)"
  "find_field Signal_fields ''base_gas_price'' = Some (dec_f64 sg_BaseGasPrice_update)"
  "find_field Signal_fields ''trade_blocknum'' = Some (dec_int64 sg_TradeBlockNum_update)"
  "find_field Signal_fields ''depth_details'' = Some (dec_map json_DepthDetails sg_DepthDetails sg_DepthDetails_update)"
  "find_field PendingTx_fields ''to'' = Some (dec_string px_To_update)"
  "find_field PendingTx_fields ''hash'' = Some (dec_string px_Hash_update)"
  by (rule find_field_exact,
      simp add: SignalPath_fields_def DepthDetail_fields_def Signal_fields_def PendingTx_fields_def)+

lemma sample_unmarshal: "unmarshal_Signal sample_json = Some sample_signal"
proof -
  have d: "json_DepthDetails (JArr [JObj [(''path'', JArr [JObj [(''symbol'', JStr ''AVAX/USDC'')]])]]) =
    Some [sample_detail]"
    by (simp add: json_DepthDetails_def dec_slice_def dec_prim_def sample_fields sample_detail_def sample_path_def)
  have "sg_DepthDetails zero_Signal = []" by (simp add: zero_Signal_def)
  with d show ?thesis
    by (simp add: unmarshal_Signal_def sample_json_def sample_fields dec_prim_def dec_map_def
        sample_numbers sample_signal_def)
qed

lemma sample_tx: "unmarshal_PendingTx sample_tx_json = Some (zero_PendingTx\<lparr>px_To := ''0xenemy'', px_Hash := ''0x1''\<rparr>)"
  by (simp add: unmarshal_PendingTx_def sample_tx_json_def sample_fields dec_prim_def)

lemma sample_calls: "find_field CallsRes_names ''to'' = Some ''to''" "find_field CallsRes_names ''calls'' = Some ''calls''"
  by (rule find_field_exact, simp add: CallsRes_names_def)+

lemma sample_traced: "\<exists>r. unmarshal_CallsRes sample_trace = Some r \<and> GetAllAddress [r] = [''0xenemy'', ''0xpair'']"
  by (simp add: unmarshal_CallsRes_def sample_trace_def sample_calls zero_CallsRes_def)

lemma sample_decoded_with:
  "Call_DecodeToSymbol (te_rpc sample_env) m tx = (List.map_filter m [''0xenemy'', ''0xpair''], False)"
proof -
  obtain r where r: "unmarshal_CallsRes sample_trace = Some r" "GetAllAddress [r] = [''0xenemy'', ''0xpair'']"
    using sample_traced by blast
  then have "GetAllAddress (traced_calls (te_rpc sample_env) tx) = [''0xenemy'', ''0xpair'']"
    by (simp add: traced_calls_def sample_env_def)
  then show ?thesis
    by (simp add: Call_DecodeToSymbol_eq) (simp add: sample_env_def)
qed

lemma sample_decoded:
  "Call_DecodeToSymbol (te_rpc sample_env) (nm_PairSymbolMap sample_mgr) tx = ([''avax_usdc''], False)"
  unfolding sample_decoded_with by (simp add: sample_mgr_def map_filter_simps)

text \<open>The state after the header and the signal, and the order the transaction then causes.\<close>

definition sample_ready :: "(nat, nat) NodeMgr" where
  "sample_ready = sample_mgr\<lparr>nm_HeaderWsList := [sample_header], nm_Signals := [sample_signal]\<rparr>"

definition sample_order :: "string \<times> TradingReqInfoWAP" where
  "sample_order = order_for sample_env sample_signal 30000000000"

definition sample_done :: "(nat, nat) NodeMgr" where
  "sample_done = sample_ready\<lparr>nm_PendingTxList := [0], nm_Outbox := [sample_order]\<rparr>"

lemma sample_tradable: "tradable sample_signal"
  by (simp add: tradable_def sample_signal_def hedge_targets_def sample_detail_def has_slash_def sample_path_def)

lemma sample_header_step: "handle_head (Some sample_header) sample_mgr = (sample_mgr\<lparr>nm_HeaderWsList := [sample_header]\<rparr>, None)"
  by (simp add: handle_head_def sample_header_def big_Int64_eq window_push_def sample_mgr_def)

lemma sample_signal_step:
  "handle_signal sample_env sample_text (sample_mgr\<lparr>nm_HeaderWsList := [sample_header]\<rparr>) = (sample_ready, None)"
  by (simp add: handle_signal_def sample_read sample_unmarshal Let_def window_push_def sample_mgr_def sample_ready_def)

lemma sample_last_signal: "GetLastSignalBySymbol [sample_signal] ''avax_usdc'' = sample_signal"
  by (simp add: GetLastSignalBySymbol_def sample_signal_def)

lemma sample_env_sel:
  "json_parse (te_marshal sample_env tx) = Some sample_tx_json" "te_sender sample_env tx = ''0xfrom''"
  "te_gas_price sample_env tx = 30000000000" "te_publish sample_env s r"
  by (simp_all add: sample_env_def sample_read)

lemma sample_ready_sel:
  "nm_RouterMap sample_ready = Map.empty" "nm_EnemiesMap sample_ready = [''0xenemy'' \<mapsto> True]"
  "nm_PendingTxList sample_ready = []" "nm_HeaderWsList sample_ready = [sample_header]"
  "nm_Signals sample_ready = [sample_signal]" "nm_Outbox sample_ready = []"
  "nm_PairSymbolMap sample_ready = nm_PairSymbolMap sample_mgr"
  by (simp_all add: sample_ready_def sample_mgr_def)

lemma sample_allowed: "block_ok sample_env sample_header sample_signal"
  by (simp add: block_ok_def sample_env_def sample_header_def big_Int64_eq
      sample_signal_def word_sle_eq word_sless_alt)

lemma sample_after_decode:
  "after_decode sample_env tx ([''avax_usdc''], False) (sample_ready\<lparr>nm_PendingTxList := [tx]\<rparr>) =
     (sample_ready\<lparr>nm_PendingTxList := [tx], nm_Outbox := [sample_order]\<rparr>, None)"
  by (simp add: after_decode_def react_def RebuildTx_cases Trade_cases rebuild_allowed_block_ok
      sample_allowed sample_tradable sample_ready_sel sample_env_sel sample_last_signal sample_order_def
      order_for_def)

lemma sample_tx_step: "handle_tx sample_env (Some 0) sample_ready = (sample_done, None)"
  by (simp add: handle_tx_def enemy_tx_def Let_def sample_env_sel sample_tx sample_ready_sel map_get_def
      go_last_def window_push_def sample_decoded sample_after_decode sample_done_def)

text \<open>The whole execution.\<close>

definition sample_run :: "((nat, nat) tx_env \<times> nat event) list" where
  "sample_run = [(sample_env, HeadArrived (Some sample_header)), (sample_env, SignalArrived sample_text),
     (sample_env, TxArrived (Some 0))]"

lemma sample_steps:
  defines "h \<equiv> sample_sys\<lparr>sy_mgr := sample_mgr\<lparr>nm_HeaderWsList := [sample_header]\<rparr>\<rparr>"
  shows "sys_step sample_sys (sample_env, HeadArrived (Some sample_header)) h"
    and "sys_step h (sample_env, SignalArrived sample_text) (sample_sys\<lparr>sy_mgr := sample_ready\<rparr>)"
    and "sys_step (sample_sys\<lparr>sy_mgr := sample_ready\<rparr>) (sample_env, TxArrived (Some 0)) (sample_sys\<lparr>sy_mgr := sample_done\<rparr>)"
  by (simp_all add: h_def sys_step_simps sample_sys_def sample_header_step sample_signal_step sample_tx_step
      sh_outcome_def ga_outcome_def loop_after_def)

lemma sample_sys_run: "sys_run sample_sys sample_run (sample_sys\<lparr>sy_mgr := sample_done\<rparr>)"
proof -
  have "sys_run sample_sys ((([] @ [(sample_env, HeadArrived (Some sample_header))]) @
      [(sample_env, SignalArrived sample_text)]) @ [(sample_env, TxArrived (Some 0))])
    (sample_sys\<lparr>sy_mgr := sample_done\<rparr>)"
    by (rule run_snoc [OF run_snoc [OF run_snoc [OF run_refl sample_steps(1)] sample_steps(2)] sample_steps(3)])
  then show ?thesis by (simp add: sample_run_def)
qed

lemma sample_start:
  "nm_Signals (sy_mgr sample_sys) = []" "nm_HeaderWsList (sy_mgr sample_sys) = []"
  "nm_Outbox (sy_mgr sample_sys) = []" "nm_PendingTxList (sy_mgr sample_sys) = []"
  by (simp_all add: sample_sys_def sample_mgr_def)

end
