(* ===== verification/Signal_Types.thy ===== *)
theory Signal_Types
  imports Mgr_System
begin

text \<open>
  What the decoder guarantees of a signal's numbers: every float of its own fields is a
  finite binary64 number in canonical form.
\<close>

definition f64_ok :: "f64 \<Rightarrow> bool" where
  "f64_ok f \<longleftrightarrow> f64_wf f \<and> f64_finite f"

lemma f64_ok_zero [simp]: "f64_ok f64_zero"
  by (simp add: f64_ok_def f64_zero_def)

lemma dec_f64_ok: "json_f64 j = Some f \<Longrightarrow> f64_ok f"
  by (cases j) (auto simp: f64_ok_def dest: parse_f64_wf)

definition signal_ok :: "Signal \<Rightarrow> bool" where
  "signal_ok s \<longleftrightarrow> list_all f64_ok [sg_UpdateTime s, sg_SignalBlockTime s, sg_MaxGasPrice s, sg_BaseGasPrice s,
     sg_PriceExpect s, sg_AmountArb s, sg_AmountEntry s]"

lemma zero_Signal_ok [simp]: "signal_ok zero_Signal"
  by (simp add: signal_ok_def zero_Signal_def)

lemma decoded_signal_ok: "unmarshal_Signal j = Some sg \<Longrightarrow> signal_ok sg"
  unfolding unmarshal_Signal_def
proof (erule dec_struct_invar)
  fix d j s s'
  assume "d \<in> snd ` set Signal_fields" "signal_ok s" "d j s = Some s'"
  then show "signal_ok s'"
    by (auto simp: Signal_fields_def dec_prim_def dec_nested_def dec_map_def signal_ok_def split: if_splits)
      (erule dec_f64_ok)+
qed simp

lemma run_signals_ok:
  assumes "sg \<in> set (signal_history tr)"
  shows "signal_ok sg"
proof -
  from assms obtain e where "e \<in> set tr" "accepted_signal e = Some sg"
    by (auto simp: signal_history_def List.map_filter_def)
  then obtain j where "unmarshal_Signal j = Some sg"
    by (auto simp: accepted_signal_def bind_eq_Some_conv split: prod.splits event.splits)
  then show ?thesis by (rule decoded_signal_ok)
qed

end
