(* ===== verification/Gas_Price.thy ===== *)
theory Gas_Price
  imports Signal_Types
begin

text \<open>
  The arithmetic of the fee: the product with \<open>10^9\<close> in binary64, its truncation to an
  integer, and the difference in the transaction's priority fee.
\<close>

lemma times_1e9_error:
  assumes "f64_finite x" and "\<bar>f64_val x * 10 ^ 9\<bar> \<le> 9 * 10 ^ 15"
  shows "\<exists>s m e. x * f64_of_nat 1000000000 = Fin s m e \<and> e \<le> 0 \<and>
    \<bar>f64_val (Fin s m e) - f64_val x * 10 ^ 9\<bar> \<le> 2 powi (e - 1)"
proof -
  obtain s m e where x: "x = Fin s m e" using assms(1) by (cases x) auto
  let ?m = "m * 8388608000000000" and ?e = "e + - 23"
  have r: "x * f64_of_nat 1000000000 = f64_round s ?m ?e"
    using x by (simp add: f64_of_nat_1e9 times_f64_def)
  have p: "(2::real) powi e = 2 powi ?e * 8388608"
  proof -
    have "(2::real) powi (?e + 23) = 2 powi ?e * 2 powi 23" by (rule power_int_add) simp
    then show ?thesis by simp
  qed
  have exact: "(if s then - real ?m else real ?m) * 2 powi ?e = f64_val x * 10 ^ 9"
    unfolding x f64_val.simps p by (cases s) simp_all
  then have "\<bar>f64_val x * 10 ^ 9\<bar> = real ?m * 2 powi ?e"
    by (cases s) (simp_all only: if_True if_False abs_mult abs_minus_cancel abs_of_nat power_int_abs abs_numeral flip: exact)
  with assms(2) have small: "real ?m * 2 powi ?e \<le> 9 * 10 ^ 15" by simp
  show ?thesis
  proof (cases "f64_round s ?m ?e")
    case (Fin s' m' e')
    note err = f64_round_error(2) [OF Fin, unfolded exact]
    have "e' \<le> 0"
    proof (rule ccontr)
      assume "\<not> e' \<le> 0"
      have wf: "f64_wf (Fin s' m' e')" using f64_round_wf [of s ?m ?e] Fin by simp
      with \<open>\<not> e' \<le> 0\<close> have "2 ^ 52 \<le> m'" and e: "1 \<le> e'" by auto
      then have "2 ^ 52 \<le> real m'" by (metis of_nat_le_iff of_nat_numeral of_nat_power)
      then have "2 ^ 52 * 2 powi e' \<le> \<bar>f64_val (Fin s' m' e')\<bar>"
        by (simp add: abs_mult mult_right_mono)
      moreover have half: "(2::real) powi (e' - 1) = 2 powi e' / 2" by (simp add: power_int_diff)
      ultimately have "2 ^ 52 * 2 powi e' - 2 powi e' / 2 \<le> (9 * 10 ^ 15 :: real)"
        using err assms(2) by linarith
      then have "(2 ^ 52 - 1 / 2) * 2 powi e' \<le> (9 * 10 ^ 15 :: real)" by (simp only: left_diff_distrib)
      moreover have "(2::real) \<le> 2 powi e'" using e power_int_increasing [of 1 e' "2::real"] by simp
      then have "(2 ^ 52 - 1 / 2) * 2 \<le> (2 ^ 52 - 1 / 2 :: real) * 2 powi e'" by (intro mult_left_mono) auto
      ultimately show False by simp
    qed
    with err r Fin show ?thesis by simp
  next
    case (Infty t)
    from f64_round_Infty [OF this] small show ?thesis by simp
  next
    case NaN
    then show ?thesis by (auto simp: f64_round_def Let_def split: if_splits)
  qed
qed

lemma base_gas_price_error:
  assumes "f64_finite (sg_BaseGasPrice sg)" and "\<bar>f64_val (sg_BaseGasPrice sg) * 10 ^ 9\<bar> \<le> 9 * 10 ^ 15"
  shows "\<bar>real_of_int (base_gas_price oob sg) - f64_val (sg_BaseGasPrice sg) * 10 ^ 9\<bar> < 1"
proof -
  let ?v = "f64_val (sg_BaseGasPrice sg) * 10 ^ 9"
  obtain s m e where f: "sg_BaseGasPrice sg * f64_of_nat 1000000000 = Fin s m e" "e \<le> 0"
    and err: "\<bar>f64_val (Fin s m e) - ?v\<bar> \<le> 2 powi (e - 1)"
    using times_1e9_error [OF assms] by blast
  obtain t where t: "f64_trunc (Fin s m e) = Some t" by (simp add: Let_def)
  have half: "(2::real) powi (e - 1) = 2 powi e / 2" by (simp add: power_int_diff)
  have e: "0 < (2::real) powi e" "(2::real) powi e \<le> 1"
    using f(2) power_int_increasing [of e 0 "2::real"] by simp_all
  have "\<bar>real_of_int t - f64_val (Fin s m e)\<bar> \<le> 1 - 2 powi e"
    using f64_trunc_error [OF t] f(2) by (cases "e = 0") (simp_all del: f64_val.simps)
  then have total: "\<bar>real_of_int t - ?v\<bar> < 1" using err half e by linarith
  have "\<bar>real_of_int t\<bar> \<le> 9 * 10 ^ 15 + 1" using total assms(2) by linarith
  then have "real_of_int \<bar>t\<bar> \<le> real_of_int (9 * 10 ^ 15 + 1)" by simp
  then have "\<bar>t\<bar> \<le> 9 * 10 ^ 15 + 1" by (simp only: of_int_le_iff)
  then have range: "- (2 ^ 63) \<le> t" "t < 2 ^ 63" by auto
  then have "base_gas_price oob sg = t"
    unfolding base_gas_price_def f(1) f64_to_int64_def t by (simp add: int_word_sint)
  with total show ?thesis by simp
qed

lemma base_gas_price_range: "- (2 ^ 63) \<le> base_gas_price oob sg" "base_gas_price oob sg < 2 ^ 63"
  unfolding base_gas_price_def
  using sint_ge [of "f64_to_int64 oob (sg_BaseGasPrice sg * f64_of_nat 1000000000)"]
    sint_lt [of "f64_to_int64 oob (sg_BaseGasPrice sg * f64_of_nat 1000000000)"] by simp_all

lemma order_fee:
  assumes "0 \<le> gas" and "gas < 2 ^ 63 - 1"
  shows "uint (ei_MaxPriorityFeePerGas (di_Info (tq_Dex (snd (order_for env sg gas))))) =
    \<bar>gas + 1 - base_gas_price (te_oob env) sg\<bar>"
proof -
  have "\<bar>1 + gas - base_gas_price (te_oob env) sg\<bar> < 2 ^ 64"
    using assms base_gas_price_range [of "te_oob env" sg] unfolding abs_less_iff by simp
  then show ?thesis
    by (simp add: order_for_def request_of_def dex_info_def uint_big_Uint64 rebuild_gas_price_def add.commute)
qed

lemma order_fee_error:
  assumes "0 \<le> gas" and "gas < 2 ^ 63 - 1"
    and "f64_finite (sg_BaseGasPrice sg)" and "\<bar>f64_val (sg_BaseGasPrice sg) * 10 ^ 9\<bar> \<le> 9 * 10 ^ 15"
  shows "\<bar>real_of_int (uint (ei_MaxPriorityFeePerGas (di_Info (tq_Dex (snd (order_for env sg gas)))))) -
      \<bar>real_of_int gas + 1 - f64_val (sg_BaseGasPrice sg) * 10 ^ 9\<bar>\<bar> < 1"
  unfolding order_fee [OF assms(1,2)]
  using base_gas_price_error [OF assms(3,4), of "te_oob env"] by simp

end
