(* ===== verification/Mgr_Interleaved.thy ===== *)
theory Mgr_Interleaved
  imports Mgr_System
begin

text \<open>
  The two loops of \<open>NodeMgr\<close> at the grain of their accesses to \<open>HeaderWsList\<close>, the one
  field that one loop writes and the other reads, without a lock. A handler of
  \<open>GasPriceAnalyse\<close> is a program tree with a node for every index expression
  \<open>n.HeaderWsList[len(n.HeaderWsList)-1]\<close>, which reads the field twice, once for the length
  and once for the element; the header loop cuts the list and appends to it in two separate
  writes. An access is one step, so a read sees the list as it is between any two accesses
  of the other loop; the model takes the read of a slice (three words) as one access.
\<close>

section \<open>Handlers as programs\<close>

text \<open>
  \<open>Rd k\<close> is an index expression: \<open>k\<close> goes on with the list the length is read from and the
  list the element is read from.
\<close>

datatype 'o prog = Ret 'o | Rd "Header list \<Rightarrow> Header list \<Rightarrow> 'o prog"

text \<open>The value of the expression for the two lists.\<close>

definition index_last :: "Header list \<Rightarrow> Header list \<Rightarrow> Header go" where
  "index_last lens elems =
     (if lens = [] then Inl IndexOutOfRange else go_index elems (length lens - 1))"

lemma index_last_same [simp]: "index_last hs hs = go_last hs"
  by (cases hs rule: rev_cases) (simp_all add: index_last_def go_index_def)

text \<open>A program that runs alone reads the same list every time.\<close>

primrec alone :: "'o prog \<Rightarrow> Header list \<Rightarrow> 'o" where
  "alone (Ret r) hs = r"
| "alone (Rd k) hs = alone (k hs hs) hs"

text \<open>\<open>GetPendingBlockNum\<close>, called by what goes on with its outcome.\<close>

definition GetPendingBlockNum_prog :: "int64 \<Rightarrow> (int64 go \<Rightarrow> 'o prog) \<Rightarrow> 'o prog" where
  "GetPendingBlockNum_prog timeNow k =
     Rd (\<lambda>lens elems. k (go_bind (index_last lens elems) (\<lambda>lastPendingBlock.
       if 2 <s timeNow - bh_Time lastPendingBlock then Inr 0
       else Inr (big_Int64 (bh_Number lastPendingBlock) + 1))))"

lemma alone_GetPendingBlockNum [simp]:
  "alone (GetPendingBlockNum_prog t k) hs = alone (k (GetPendingBlockNum hs t)) hs"
  by (simp add: GetPendingBlockNum_prog_def GetPendingBlockNum_def)

text \<open>
  \<open>RebuildTx\<close> calls \<open>GetPendingBlockNum\<close> for its log line and once more for the check.
\<close>

definition RebuildTx_prog ::
    "('tx, 'v) tx_env \<Rightarrow> string list \<Rightarrow> int \<Rightarrow> ('tx, 'v) NodeMgr \<Rightarrow> ('tx, 'v) NodeMgr outcome prog" where
  "RebuildTx_prog env symbolList txGasPrice n =
     (case go_index symbolList 0 of
        Inl p \<Rightarrow> Ret (n, Some p)
      | Inr symbol \<Rightarrow>
          let curSignal = GetLastSignalBySymbol (nm_Signals n) symbol in
          GetPendingBlockNum_prog (te_second env 0) (\<lambda>logged.
            case logged of
              Inl p \<Rightarrow> Ret (n, Some p)
            | Inr _ \<Rightarrow>
                GetPendingBlockNum_prog (te_second env 1) (\<lambda>pending.
                  case pending of
                    Inl p \<Rightarrow> Ret (n, Some p)
                  | Inr pendingBlockNum \<Rightarrow>
                      Ret (if pendingBlockNum \<le>s sg_TradeBlockNum curSignal
                        then Trade env curSignal (rebuild_gas_price (te_oob env) curSignal txGasPrice) n
                        else (n, None)))))"

definition after_decode_prog ::
    "('tx, 'v) tx_env \<Rightarrow> 'tx \<Rightarrow> string list \<times> bool \<Rightarrow> ('tx, 'v) NodeMgr \<Rightarrow> ('tx, 'v) NodeMgr outcome prog" where
  "after_decode_prog env tx d n =
     (case react (nm_Signals n \<noteq> []) d of
        Ignore \<Rightarrow> Ret (n, None)
      | Cancel \<Rightarrow> Ret (CancelTx n)
      | Rebuild symbolList \<Rightarrow> RebuildTx_prog env symbolList (te_gas_price env tx) n)"

definition enemy_tx_prog ::
    "('tx, 'v) tx_env \<Rightarrow> 'tx \<Rightarrow> PendingTx \<Rightarrow> ('tx, 'v) NodeMgr \<Rightarrow> ('tx, 'v) NodeMgr outcome prog" where
  "enemy_tx_prog env tx pendingTx n =
     (let n' = n\<lparr>nm_PendingTxList := window_push (nm_PendingTxList n) tx\<rparr> in
      Rd (\<lambda>lens elems.
        case index_last lens elems of
          Inl p \<Rightarrow> Ret (n', Some p)
        | Inr latestBlock \<Rightarrow>
            after_decode_prog env tx (Call_DecodeToSymbol (te_rpc env) (nm_PairSymbolMap n') pendingTx) n'))"

definition handle_tx_prog ::
    "('tx, 'v) tx_env \<Rightarrow> 'tx option \<Rightarrow> ('tx, 'v) NodeMgr \<Rightarrow> ('tx, 'v) NodeMgr outcome prog" where
  "handle_tx_prog env otx n =
     (case otx of
        None \<Rightarrow> Ret (n, Some NilDereference)
      | Some tx \<Rightarrow>
          (case Option.bind (json_parse (te_marshal env tx)) unmarshal_PendingTx of
             None \<Rightarrow> Ret (n, None)
           | Some px \<Rightarrow>
               let pendingTx = px\<lparr>px_From := te_sender env tx\<rparr>; toAddress = px_To pendingTx in
               (case nm_RouterMap n toAddress of
                  Some dexName \<Rightarrow>
                    (case Router_DecodeToSymbol (te_router env) (nm_rDecoder n) dexName pendingTx of
                       Inl p \<Rightarrow> Ret (n, Some p)
                     | Inr symbolList \<Rightarrow> after_decode_prog env tx (symbolList, False) n)
                | None \<Rightarrow>
                    if map_get False (nm_EnemiesMap n) toAddress
                    then enemy_tx_prog env tx pendingTx n
                    else after_decode_prog env tx ([], False) n)))"

definition handle_signal_prog ::
    "('tx, 'v) tx_env \<Rightarrow> bytes \<Rightarrow> ('tx, 'v) NodeMgr \<Rightarrow> ('tx, 'v) NodeMgr outcome prog" where
  "handle_signal_prog env data n =
     (case Option.bind (json_parse data) unmarshal_Signal of
        None \<Rightarrow> Ret (n, None)
      | Some signal \<Rightarrow>
          let n' = n\<lparr>nm_Signals := window_push (nm_Signals n) signal\<rparr> in
          if nm_PendingTxList n' \<noteq> []
          then GetPendingBlockNum_prog (te_second env 0) (\<lambda>logged.
            case logged of
              Inl p \<Rightarrow> Ret (n', Some p)
            | Inr _ \<Rightarrow> Ret (n', None))
          else Ret (n', None))"

text \<open>The program a received event starts, and the same handler as one function.\<close>

fun ga_prog ::
    "('tx, 'v) tx_env \<times> 'tx event \<Rightarrow> ('tx, 'v) NodeMgr \<Rightarrow> ('tx, 'v) NodeMgr outcome prog option" where
  "ga_prog (env, TxArrived otx) n = Some (handle_tx_prog env otx n)"
| "ga_prog (env, SignalArrived data) n = Some (handle_signal_prog env data n)"
| "ga_prog _ n = None"

fun ga_handler ::
    "('tx, 'v) tx_env \<times> 'tx event \<Rightarrow> ('tx, 'v) NodeMgr \<Rightarrow> ('tx, 'v) NodeMgr outcome" where
  "ga_handler (env, TxArrived otx) n = handle_tx env otx n"
| "ga_handler (env, SignalArrived data) n = handle_signal env data n"
| "ga_handler _ n = (n, None)"

section \<open>The interleaved system\<close>

text \<open>\<open>GaHalf e k hs\<close>: one of the two reads of an index expression is done and saw \<open>hs\<close>.\<close>

datatype ('tx, 'v) ga_pc =
    GaIdle
  | GaBusy "('tx, 'v) tx_env \<times> 'tx event" "('tx, 'v) NodeMgr outcome prog"
  | GaHalf "('tx, 'v) tx_env \<times> 'tx event" "Header list \<Rightarrow> Header list \<Rightarrow> ('tx, 'v) NodeMgr outcome prog"
      "Header list"
  | GaDown

datatype ('tx, 'v) sh_pc =
    ShIdle
  | ShTrim "('tx, 'v) tx_env \<times> 'tx event" Header
  | ShAppend "('tx, 'v) tx_env \<times> 'tx event" Header
  | ShDown

record ('tx, 'v) fine =
  fi_mgr :: "('tx, 'v) NodeMgr"
  fi_ga :: "('tx, 'v) ga_pc"
  fi_sh :: "('tx, 'v) sh_pc"

text \<open>
  The fields only \<open>GasPriceAnalyse\<close> uses; a handler's result takes them over.
\<close>

definition commit :: "('tx, 'v) NodeMgr \<Rightarrow> ('tx, 'v) NodeMgr \<Rightarrow> ('tx, 'v) NodeMgr" where
  "commit n' m = m\<lparr>nm_PendingTxList := nm_PendingTxList n', nm_Signals := nm_Signals n',
     nm_Outbox := nm_Outbox n', nm_Cancels := nm_Cancels n'\<rparr>"

definition trim :: "Header list \<Rightarrow> Header list" where
  "trim hs = (if 200 < length hs then drop 100 hs else hs)"

abbreviation trim_headers :: "('tx, 'v) NodeMgr \<Rightarrow> ('tx, 'v) NodeMgr" where
  "trim_headers n \<equiv> n\<lparr>nm_HeaderWsList := trim (nm_HeaderWsList n)\<rparr>"

text \<open>Go leaves the order of the two reads of an index expression open.\<close>

inductive fine_step ::
    "('tx, 'v) fine \<Rightarrow> (('tx, 'v) tx_env \<times> 'tx event) list \<Rightarrow> ('tx, 'v) fine \<Rightarrow> bool" where
  ga_take: "fi_ga f = GaIdle \<Longrightarrow> ga_prog e (fi_mgr f) = Some p \<Longrightarrow> fine_step f [e] (f\<lparr>fi_ga := GaBusy e p\<rparr>)"
| ga_read: "fi_ga f = GaBusy e (Rd k) \<Longrightarrow>
     fine_step f [] (f\<lparr>fi_ga := GaHalf e k (nm_HeaderWsList (fi_mgr f))\<rparr>)"
| ga_elem_second: "fi_ga f = GaHalf e k lens \<Longrightarrow>
     fine_step f [] (f\<lparr>fi_ga := GaBusy e (k lens (nm_HeaderWsList (fi_mgr f)))\<rparr>)"
| ga_len_second: "fi_ga f = GaHalf e k elems \<Longrightarrow>
     fine_step f [] (f\<lparr>fi_ga := GaBusy e (k (nm_HeaderWsList (fi_mgr f)) elems)\<rparr>)"
| ga_finish: "fi_ga f = GaBusy e (Ret (n', r)) \<Longrightarrow>
     fine_step f [] (f\<lparr>fi_mgr := commit n' (fi_mgr f), fi_ga := (if r = None then GaIdle else GaDown)\<rparr>)"
| ga_cancelled: "fi_ga f = GaIdle \<Longrightarrow> fine_step f [(env, GaDone)] (f\<lparr>fi_mgr := fst (handle_done (fi_mgr f))\<rparr>)"
| ga_again: "fi_ga f = GaDown \<Longrightarrow> fine_step f [(env, GaRestart)] (f\<lparr>fi_ga := GaIdle\<rparr>)"
| sh_closed: "fi_sh f = ShIdle \<Longrightarrow> fine_step f [(env, HeadArrived None)] (f\<lparr>fi_sh := ShDown\<rparr>)"
| sh_skip: "fi_sh f = ShIdle \<Longrightarrow> big_Int64 (bh_Number h) = 0 \<Longrightarrow> fine_step f [(env, HeadArrived (Some h))] f"
| sh_take: "fi_sh f = ShIdle \<Longrightarrow> big_Int64 (bh_Number h) \<noteq> 0 \<Longrightarrow>
     fine_step f [(env, HeadArrived (Some h))] (f\<lparr>fi_sh := ShTrim (env, HeadArrived (Some h)) h\<rparr>)"
| sh_trim: "fi_sh f = ShTrim e h \<Longrightarrow>
     fine_step f [] (f\<lparr>fi_mgr := trim_headers (fi_mgr f), fi_sh := ShAppend e h\<rparr>)"
| sh_append: "fi_sh f = ShAppend e h \<Longrightarrow>
     fine_step f [] (f\<lparr>fi_mgr := (fi_mgr f)\<lparr>nm_HeaderWsList := nm_HeaderWsList (fi_mgr f) @ [h]\<rparr>, fi_sh := ShIdle\<rparr>)"
| sh_cancelled: "fi_sh f = ShIdle \<Longrightarrow> fine_step f [(env, ShDone)] (f\<lparr>fi_mgr := fst (handle_done (fi_mgr f))\<rparr>)"
| sh_again: "fi_sh f = ShDown \<Longrightarrow> fine_step f [(env, ShRestart)] (f\<lparr>fi_sh := ShIdle\<rparr>)"

text \<open>A run all of whose steps satisfy \<open>ok\<close>.\<close>

inductive fine_run ::
    "(('tx, 'v) fine \<Rightarrow> ('tx, 'v) fine \<Rightarrow> bool) \<Rightarrow> ('tx, 'v) fine \<Rightarrow> (('tx, 'v) tx_env \<times> 'tx event) list
      \<Rightarrow> ('tx, 'v) fine \<Rightarrow> bool" for ok where
  fine_refl: "fine_run ok f [] f"
| fine_snoc: "fine_run ok f tr g \<Longrightarrow> fine_step g l h \<Longrightarrow> ok g h \<Longrightarrow> fine_run ok f (tr @ l) h"

abbreviation any_step :: "('tx, 'v) fine \<Rightarrow> ('tx, 'v) fine \<Rightarrow> bool" where
  "any_step f g \<equiv> True"

text \<open>The step does not change the list between the two reads of an index expression.\<close>

definition untorn :: "('tx, 'v) fine \<Rightarrow> ('tx, 'v) fine \<Rightarrow> bool" where
  "untorn f g \<longleftrightarrow>
     (case fi_ga f of GaHalf e k hs \<Rightarrow> nm_HeaderWsList (fi_mgr g) = nm_HeaderWsList (fi_mgr f) | _ \<Rightarrow> True)"

section \<open>A program that runs alone is the handler\<close>

definition own :: "('tx, 'v) NodeMgr \<Rightarrow> 'tx list \<times> Signal list \<times> (string \<times> TradingReqInfoWAP) list \<times> nat" where
  "own n = (nm_PendingTxList n, nm_Signals n, nm_Outbox n, nm_Cancels n)"

definition agree :: "('tx, 'v) NodeMgr \<Rightarrow> ('tx, 'v) NodeMgr \<Rightarrow> bool" where
  "agree n m \<longleftrightarrow> own n = own m \<and> nm_RouterMap n = nm_RouterMap m \<and> nm_EnemiesMap n = nm_EnemiesMap m \<and>
     nm_PairSymbolMap n = nm_PairSymbolMap m \<and> nm_rDecoder n = nm_rDecoder m"

definition same_outcome :: "('tx, 'v) NodeMgr outcome \<Rightarrow> ('tx, 'v) NodeMgr outcome \<Rightarrow> bool" where
  "same_outcome a b \<longleftrightarrow> own (fst a) = own (fst b) \<and> snd a = snd b"

lemma agree_simps:
  assumes "agree n m"
  shows "nm_PendingTxList n = nm_PendingTxList m" "nm_Signals n = nm_Signals m" "nm_Outbox n = nm_Outbox m"
    "nm_Cancels n = nm_Cancels m" "nm_RouterMap n = nm_RouterMap m" "nm_EnemiesMap n = nm_EnemiesMap m"
    "nm_PairSymbolMap n = nm_PairSymbolMap m" "nm_rDecoder n = nm_rDecoder m"
  using assms by (simp_all add: agree_def own_def)

lemma same_Trade: "agree n m \<Longrightarrow> same_outcome (Trade env sg g n) (Trade env sg g m)"
  by (simp add: same_outcome_def Trade_cases own_def agree_simps)

lemma same_state: "agree n m \<Longrightarrow> same_outcome (n, r) (m, r)"
  by (simp add: same_outcome_def agree_def)

lemma alone_RebuildTx:
  "agree n m \<Longrightarrow> same_outcome (alone (RebuildTx_prog env ss g n) (nm_HeaderWsList m)) (RebuildTx env ss g m)"
  by (simp add: RebuildTx_prog_def RebuildTx_def Let_def same_state same_Trade agree_simps split: sum.split)

lemma alone_after_decode:
  "agree n m \<Longrightarrow>
     same_outcome (alone (after_decode_prog env tx d n) (nm_HeaderWsList m)) (after_decode env tx d m)"
  by (simp add: after_decode_prog_def after_decode_def agree_simps alone_RebuildTx same_state split: reaction.split)
    (simp add: CancelTx_def same_outcome_def own_def agree_simps)

lemma agree_log:
  "agree n m \<Longrightarrow> agree (n\<lparr>nm_PendingTxList := txs\<rparr>) (m\<lparr>nm_PendingTxList := txs\<rparr>)"
  "agree n m \<Longrightarrow> agree (n\<lparr>nm_Signals := ss\<rparr>) (m\<lparr>nm_Signals := ss\<rparr>)"
  by (simp_all add: agree_def own_def)

lemma alone_enemy_tx:
  assumes "agree n m"
  shows "same_outcome (alone (enemy_tx_prog env tx px n) (nm_HeaderWsList m)) (enemy_tx env tx px m)"
proof -
  let ?txs = "window_push (nm_PendingTxList m) tx"
  have a: "agree (n\<lparr>nm_PendingTxList := ?txs\<rparr>) (m\<lparr>nm_PendingTxList := ?txs\<rparr>)"
    using assms by (rule agree_log)
  from alone_after_decode [OF this] same_state [OF a] show ?thesis
    using assms by (simp add: enemy_tx_prog_def enemy_tx_def Let_def agree_simps split: sum.split)
qed

lemma alone_handler:
  assumes "agree n m" and "ga_prog e n = Some p"
  shows "same_outcome (alone p (nm_HeaderWsList m)) (ga_handler e m)"
  using assms(2)
proof (cases rule: ga_prog.elims)
  case (1 env otx n')
  then have p: "p = handle_tx_prog env otx n" by simp
  have "same_outcome (alone (handle_tx_prog env otx n) (nm_HeaderWsList m)) (handle_tx env otx m)"
    using assms(1)
    by (simp add: handle_tx_prog_def handle_tx_def Let_def agree_simps same_state alone_enemy_tx alone_after_decode
        split: option.split sum.split)
  with 1 p show ?thesis by simp
next
  case (2 env data n')
  have "same_outcome (alone (handle_signal_prog env data n) (nm_HeaderWsList m)) (handle_signal env data m)"
    using assms(1) same_state [OF agree_log(2) [OF assms(1)]]
    by (simp add: handle_signal_prog_def handle_signal_def Let_def agree_simps same_state split: option.split sum.split)
  with 2 show ?thesis by simp
qed simp_all

end
