(* ===== verification/Mgr_Serializable.thy ===== *)
theory Mgr_Serializable
  imports Mgr_Interleaved Sample_Chain
begin

text \<open>
  The interleaved manager simulates the one of \<open>Mgr_System\<close>, whose handlers are atomic: a
  handler takes effect at its last access to \<open>HeaderWsList\<close>, a header when it is appended.
  What a handler read before only decides whether there is a header, and a list with a
  header never loses its last one. This holds for the runs in which the list does not
  change between the two reads of an index expression; \<open>Mgr_Torn\<close> has one in which it does.
\<close>

section \<open>Only the last read matters\<close>

text \<open>
  What a program does with the list: an empty one ends it, only the last header counts,
  and only the final read does anything but decide whether there is a header at all.
\<close>

primrec steady :: "'o prog \<Rightarrow> bool" where
  "steady (Ret r) \<longleftrightarrow> True"
| "steady (Rd k) \<longleftrightarrow>
     (\<forall>hs. steady (k hs hs)) \<and> (\<exists>r. k [] [] = Ret r) \<and>
     (\<forall>hs hs'. hs \<noteq> [] \<longrightarrow> hs' \<noteq> [] \<longrightarrow> last hs = last hs' \<longrightarrow> k hs hs = k hs' hs') \<and>
     (\<forall>hs hs'. hs \<noteq> [] \<longrightarrow> hs' \<noteq> [] \<longrightarrow> (\<exists>r. k hs hs = Ret r) \<or> k hs hs = k hs' hs')"

lemma go_last_if: "go_last hs = (if hs = [] then Inl IndexOutOfRange else Inr (last hs))"
  by (cases hs) (simp_all add: go_last_def)

lemma steady_RebuildTx: "steady (RebuildTx_prog env ss g n)"
  by (simp add: RebuildTx_prog_def GetPendingBlockNum_prog_def go_last_if Let_def split: sum.split)

lemma steady_after_decode: "steady (after_decode_prog env tx d n)"
  by (simp add: after_decode_prog_def steady_RebuildTx split: reaction.split)

lemma steady_enemy_tx: "steady (enemy_tx_prog env tx px n)"
  by (simp add: enemy_tx_prog_def Let_def go_last_if steady_after_decode)

declare steady.simps(2) [simp del]

lemma steady_Rd:
  assumes "steady (Rd k)"
  shows "steady (k hs hs)" and "k hs hs = Rd k' \<Longrightarrow> hs \<noteq> []"
    and "hs \<noteq> [] \<Longrightarrow> hs' \<noteq> [] \<Longrightarrow> last hs = last hs' \<Longrightarrow> k hs hs = k hs' hs'"
    and "hs \<noteq> [] \<Longrightarrow> hs' \<noteq> [] \<Longrightarrow> k hs hs = Rd k' \<Longrightarrow> k hs' hs' = Rd k'"
proof -
  note s = assms [unfolded steady.simps(2)]
  from s show "steady (k hs hs)" by blast
  from s show "k hs hs = Rd k' \<Longrightarrow> hs \<noteq> []" by (metis prog.distinct(1))
  from s show "hs \<noteq> [] \<Longrightarrow> hs' \<noteq> [] \<Longrightarrow> last hs = last hs' \<Longrightarrow> k hs hs = k hs' hs'" by blast
  from s show "hs \<noteq> [] \<Longrightarrow> hs' \<noteq> [] \<Longrightarrow> k hs hs = Rd k' \<Longrightarrow> k hs' hs' = Rd k'" by (metis prog.distinct(1))
qed

lemma steady_handler: "ga_prog e n = Some p \<Longrightarrow> steady p"
proof (cases "(e, n)" rule: ga_prog.cases)
  case (1 env otx n')
  have "steady (handle_tx_prog env otx n)"
    by (simp add: handle_tx_prog_def Let_def steady_enemy_tx steady_after_decode
        split: option.split sum.split)
  with 1 show "ga_prog e n = Some p \<Longrightarrow> ?thesis" by auto
next
  case (2 env data n')
  have "steady (handle_signal_prog env data n)"
    by (simp add: handle_signal_prog_def Let_def steady.simps(2) GetPendingBlockNum_prog_def go_last_if split: option.split)
  with 2 show "ga_prog e n = Some p \<Longrightarrow> ?thesis" by auto
qed simp_all

section \<open>The simulation\<close>

text \<open>
  The contract of a simulation that may take the events of different lanes in another
  order, but never those of one lane: a step of the detailed system is no step or one step
  of the abstract one, and the events taken and not yet accounted for are pending.
\<close>

locale lane_simulation =
  fixes step :: "'f \<Rightarrow> 'e list \<Rightarrow> 'f \<Rightarrow> bool"
    and astep :: "'a \<Rightarrow> 'e \<Rightarrow> 'a \<Rightarrow> bool"
    and match :: "'f \<Rightarrow> 'a \<Rightarrow> bool"
    and pending :: "'f \<Rightarrow> 'e list"
    and lane :: "'e \<Rightarrow> 'c"
  assumes sim: "match f a \<Longrightarrow> step f l f' \<Longrightarrow>
    (\<exists>l' a'. match f' a' \<and> (l' = [] \<and> a' = a \<or> (\<exists>e. l' = [e] \<and> astep a e a')) \<and>
       (\<forall>c. filter (\<lambda>e. lane e = c) (pending f @ l) = filter (\<lambda>e. lane e = c) (l' @ pending f')))"
begin

definition traces_match :: "'e list \<Rightarrow> 'e list \<Rightarrow> 'f \<Rightarrow> bool" where
  "traces_match tr tr' f \<longleftrightarrow> (\<forall>c. filter (\<lambda>e. lane e = c) tr = filter (\<lambda>e. lane e = c) (tr' @ pending f))"

lemma simulate:
  assumes "match f a" and "traces_match tr tr' f" and "step f l f'"
  obtains l' a' where "match f' a'" and "l' = [] \<and> a' = a \<or> (\<exists>e. l' = [e] \<and> astep a e a')"
    and "traces_match (tr @ l) (tr' @ l') f'"
proof -
  from sim [OF assms(1,3)] obtain l' a' where *: "match f' a'" "l' = [] \<and> a' = a \<or> (\<exists>e. l' = [e] \<and> astep a e a')"
    "\<forall>c. filter (\<lambda>e. lane e = c) (pending f @ l) = filter (\<lambda>e. lane e = c) (l' @ pending f')"
    by blast
  have "traces_match (tr @ l) (tr' @ l') f'"
    using assms(2) *(3) by (simp add: traces_match_def)
  with * show thesis by (intro that)
qed

end

definition is_ga :: "('tx, 'v) tx_env \<times> 'tx event \<Rightarrow> bool" where
  "is_ga e \<longleftrightarrow> (case snd e of TxArrived _ \<Rightarrow> True | SignalArrived _ \<Rightarrow> True | GaDone \<Rightarrow> True | GaRestart \<Rightarrow> True | _ \<Rightarrow> False)"

definition pending_events :: "('tx, 'v) fine \<Rightarrow> (('tx, 'v) tx_env \<times> 'tx event) list" where
  "pending_events f =
     (case fi_ga f of GaBusy e (Rd k) \<Rightarrow> [e] | GaHalf e k hs \<Rightarrow> [e] | _ \<Rightarrow> []) @
     (case fi_sh f of ShTrim e h \<Rightarrow> [e] | ShAppend e h \<Rightarrow> [e] | _ \<Rightarrow> [])"

text \<open>
  A handler takes effect, in the system with atomic handlers, at its last read; the header
  loop at its append. \<open>seen\<close> says that an earlier read found a header.
\<close>

definition resumes ::
    "(Header list \<Rightarrow> Header list \<Rightarrow> ('tx, 'v) NodeMgr outcome prog) \<Rightarrow> ('tx, 'v) tx_env \<times> 'tx event \<Rightarrow> ('tx, 'v) NodeMgr \<Rightarrow> bool" where
  "resumes k e a \<longleftrightarrow>
     (\<exists>seen. (seen \<longrightarrow> nm_HeaderWsList a \<noteq> []) \<and>
        (\<forall>m. agree m a \<longrightarrow> (seen \<longrightarrow> nm_HeaderWsList m \<noteq> []) \<longrightarrow>
           same_outcome (alone (Rd k) (nm_HeaderWsList m)) (ga_handler e m)))"

definition awaits_read ::
    "(Header list \<Rightarrow> Header list \<Rightarrow> ('tx, 'v) NodeMgr outcome prog) \<Rightarrow> ('tx, 'v) tx_env \<times> 'tx event
      \<Rightarrow> ('tx, 'v) NodeMgr \<Rightarrow> ('tx, 'v) NodeMgr \<Rightarrow> loop \<Rightarrow> bool" where
  "awaits_read k e n a l \<longleftrightarrow>
     l = Running \<and> agree n a \<and> steady (Rd k) \<and> is_ga e \<and> (\<exists>m. ga_prog e m \<noteq> None) \<and> resumes k e a"

fun ga_match :: "('tx, 'v) ga_pc \<Rightarrow> ('tx, 'v) NodeMgr \<Rightarrow> ('tx, 'v) NodeMgr \<Rightarrow> loop \<Rightarrow> bool" where
  "ga_match GaIdle n a l \<longleftrightarrow> l = Running \<and> agree n a"
| "ga_match GaDown n a l \<longleftrightarrow> l = Recovering \<and> agree n a"
| "ga_match (GaBusy e (Ret r)) n a l \<longleftrightarrow> l = loop_after (snd r) \<and> agree (commit (fst r) n) a"
| "ga_match (GaBusy e (Rd k)) n a l \<longleftrightarrow> awaits_read k e n a l"
| "ga_match (GaHalf e k hs) n a l \<longleftrightarrow> awaits_read k e n a l \<and> nm_HeaderWsList n = hs"

fun sh_match :: "('tx, 'v) sh_pc \<Rightarrow> Header list \<Rightarrow> Header list \<Rightarrow> loop \<Rightarrow> bool" where
  "sh_match ShIdle hs as l \<longleftrightarrow> l = Running \<and> hs = as"
| "sh_match ShDown hs as l \<longleftrightarrow> l = Recovering \<and> hs = as"
| "sh_match (ShTrim e h) hs as l \<longleftrightarrow>
     l = Running \<and> hs = as \<and> snd e = HeadArrived (Some h) \<and> big_Int64 (bh_Number h) \<noteq> 0"
| "sh_match (ShAppend e h) hs as l \<longleftrightarrow>
     l = Running \<and> hs = trim as \<and> snd e = HeadArrived (Some h) \<and> big_Int64 (bh_Number h) \<noteq> 0"

definition sys_match :: "('tx, 'v) fine \<Rightarrow> ('tx, 'v) sys \<Rightarrow> bool" where
  "sys_match f s \<longleftrightarrow>
     nm_WsCloses (fi_mgr f) = nm_WsCloses (sy_mgr s) \<and>
     sh_match (fi_sh f) (nm_HeaderWsList (fi_mgr f)) (nm_HeaderWsList (sy_mgr s)) (sy_sh s) \<and>
     ga_match (fi_ga f) (fi_mgr f) (sy_mgr s) (sy_ga s)"

lemma agree_trans: "agree a b \<Longrightarrow> agree b c \<Longrightarrow> agree a c"
  and agree_sym: "agree a b \<Longrightarrow> agree b a"
  and agree_refl [simp]: "agree a a"
  by (simp_all add: agree_def)

lemma agree_upd [simp]:
  "agree (n\<lparr>nm_HeaderWsList := hs\<rparr>) m \<longleftrightarrow> agree n m" "agree n (m\<lparr>nm_HeaderWsList := hs\<rparr>) \<longleftrightarrow> agree n m"
  "agree (n\<lparr>nm_WsCloses := w\<rparr>) m \<longleftrightarrow> agree n m" "agree n (m\<lparr>nm_WsCloses := w\<rparr>) \<longleftrightarrow> agree n m"
  "commit n' (n\<lparr>nm_HeaderWsList := hs\<rparr>) = (commit n' n)\<lparr>nm_HeaderWsList := hs\<rparr>"
  "commit n' (n\<lparr>nm_WsCloses := w\<rparr>) = (commit n' n)\<lparr>nm_WsCloses := w\<rparr>"
  by (simp_all add: agree_def own_def commit_def)

lemma commit_simps [simp]:
  "nm_HeaderWsList (commit n' n) = nm_HeaderWsList n" "nm_WsCloses (commit n' n) = nm_WsCloses n"
  "own (commit n' n) = own n'"
  by (simp_all add: commit_def own_def)

lemma trim_simps [simp]: "trim hs = [] \<longleftrightarrow> hs = []" "hs \<noteq> [] \<Longrightarrow> last (trim hs) = last hs"
  by (auto simp: trim_def)

lemma window_push_trim: "window_push hs h = trim hs @ [h]"
  by (simp add: window_push_def trim_def)

lemma sh_match_last:
  assumes "sh_match pc hs as l"
  shows "hs = [] \<longleftrightarrow> as = []" and "as \<noteq> [] \<Longrightarrow> last hs = last as"
  using assms by (cases pc; auto)+

text \<open>The other loop's steps do not disturb a handler in flight.\<close>

lemma resumes_headers:
  "resumes k e a \<Longrightarrow> (nm_HeaderWsList a \<noteq> [] \<Longrightarrow> hs \<noteq> []) \<Longrightarrow> resumes k e (a\<lparr>nm_HeaderWsList := hs\<rparr>)"
  "resumes k e a \<Longrightarrow> resumes k e (a\<lparr>nm_WsCloses := w\<rparr>)"
  unfolding resumes_def by auto

definition keeps_half :: "('tx, 'v) ga_pc \<Rightarrow> Header list \<Rightarrow> ('tx, 'v) NodeMgr \<Rightarrow> bool" where
  "keeps_half pc hs n \<longleftrightarrow> (case pc of GaHalf e k hs' \<Rightarrow> hs = nm_HeaderWsList n | _ \<Rightarrow> True)"

lemma untorn_keeps_half: "untorn f g \<longleftrightarrow> keeps_half (fi_ga f) (nm_HeaderWsList (fi_mgr g)) (fi_mgr f)"
  by (simp add: untorn_def keeps_half_def split: ga_pc.split)

lemma ga_match_headers:
  "ga_match pc n a l \<Longrightarrow> (nm_HeaderWsList a \<noteq> [] \<Longrightarrow> hs \<noteq> []) \<Longrightarrow> keeps_half pc hs' n \<Longrightarrow>
     ga_match pc (n\<lparr>nm_HeaderWsList := hs'\<rparr>) (a\<lparr>nm_HeaderWsList := hs\<rparr>) l"
  "ga_match pc n a l \<Longrightarrow> keeps_half pc hs' n \<Longrightarrow> ga_match pc (n\<lparr>nm_HeaderWsList := hs'\<rparr>) a l"
  "ga_match pc n a l \<Longrightarrow> ga_match pc (n\<lparr>nm_WsCloses := w\<rparr>) (a\<lparr>nm_WsCloses := w'\<rparr>) l"
  by (cases "(pc, n, a, l)" rule: ga_match.cases; simp add: awaits_read_def resumes_headers keeps_half_def)+

lemma handler_frame:
  "\<exists>txs sgs ob. fst (ga_handler e m) = m\<lparr>nm_PendingTxList := txs, nm_Signals := sgs, nm_Outbox := ob\<rparr>"
proof -
  have id: "\<exists>txs sgs ob. m = m\<lparr>nm_PendingTxList := txs, nm_Signals := sgs, nm_Outbox := ob\<rparr>"
    by (intro exI [of _ "nm_PendingTxList m"] exI [of _ "nm_Signals m"] exI [of _ "nm_Outbox m"]) simp
  show ?thesis
  proof (cases "(e, m)" rule: ga_handler.cases)
    case (1 env otx n)
    obtain txs ob where "fst (handle_tx env otx m) = m\<lparr>nm_PendingTxList := txs, nm_Outbox := ob\<rparr>"
      using handle_tx_frame by blast
    with 1 show ?thesis
      by (intro exI [of _ txs] exI [of _ "nm_Signals m"] exI [of _ ob]) simp
  next
    case (2 env data n)
    obtain sgs where "fst (handle_signal env data m) = m\<lparr>nm_Signals := sgs\<rparr>"
      using handle_signal_frame by blast
    with 2 show ?thesis
      by (intro exI [of _ "nm_PendingTxList m"] exI [of _ sgs] exI [of _ "nm_Outbox m"]) simp
  qed (use id in simp_all)
qed

lemma handler_keeps:
  "nm_HeaderWsList (fst (ga_handler e m)) = nm_HeaderWsList m"
  "nm_WsCloses (fst (ga_handler e m)) = nm_WsCloses m"
  "nm_RouterMap (fst (ga_handler e m)) = nm_RouterMap m" "nm_EnemiesMap (fst (ga_handler e m)) = nm_EnemiesMap m"
  "nm_PairSymbolMap (fst (ga_handler e m)) = nm_PairSymbolMap m" "nm_rDecoder (fst (ga_handler e m)) = nm_rDecoder m"
  using handler_frame [of e m] by auto

text \<open>A handler whose program has done its last read takes effect.\<close>

lemma handler_fires:
  assumes "same_outcome r (ga_handler e a)" and "agree n a"
  shows "ga_match (GaBusy e (Ret r)) n (fst (ga_handler e a)) (loop_after (snd (ga_handler e a)))"
  using assms by (simp add: same_outcome_def agree_def handler_keeps commit_def own_def)

lemma ga_prog_event: "ga_prog e n = Some p \<Longrightarrow> is_ga e \<and> (\<exists>m. ga_prog e m \<noteq> None)"
  by (cases "(e, n)" rule: ga_prog.cases) (auto simp: is_ga_def)

lemma handler_step:
  "ga_prog e m = Some p \<Longrightarrow> sy_ga s = Running \<Longrightarrow> sys_step s e (ga_outcome s (ga_handler e (sy_mgr s)))"
  by (cases "(e, m)" rule: ga_prog.cases) (auto simp: sys_step_simps)

lemma read_last:
  assumes "awaits_read k e n a l" and "k hs hs = Ret r"
    and "hs = [] \<longleftrightarrow> nm_HeaderWsList a = []" and "nm_HeaderWsList a \<noteq> [] \<Longrightarrow> last hs = last (nm_HeaderWsList a)"
  shows "same_outcome r (ga_handler e a)"
proof -
  let ?as = "nm_HeaderWsList a"
  have "k ?as ?as = k hs hs"
  proof (cases "hs = []")
    case True
    then show ?thesis using assms(3) by simp
  next
    case False
    moreover have "steady (Rd k)" using assms(1) by (simp add: awaits_read_def)
    ultimately show ?thesis using assms(3,4) steady_Rd(3) by metis
  qed
  moreover have "same_outcome (alone (Rd k) ?as) (ga_handler e a)"
    using assms(1) by (auto simp: awaits_read_def resumes_def)
  ultimately show ?thesis using assms(2) by simp
qed

lemma read_more:
  assumes "awaits_read k e n a l" and "k hs hs = Rd k'" and "hs = [] \<longleftrightarrow> nm_HeaderWsList a = []"
  shows "awaits_read k' e n a l"
proof -
  have st: "steady (Rd k)" using assms(1) by (simp add: awaits_read_def)
  have "hs \<noteq> []" by (rule steady_Rd(2) [OF st assms(2)])
  have same: "k hs' hs' = Rd k'" if "hs' \<noteq> []" for hs'
    by (rule steady_Rd(4) [OF st \<open>hs \<noteq> []\<close> that assms(2)])
  have "steady (Rd k')" using steady_Rd(1) [OF st, of hs] assms(2) by simp
  moreover have "resumes k' e a"
    unfolding resumes_def
  proof (intro exI [of _ True] conjI allI impI)
    show "nm_HeaderWsList a \<noteq> []" using \<open>hs \<noteq> []\<close> assms(3) by simp
    fix m
    assume m: "agree m a" "True \<longrightarrow> nm_HeaderWsList m \<noteq> []"
    then have "same_outcome (alone (Rd k) (nm_HeaderWsList m)) (ga_handler e m)"
      using assms(1) by (auto simp: awaits_read_def resumes_def)
    then show "same_outcome (alone (Rd k') (nm_HeaderWsList m)) (ga_handler e m)"
      using same m by simp
  qed
  ultimately show ?thesis using assms(1) by (simp add: awaits_read_def)
qed

text \<open>One step, on either side.\<close>

definition mimics ::
    "('tx, 'v) fine \<Rightarrow> (('tx, 'v) tx_env \<times> 'tx event) list \<Rightarrow> ('tx, 'v) fine \<Rightarrow> ('tx, 'v) sys \<Rightarrow>
     (('tx, 'v) tx_env \<times> 'tx event) list \<Rightarrow> ('tx, 'v) sys \<Rightarrow> bool" where
  "mimics f l f' s l' s' \<longleftrightarrow>
     sys_match f' s' \<and> (l' = [] \<and> s' = s \<or> (\<exists>e. l' = [e] \<and> sys_step s e s')) \<and>
     (\<forall>c. filter (\<lambda>e. is_ga e = c) (pending_events f @ l) = filter (\<lambda>e. is_ga e = c) (l' @ pending_events f'))"

lemma mimics_none:
  "sys_match f' s \<Longrightarrow> (\<And>c. filter (\<lambda>e. is_ga e = c) (pending_events f @ l) = filter (\<lambda>e. is_ga e = c) (pending_events f')) \<Longrightarrow>
     mimics f l f' s [] s"
  by (simp add: mimics_def)

lemma mimics_one:
  "sys_step s e s' \<Longrightarrow> sys_match f' s' \<Longrightarrow>
     (\<And>c. filter (\<lambda>e. is_ga e = c) (pending_events f @ l) = filter (\<lambda>e. is_ga e = c) (e # pending_events f')) \<Longrightarrow>
     mimics f l f' s [e] s'"
  by (simp add: mimics_def)

lemma sh_pending_not_ga:
  "sh_match pc hs as l \<Longrightarrow> e \<in> set (case pc of ShTrim e h \<Rightarrow> [e] | ShAppend e h \<Rightarrow> [e] | _ \<Rightarrow> []) \<Longrightarrow> \<not> is_ga e"
  by (cases pc) (auto simp: is_ga_def)

lemma sim_fires:
  assumes m: "sys_match f s" and run: "sy_ga s = Running" and ag: "agree (fi_mgr f) (sy_mgr s)"
    and p: "ga_prog e q \<noteq> None" and o: "same_outcome r (ga_handler e (sy_mgr s))"
    and f': "f' = f\<lparr>fi_ga := GaBusy e (Ret r)\<rparr>"
  shows "sys_step s e (ga_outcome s (ga_handler e (sy_mgr s))) \<and>
     sys_match f' (ga_outcome s (ga_handler e (sy_mgr s)))"
proof
  from p obtain pr where "ga_prog e q = Some pr" by blast
  then show "sys_step s e (ga_outcome s (ga_handler e (sy_mgr s)))" using run by (rule handler_step)
  show "sys_match f' (ga_outcome s (ga_handler e (sy_mgr s)))"
    using m handler_fires [OF o ag] by (simp add: sys_match_def f' handler_keeps)
qed

lemma read_simulated:
  assumes "sys_match f s" and "fi_ga f = GaHalf e k hs"
  shows "\<exists>l' s'. mimics f [] (f\<lparr>fi_ga := GaBusy e (k hs hs)\<rparr>) s l' s'"
proof -
  let ?a = "sy_mgr s"
  have aw: "awaits_read k e (fi_mgr f) ?a (sy_ga s)" and hs: "nm_HeaderWsList (fi_mgr f) = hs"
    and sm: "sh_match (fi_sh f) hs (nm_HeaderWsList ?a) (sy_sh s)"
    using assms by (auto simp: sys_match_def)
  note hl = sh_match_last [OF sm]
  have st: "sy_ga s = Running" "agree (fi_mgr f) ?a" "is_ga e" using aw by (auto simp: awaits_read_def)
  obtain q where q: "ga_prog e q \<noteq> None" using aw by (auto simp: awaits_read_def)
  show ?thesis
  proof (cases "k hs hs")
    case (Ret r)
    have o: "same_outcome r (ga_handler e ?a)" by (rule read_last [OF aw Ret hl])
    note s = sim_fires [OF assms(1) st(1,2) q o refl]
    have "mimics f [] (f\<lparr>fi_ga := GaBusy e (k hs hs)\<rparr>) s [e] (ga_outcome s (ga_handler e ?a))"
      unfolding Ret using s assms(2) by (intro mimics_one) (auto simp: pending_events_def)
    then show ?thesis by blast
  next
    case (Rd k')
    have "sys_match (f\<lparr>fi_ga := GaBusy e (k hs hs)\<rparr>) s"
      using assms(1) read_more [OF aw Rd hl(1)] Rd by (simp add: sys_match_def)
    then have "mimics f [] (f\<lparr>fi_ga := GaBusy e (k hs hs)\<rparr>) s [] s"
      using assms(2) Rd by (intro mimics_none) (auto simp: pending_events_def)
    then show ?thesis by blast
  qed
qed

lemma simulation_step:
  assumes "sys_match f s" and "fine_step f l f'" and "untorn f f'"
  shows "\<exists>l' s'. mimics f l f' s l' s'"
  using assms(2,1,3)
proof (induction rule: fine_step.induct)
  case (ga_take f e p)
  then have ag: "sy_ga s = Running" "agree (fi_mgr f) (sy_mgr s)" by (auto simp: sys_match_def)
  have ev: "is_ga e" "\<exists>m. ga_prog e m \<noteq> None" using ga_prog_event [OF ga_take(2)] by auto
  have al: "same_outcome (alone p (nm_HeaderWsList m)) (ga_handler e m)" if "agree m (sy_mgr s)" for m
    by (rule alone_handler [OF agree_trans [OF ag(2) agree_sym [OF that]] ga_take(2)])
  show ?case
  proof (cases p)
    case (Ret r)
    have o: "same_outcome r (ga_handler e (sy_mgr s))" using al [of "sy_mgr s"] Ret by simp
    have "ga_prog e (fi_mgr f) \<noteq> None" using ga_take(2) by simp
    note s = sim_fires [OF ga_take.prems(1) ag this o refl]
    have "mimics f [e] (f\<lparr>fi_ga := GaBusy e p\<rparr>) s [e] (ga_outcome s (ga_handler e (sy_mgr s)))"
      unfolding Ret using s ga_take(1) ev(1) sh_pending_not_ga [of "fi_sh f"] ga_take.prems
      by (intro mimics_one) (auto simp: pending_events_def sys_match_def filter_empty_conv split: sh_pc.splits)
    then show ?thesis by blast
  next
    case (Rd k)
    have "resumes k e (sy_mgr s)"
      unfolding resumes_def using al Rd by (intro exI [of _ False]) auto
    then have "sys_match (f\<lparr>fi_ga := GaBusy e p\<rparr>) s"
      using ga_take.prems ag ev steady_handler [OF ga_take(2)] Rd by (auto simp: sys_match_def awaits_read_def)
    then have "mimics f [e] (f\<lparr>fi_ga := GaBusy e p\<rparr>) s [] s"
      using ga_take(1) Rd ev(1) sh_pending_not_ga [of "fi_sh f"] ga_take.prems
      by (intro mimics_none) (auto simp: pending_events_def sys_match_def split: sh_pc.splits)
    then show ?thesis by blast
  qed
next
  case (ga_read f e k)
  let ?f = "f\<lparr>fi_ga := GaHalf e k (nm_HeaderWsList (fi_mgr f))\<rparr>"
  have "sys_match ?f s" using ga_read by (simp add: sys_match_def)
  then have "mimics f [] ?f s [] s"
    using ga_read(1) by (intro mimics_none) (auto simp: pending_events_def)
  then show ?case by blast
next
  case (ga_elem_second f e k lens)
  then have "nm_HeaderWsList (fi_mgr f) = lens" by (simp add: sys_match_def)
  with read_simulated [OF ga_elem_second.prems(1) ga_elem_second(1)] show ?case by simp
next
  case (ga_len_second f e k elems)
  then have "nm_HeaderWsList (fi_mgr f) = elems" by (simp add: sys_match_def)
  with read_simulated [OF ga_len_second.prems(1) ga_len_second(1)] show ?case by simp
next
  case (ga_finish f e n' r)
  let ?f = "f\<lparr>fi_mgr := commit n' (fi_mgr f), fi_ga := (if r = None then GaIdle else GaDown)\<rparr>"
  have "sys_match ?f s"
    using ga_finish by (auto simp: sys_match_def loop_after_def)
  then have "mimics f [] ?f s [] s"
    using ga_finish(1) by (intro mimics_none) (auto simp: pending_events_def)
  then show ?case by blast
next
  case (ga_cancelled f env)
  have "mimics f [(env, GaDone)] (f\<lparr>fi_mgr := fst (handle_done (fi_mgr f))\<rparr>) s [(env, GaDone)]
      (ga_outcome s (handle_done (sy_mgr s)))"
    using ga_cancelled sh_pending_not_ga [of "fi_sh f"]
    by (intro mimics_one) (auto simp: pending_events_def sys_match_def sys_step_simps handle_done_def loop_after_def
        is_ga_def split: sh_pc.splits)
  then show ?case by blast
next
  case (ga_again f env)
  have "mimics f [(env, GaRestart)] (f\<lparr>fi_ga := GaIdle\<rparr>) s [(env, GaRestart)] (s\<lparr>sy_ga := Running\<rparr>)"
    using ga_again sh_pending_not_ga [of "fi_sh f"]
    by (intro mimics_one) (auto simp: pending_events_def sys_match_def sys_step_simps is_ga_def split: sh_pc.splits)
  then show ?case by blast
next
  case (sh_closed f env)
  have "mimics f [(env, HeadArrived None)] (f\<lparr>fi_sh := ShDown\<rparr>) s [(env, HeadArrived None)]
      (sh_outcome s (handle_head None (sy_mgr s)))"
    using sh_closed by (intro mimics_one)
      (auto simp: pending_events_def sys_match_def awaits_read_def sys_step_simps handle_head_def loop_after_def is_ga_def
        split: ga_pc.splits prog.splits)
  then show ?case by blast
next
  case (sh_skip f h env)
  have "mimics f [(env, HeadArrived (Some h))] f s [(env, HeadArrived (Some h))]
      (sh_outcome s (handle_head (Some h) (sy_mgr s)))"
    using sh_skip by (intro mimics_one)
      (auto simp: pending_events_def sys_match_def awaits_read_def sys_step_simps handle_head_def loop_after_def is_ga_def
        split: ga_pc.splits prog.splits)
  then show ?case by blast
next
  case (sh_take f h env)
  have "mimics f [(env, HeadArrived (Some h))] (f\<lparr>fi_sh := ShTrim (env, HeadArrived (Some h)) h\<rparr>) s [] s"
    using sh_take by (intro mimics_none)
      (auto simp: pending_events_def sys_match_def awaits_read_def is_ga_def split: ga_pc.splits prog.splits)
  then show ?case by blast
next
  case (sh_trim f e h)
  have "mimics f [] (f\<lparr>fi_mgr := trim_headers (fi_mgr f), fi_sh := ShAppend e h\<rparr>) s [] s"
    using sh_trim by (intro mimics_none)
      (auto simp: pending_events_def sys_match_def ga_match_headers untorn_keeps_half)
  then show ?case by blast
next
  case (sh_append f e h)
  obtain env where e: "e = (env, HeadArrived (Some h))" and nz: "big_Int64 (bh_Number h) \<noteq> 0"
    using sh_append by (cases e) (auto simp: sys_match_def)
  let ?f = "f\<lparr>fi_mgr := (fi_mgr f)\<lparr>nm_HeaderWsList := nm_HeaderWsList (fi_mgr f) @ [h]\<rparr>, fi_sh := ShIdle\<rparr>"
  have "mimics f [] ?f s [e] (sh_outcome s (handle_head (Some h) (sy_mgr s)))"
    using sh_append nz unfolding e
    by (intro mimics_one)
      (auto simp: pending_events_def sys_match_def awaits_read_def sys_step_simps handle_head_def loop_after_def is_ga_def
        window_push_trim ga_match_headers untorn_keeps_half split: ga_pc.splits prog.splits)
  then show ?case by blast
next
  case (sh_cancelled f env)
  have "mimics f [(env, ShDone)] (f\<lparr>fi_mgr := fst (handle_done (fi_mgr f))\<rparr>) s [(env, ShDone)]
      (sh_outcome s (handle_done (sy_mgr s)))"
    using sh_cancelled by (intro mimics_one)
      (auto simp: pending_events_def sys_match_def awaits_read_def sys_step_simps handle_done_def loop_after_def is_ga_def
        ga_match_headers split: ga_pc.splits prog.splits)
  then show ?case by blast
next
  case (sh_again f env)
  have "mimics f [(env, ShRestart)] (f\<lparr>fi_sh := ShIdle\<rparr>) s [(env, ShRestart)] (s\<lparr>sy_sh := Running\<rparr>)"
    using sh_again by (intro mimics_one)
      (auto simp: pending_events_def sys_match_def awaits_read_def sys_step_simps is_ga_def split: ga_pc.splits prog.splits)
  then show ?case by blast
qed

definition untorn_step ::
    "('tx, 'v) fine \<Rightarrow> (('tx, 'v) tx_env \<times> 'tx event) list \<Rightarrow> ('tx, 'v) fine \<Rightarrow> bool" where
  "untorn_step f l g \<longleftrightarrow> fine_step f l g \<and> untorn f g"

interpretation lanes: lane_simulation untorn_step sys_step sys_match pending_events is_ga
  by unfold_locales (use simulation_step in \<open>unfold mimics_def untorn_step_def, blast\<close>)

section \<open>Runs\<close>

text \<open>The states of the two systems outside of every handler.\<close>

definition quiet :: "('tx, 'v) fine \<Rightarrow> bool" where
  "quiet f \<longleftrightarrow> (fi_ga f = GaIdle \<or> fi_ga f = GaDown) \<and> (fi_sh f = ShIdle \<or> fi_sh f = ShDown)"

definition fine_of :: "('tx, 'v) sys \<Rightarrow> ('tx, 'v) fine" where
  "fine_of s = \<lparr> fi_mgr = sy_mgr s, fi_ga = (if sy_ga s = Running then GaIdle else GaDown),
     fi_sh = (if sy_sh s = Running then ShIdle else ShDown) \<rparr>"

definition sys_of :: "('tx, 'v) fine \<Rightarrow> ('tx, 'v) sys" where
  "sys_of f = \<lparr> sy_mgr = fi_mgr f, sy_ga = (if fi_ga f = GaIdle then Running else Recovering),
     sy_sh = (if fi_sh f = ShIdle then Running else Recovering) \<rparr>"

lemma match_start: "sys_match (fine_of s) s"
  by (cases "sy_ga s"; cases "sy_sh s") (simp_all add: sys_match_def fine_of_def)

lemma pending_start: "pending_events (fine_of s) = []"
  by (simp add: pending_events_def fine_of_def)

lemma match_quiet:
  assumes "sys_match f s" and "quiet f"
  shows "s = sys_of f" and "pending_events f = []"
proof -
  have "agree (fi_mgr f) (sy_mgr s)" "nm_HeaderWsList (fi_mgr f) = nm_HeaderWsList (sy_mgr s)"
    "nm_WsCloses (fi_mgr f) = nm_WsCloses (sy_mgr s)"
    using assms by (auto simp: sys_match_def quiet_def)
  then have "sy_mgr s = fi_mgr f"
    by (intro NodeMgr.equality) (simp_all add: agree_simps)
  with assms show "s = sys_of f" by (auto simp: sys_match_def quiet_def sys_of_def)
  show "pending_events f = []" using assms(2) by (auto simp: quiet_def pending_events_def)
qed

lemma run_simulated:
  assumes "fine_run untorn f0 tr f" and "sys_match f0 s0" and "pending_events f0 = []"
  shows "\<exists>tr' s. sys_run s0 tr' s \<and> sys_match f s \<and> lanes.traces_match tr tr' f"
  using assms
proof (induction rule: fine_run.induct)
  case (fine_refl f)
  then have "lanes.traces_match [] [] f" by (simp add: lanes.traces_match_def)
  with fine_refl show ?case using run_refl by blast
next
  case (fine_snoc f tr g l h)
  then obtain tr' s where IH: "sys_run s0 tr' s" "sys_match g s" "lanes.traces_match tr tr' g" by blast
  have us: "untorn_step g l h" using fine_snoc.hyps(2,3) by (simp add: untorn_step_def)
  obtain l' s' where "sys_match h s'" and l': "l' = [] \<and> s' = s \<or> (\<exists>e. l' = [e] \<and> sys_step s e s')"
    and "lanes.traces_match (tr @ l) (tr' @ l') h"
    by (rule lanes.simulate [OF IH(2,3) us])
  moreover have "sys_run s0 (tr' @ l') s'"
    using l' IH(1) by (auto intro: run_snoc)
  ultimately show ?case by blast
qed

text \<open>The events of one loop, in their order.\<close>

definition ga_events :: "(('tx, 'v) tx_env \<times> 'tx event) list \<Rightarrow> (('tx, 'v) tx_env \<times> 'tx event) list" where
  "ga_events tr = filter is_ga tr"

definition sh_events :: "(('tx, 'v) tx_env \<times> 'tx event) list \<Rightarrow> (('tx, 'v) tx_env \<times> 'tx event) list" where
  "sh_events tr = filter (\<lambda>e. \<not> is_ga e) tr"

lemma run_serializable:
  assumes "fine_run untorn (fine_of s0) tr f" and "quiet f"
  shows "\<exists>tr'. sys_run s0 tr' (sys_of f) \<and> ga_events tr' = ga_events tr \<and> sh_events tr' = sh_events tr"
proof -
  obtain tr' s where r: "sys_run s0 tr' s" "sys_match f s" "lanes.traces_match tr tr' f"
    using run_simulated [OF assms(1) match_start pending_start] by blast
  note q = match_quiet [OF r(2) assms(2)]
  have "filter (\<lambda>e. is_ga e = c) tr = filter (\<lambda>e. is_ga e = c) tr'" for c
    using r(3) q(2) by (simp add: lanes.traces_match_def)
  from this [of True] this [of False] show ?thesis
    using r(1) q(1) by (auto simp: ga_events_def sh_events_def)
qed

section \<open>A run\<close>

text \<open>
  The header's cut and its append with the handling of a signal in between.
\<close>

definition sample_fine_end :: "(nat, nat) fine" where
  "sample_fine_end = fine_of (sample_sys\<lparr>sy_mgr := sample_ready\<rparr>)"

lemma sample_fine_run:
  "fine_run untorn (fine_of sample_sys)
     [(sample_env, HeadArrived (Some sample_header)), (sample_env, SignalArrived sample_text)] sample_fine_end"
proof -
  let ?h = "(sample_env, HeadArrived (Some sample_header))" and ?s = "(sample_env, SignalArrived sample_text)"
  let ?f0 = "fine_of sample_sys"
  let ?f1 = "?f0\<lparr>fi_sh := ShTrim ?h sample_header\<rparr>"
  let ?f2 = "?f0\<lparr>fi_sh := ShAppend ?h sample_header\<rparr>"
  let ?n = "sample_mgr\<lparr>nm_Signals := [sample_signal]\<rparr>"
  let ?f3 = "?f2\<lparr>fi_ga := GaBusy ?s (Ret (?n, None))\<rparr>"
  let ?f4 = "?f2\<lparr>fi_mgr := ?n\<rparr>"
  have nz: "big_Int64 (bh_Number sample_header) \<noteq> 0" by (simp add: sample_header_def big_Int64_eq)
  have p: "ga_prog ?s sample_mgr = Some (Ret (?n, None))"
    by (simp add: handle_signal_prog_def sample_read sample_unmarshal Let_def window_push_def)
      (simp add: sample_mgr_def)
  have 1: "fine_step ?f0 [?h] ?f1"
    by (rule sh_take) (simp_all add: fine_of_def sample_sys_def nz)
  have 2: "fine_step ?f1 [] ?f2"
    using sh_trim [of ?f1 ?h sample_header] by (simp add: fine_of_def sample_sys_def sample_mgr_def trim_def)
  have 3: "fine_step ?f2 [?s] ?f3"
    by (rule ga_take) (simp_all add: fine_of_def sample_sys_def p del: ga_prog.simps)
  have 4: "fine_step ?f3 [] ?f4"
    using ga_finish [of ?f3 ?s ?n None] by (simp add: fine_of_def sample_sys_def commit_def sample_mgr_def)
  have 5: "fine_step ?f4 [] sample_fine_end"
    using sh_append [of ?f4 ?h sample_header]
    by (simp add: sample_fine_end_def fine_of_def sample_sys_def sample_mgr_def sample_ready_def)
  have "fine_run untorn ?f0 (((([] @ [?h]) @ []) @ [?s]) @ []) ?f4"
    by (rule fine_snoc [OF fine_snoc [OF fine_snoc [OF fine_snoc [OF fine_refl 1] 2] 3] 4])
      (simp_all add: untorn_def fine_of_def)
  from fine_snoc [OF this 5] show ?thesis by (simp add: untorn_def fine_of_def)
qed

lemma sample_fine_quiet:
  "quiet sample_fine_end" "sys_of sample_fine_end = sample_sys\<lparr>sy_mgr := sample_ready\<rparr>"
  by (simp_all add: sample_fine_end_def quiet_def fine_of_def sys_of_def sample_sys_def)

end
