(* ===== verification/Mgr_Torn.thy ===== *)
theory Mgr_Torn
  imports Mgr_Serializable
begin

text \<open>
  An index expression torn by the other loop: \<open>GetPendingBlockNum\<close> takes the length of the
  full list of headers, the header loop cuts the list and appends to it, and the index is
  out of range by the time the element is read.
\<close>

lemma torn_index: "length elems < length lens \<Longrightarrow> index_last lens elems = Inl IndexOutOfRange"
  by (auto simp: index_last_def go_index_def)

lemma pending_signal_prog:
  assumes "Option.bind (json_parse data) unmarshal_Signal = Some sg" and "nm_PendingTxList n \<noteq> []"
  shows "\<exists>k n'. handle_signal_prog env data n = Rd k \<and>
    (\<forall>lens elems. length elems < length lens \<longrightarrow> k lens elems = Ret (n', Some IndexOutOfRange))"
  using assms by (simp add: handle_signal_prog_def GetPendingBlockNum_prog_def Let_def torn_index)

lemma torn_run:
  assumes "sy_ga s = Running" and "sy_sh s = Running" and long: "200 < length (nm_HeaderWsList (sy_mgr s))"
    and "nm_PendingTxList (sy_mgr s) \<noteq> []"
    and "Option.bind (json_parse data) unmarshal_Signal = Some sg" and "big_Int64 (bh_Number h) \<noteq> 0"
  shows "\<exists>f. fine_run any_step (fine_of s) [(env, SignalArrived data), (env', HeadArrived (Some h))] f \<and>
    quiet f \<and> sy_ga (sys_of f) = Recovering"
proof -
  let ?hs = "nm_HeaderWsList (sy_mgr s)" and ?e = "(env, SignalArrived data)" and ?h = "(env', HeadArrived (Some h))"
  obtain k n' where k: "ga_prog ?e (sy_mgr s) = Some (Rd k)"
    "\<And>lens elems. length elems < length lens \<Longrightarrow> k lens elems = Ret (n', Some IndexOutOfRange)"
    using pending_signal_prog [OF assms(5,4), of env] by fastforce
  let ?f0 = "fine_of s"
  let ?f1 = "?f0\<lparr>fi_ga := GaBusy ?e (Rd k)\<rparr>"
  let ?f2 = "?f0\<lparr>fi_ga := GaHalf ?e k ?hs\<rparr>"
  let ?f3 = "?f2\<lparr>fi_sh := ShTrim ?h h\<rparr>"
  let ?m4 = "(sy_mgr s)\<lparr>nm_HeaderWsList := trim ?hs\<rparr>"
  let ?f4 = "?f2\<lparr>fi_mgr := ?m4, fi_sh := ShAppend ?h h\<rparr>"
  let ?m5 = "(sy_mgr s)\<lparr>nm_HeaderWsList := trim ?hs @ [h]\<rparr>"
  let ?f5 = "?f2\<lparr>fi_mgr := ?m5, fi_sh := ShIdle\<rparr>"
  let ?f6 = "?f5\<lparr>fi_ga := GaBusy ?e (Ret (n', Some IndexOutOfRange))\<rparr>"
  let ?f7 = "?f6\<lparr>fi_mgr := commit n' ?m5, fi_ga := GaDown\<rparr>"
  have sel: "fi_ga ?f0 = GaIdle" "fi_sh ?f0 = ShIdle" "fi_mgr ?f0 = sy_mgr s"
    using assms(1,2) by (simp_all add: fine_of_def)
  have short: "length (trim ?hs @ [h]) < length ?hs" using long by (simp add: trim_def)
  have 1: "fine_step ?f0 [?e] ?f1" using sel k(1) by (intro ga_take) simp_all
  have 2: "fine_step ?f1 [] ?f2" using ga_read [of ?f1 ?e k] sel by simp
  have 3: "fine_step ?f2 [?h] ?f3" using sel assms(6) by (intro sh_take) simp_all
  have 4: "fine_step ?f3 [] ?f4" using sh_trim [of ?f3 ?h h] sel by simp
  have 5: "fine_step ?f4 [] ?f5" using sh_append [of ?f4 ?h h] sel by simp
  have 6: "fine_step ?f5 [] ?f6" using ga_elem_second [of ?f5 ?e k ?hs] sel k(2) [OF short] by simp
  have 7: "fine_step ?f6 [] ?f7" using ga_finish [of ?f6 ?e n' "Some IndexOutOfRange"] sel by simp
  have "fine_run any_step ?f0 ((((((([] @ [?e]) @ []) @ [?h]) @ []) @ []) @ []) @ []) ?f7"
    by (intro fine_snoc [OF _ 7] fine_snoc [OF _ 6] fine_snoc [OF _ 5] fine_snoc [OF _ 4] fine_snoc [OF _ 3]
        fine_snoc [OF _ 2] fine_snoc [OF _ 1] fine_refl TrueI)
  then show ?thesis by (intro exI [of _ ?f7]) (simp add: quiet_def sys_of_def)
qed

text \<open>With atomic handlers neither a signal nor a header stops the loop once there is a header.\<close>

lemma whole_signals_run:
  assumes "sys_run s tr t" and "sy_ga s = Running" and "nm_HeaderWsList (sy_mgr s) \<noteq> []"
    and "\<forall>e \<in> set tr. (\<exists>data. snd e = SignalArrived data) \<or> (\<exists>oh. snd e = HeadArrived oh)"
  shows "nm_HeaderWsList (sy_mgr t) \<noteq> [] \<and> sy_ga t = Running"
  using assms
proof (induction rule: sys_run.induct)
  case (run_snoc s tr t e u)
  then have t: "nm_HeaderWsList (sy_mgr t) \<noteq> []" "sy_ga t = Running"
    and e: "(\<exists>data. snd e = SignalArrived data) \<or> (\<exists>oh. snd e = HeadArrived oh)" by simp_all
  have "nm_HeaderWsList (sy_mgr u) \<noteq> []"
    using step_Headers [OF run_snoc.hyps(2)] t(1) by (simp add: push_opt_def window_push_def split: option.split)
  moreover have "sy_ga u = Running"
    using run_snoc.hyps(2) t e
    by (cases rule: sys_step.cases)
      (auto simp: handle_signal_def GetPendingBlockNum_cases Let_def loop_after_def split: option.splits)
  ultimately show ?case ..
qed simp_all

end
