(* ===== verification/Mgr_Orders.thy ===== *)
theory Mgr_Orders
  imports Mgr_System
begin

text \<open>
  What an execution of a manager publishes, as a function of its events: the specification
  looks at the full history of headers, not at the log, and knows neither loops nor panics.
\<close>

section \<open>The symbols of a transaction\<close>

text \<open>
  A transaction to a known router is decoded from its calldata, one to a competitor's
  contract from its trace, any other one yields nothing; a decoder's panic yields nothing.
\<close>

definition tx_symbols :: "('tx, 'v) tx_env \<Rightarrow> ('tx, 'v) NodeMgr \<Rightarrow> PendingTx \<Rightarrow> string list" where
  "tx_symbols env n px =
     (case nm_RouterMap n (px_To px) of
        Some dexName \<Rightarrow>
          (case Router_DecodeToSymbol (te_router env) (nm_rDecoder n) dexName px of Inl p \<Rightarrow> [] | Inr ss \<Rightarrow> ss)
      | None \<Rightarrow>
          if map_get False (nm_EnemiesMap n) (px_To px)
          then fst (Call_DecodeToSymbol (te_rpc env) (nm_PairSymbolMap n) px) else [])"

definition decoded_tx :: "('tx, 'v) tx_env \<Rightarrow> 'tx \<Rightarrow> PendingTx option" where
  "decoded_tx env tx =
     map_option (\<lambda>px. px\<lparr>px_From := te_sender env tx\<rparr>)
       (Option.bind (json_parse (te_marshal env tx)) unmarshal_PendingTx)"

text \<open>The configuration of a manager, which its handlers only read.\<close>

definition same_config :: "('tx, 'v) NodeMgr \<Rightarrow> ('tx, 'v) NodeMgr \<Rightarrow> bool" where
  "same_config n m \<longleftrightarrow> nm_RouterMap n = nm_RouterMap m \<and> nm_EnemiesMap n = nm_EnemiesMap m \<and>
     nm_PairSymbolMap n = nm_PairSymbolMap m \<and> nm_rDecoder n = nm_rDecoder m"

lemma tx_symbols_config: "same_config n m \<Longrightarrow> tx_symbols env n px = tx_symbols env m px"
  by (auto simp: tx_symbols_def same_config_def split: option.split)

lemma same_config_log: "same_config (n\<lparr>nm_PendingTxList := txs\<rparr>) n"
  by (simp add: same_config_def)

lemma run_config: "sys_run s tr t \<Longrightarrow> same_config (sy_mgr t) (sy_mgr s)"
  by (rule run_invariant [where P = "\<lambda>u. same_config (sy_mgr u) (sy_mgr s)"])
    (auto simp: same_config_def step_config)

section \<open>The order of a transaction\<close>

definition expected_order ::
    "('tx, 'v) NodeMgr \<Rightarrow> Signal list \<Rightarrow> Header list \<Rightarrow> ('tx, 'v) tx_env \<Rightarrow> 'tx
      \<Rightarrow> (string \<times> TradingReqInfoWAP) option" where
  "expected_order n signals headers env tx =
     (case decoded_tx env tx of
        None \<Rightarrow> None
      | Some px \<Rightarrow>
          let symbols = tx_symbols env n px;
              sg = GetLastSignalBySymbol signals (hd symbols);
              m = order_for env sg (te_gas_price env tx)
          in if signals \<noteq> [] \<and> symbols \<noteq> [] \<and> headers \<noteq> [] \<and> block_ok env (last headers) sg \<and>
               tradable sg \<and> te_publish env DATA_ORDER_TOOL (snd m)
             then Some m else None)"

definition opt_list :: "'a option \<Rightarrow> 'a list" where
  "opt_list ox = (case ox of None \<Rightarrow> [] | Some x \<Rightarrow> [x])"

lemma opt_list_simps [simp]: "opt_list None = []" "opt_list (Some x) = [x]"
  by (simp_all add: opt_list_def)

lemma after_decode_expected:
  assumes "react (nm_Signals n \<noteq> []) d \<noteq> Cancel" and "snd d \<Longrightarrow> fst d = []"
    and "decoded_tx env tx = Some px" and "tx_symbols env n px = fst d"
  shows "nm_Outbox (fst (after_decode env tx d n)) =
    nm_Outbox n @ opt_list (expected_order n (nm_Signals n) (nm_HeaderWsList n) env tx)"
  using assms(2-4)
  by (auto simp: after_decode_outbox [OF assms(1)] expected_order_def may_order_def rebuild_allowed_block_ok Let_def)

lemma expected_order_log [simp]:
  "expected_order (n\<lparr>nm_PendingTxList := txs\<rparr>) = expected_order n"
  by (intro ext) (simp add: expected_order_def tx_symbols_config [OF same_config_log] split: option.split)

lemma enemy_tx_expected:
  assumes "decoded_tx env tx = Some px" and "nm_RouterMap n (px_To px) = None"
    and "map_get False (nm_EnemiesMap n) (px_To px)"
  shows "nm_Outbox (fst (enemy_tx env tx px n)) =
    nm_Outbox n @ opt_list (expected_order n (nm_Signals n) (nm_HeaderWsList n) env tx)"
proof (cases "nm_HeaderWsList n = []")
  case True
  then show ?thesis by (simp add: enemy_tx_def expected_order_def Let_def split: option.split)
next
  case False
  let ?n = "n\<lparr>nm_PendingTxList := window_push (nm_PendingTxList n) tx\<rparr>"
  let ?d = "Call_DecodeToSymbol (te_rpc env) (nm_PairSymbolMap n) px"
  have "nm_Outbox (fst (after_decode env tx ?d ?n)) =
    nm_Outbox ?n @ opt_list (expected_order ?n (nm_Signals ?n) (nm_HeaderWsList ?n) env tx)"
    by (rule after_decode_expected [OF call_silent _ assms(1)])
      (use assms(2,3) in \<open>simp_all add: tx_symbols_def Call_DecodeToSymbol_eq split: if_splits\<close>)
  with False show ?thesis by (simp add: enemy_tx_def Let_def go_last_nonempty)
qed

lemma handle_tx_expected:
  "nm_Outbox (fst (handle_tx env (Some tx) n)) =
    nm_Outbox n @ opt_list (expected_order n (nm_Signals n) (nm_HeaderWsList n) env tx)"
proof (cases "decoded_tx env tx")
  case None
  then show ?thesis by (auto simp: handle_tx_def expected_order_def decoded_tx_def split: option.splits)
next
  case (Some px)
  then obtain px0 where px0: "Option.bind (json_parse (te_marshal env tx)) unmarshal_PendingTx = Some px0"
    and px: "px = px0\<lparr>px_From := te_sender env tx\<rparr>"
    by (auto simp: decoded_tx_def)
  have after: "tx_symbols env n px = ss \<Longrightarrow>
    nm_Outbox (fst (after_decode env tx (ss, False) n)) =
      nm_Outbox n @ opt_list (expected_order n (nm_Signals n) (nm_HeaderWsList n) env tx)" for ss
    using after_decode_expected [of n "(ss, False)" env tx px] Some by (simp add: router_silent)
  show ?thesis
  proof (cases "nm_RouterMap n (px_To px)")
    case None
    then show ?thesis
      using enemy_tx_expected [OF Some None] after [of "[]"] px0 px
      by (simp add: handle_tx_def Let_def tx_symbols_def)
  next
    case (Some dexName)
    then show ?thesis
    proof (cases "Router_DecodeToSymbol (te_router env) (nm_rDecoder n) dexName px")
      case (Inl p)
      with Some px0 px \<open>decoded_tx env tx = Some px\<close> show ?thesis
        by (simp add: handle_tx_def Let_def expected_order_def tx_symbols_def)
    next
      case (Inr ss)
      with Some px0 px after [of ss] show ?thesis
        by (simp add: handle_tx_def Let_def tx_symbols_def)
    qed
  qed
qed

section \<open>The orders of an execution\<close>

text \<open>
  The order of the i-th event: the signals are the log a window onto the history leaves,
  the header is the last one that arrived.
\<close>

definition order_at ::
    "('tx, 'v) NodeMgr \<Rightarrow> (('tx, 'v) tx_env \<times> 'tx event) list \<Rightarrow> ('tx, 'v) tx_env \<times> 'tx event
      \<Rightarrow> (string \<times> TradingReqInfoWAP) option" where
  "order_at n past e =
     (case e of
        (env, TxArrived (Some tx)) \<Rightarrow>
          expected_order n (foldl window_push [] (signal_history past)) (head_history past) env tx
      | _ \<Rightarrow> None)"

definition expected_orders ::
    "('tx, 'v) NodeMgr \<Rightarrow> (('tx, 'v) tx_env \<times> 'tx event) list \<Rightarrow> (string \<times> TradingReqInfoWAP) list" where
  "expected_orders n tr = concat (map (\<lambda>i. opt_list (order_at n (take i tr) (tr ! i))) [0..<length tr])"

lemma expected_orders_Nil [simp]: "expected_orders n [] = []"
  by (simp add: expected_orders_def)

lemma expected_orders_snoc [simp]:
  "expected_orders n (tr @ [e]) = expected_orders n tr @ opt_list (order_at n tr e)"
proof -
  have "map (\<lambda>i. opt_list (order_at n (take i (tr @ [e])) ((tr @ [e]) ! i))) [0..<length tr] =
    map (\<lambda>i. opt_list (order_at n (take i tr) (tr ! i))) [0..<length tr]"
    by (simp add: nth_append)
  moreover have "take (length tr) (tr @ [e]) = tr" by simp
  ultimately show ?thesis by (simp add: expected_orders_def del: take_append map_eq_conv)
qed

lemma expected_order_cong:
  "same_config n m \<Longrightarrow> (hs = [] \<longleftrightarrow> hs' = []) \<Longrightarrow> (hs \<noteq> [] \<Longrightarrow> last hs = last hs') \<Longrightarrow>
    expected_order n signals hs env tx = expected_order m signals hs' env tx"
  by (auto simp: expected_order_def tx_symbols_config Let_def split: option.split)

lemma window_last: "hs = [] \<longleftrightarrow> foldl window_push [] hs = []" "hs \<noteq> [] \<Longrightarrow> last (foldl window_push [] hs) = last hs"
  by (cases hs rule: rev_cases; simp add: window.last_push window.push_not_Nil)+

lemma step_orders:
  assumes "sys_step t e u"
  shows "nm_Outbox (sy_mgr u) = nm_Outbox (sy_mgr t) @
    (case e of
       (env, TxArrived (Some tx)) \<Rightarrow>
         opt_list (expected_order (sy_mgr t) (nm_Signals (sy_mgr t)) (nm_HeaderWsList (sy_mgr t)) env tx)
     | _ \<Rightarrow> [])"
  using assms
proof (induction rule: sys_step.induct)
  case (ga_tx s env otx)
  then show ?case by (cases otx) (simp_all add: handle_tx_expected, simp add: handle_tx_def)
qed (simp_all add: handler_frames)

lemma run_expected_orders:
  assumes "sys_run s tr t" and "nm_Signals (sy_mgr s) = []" and "nm_HeaderWsList (sy_mgr s) = []"
    and "nm_Outbox (sy_mgr s) = []"
  shows "nm_Outbox (sy_mgr t) = expected_orders (sy_mgr s) tr"
  using assms
proof (induction rule: sys_run.induct)
  case (run_snoc s tr t e u)
  have e: "expected_order (sy_mgr t) (nm_Signals (sy_mgr t)) (nm_HeaderWsList (sy_mgr t)) env tx =
    expected_order (sy_mgr s) (foldl window_push [] (signal_history tr)) (head_history tr) env tx" for env tx
    using run_Signals [OF run_snoc.hyps(1)] run_Headers [OF run_snoc.hyps(1)] run_snoc.prems
    by (simp, intro expected_order_cong run_config [OF run_snoc.hyps(1)])
      (metis window_last(1), metis window_last)
  from run_snoc.IH [OF run_snoc.prems] show ?case
    unfolding step_orders [OF run_snoc.hyps(2)]
    by (simp add: order_at_def e split: prod.splits event.splits option.splits)
qed simp

text \<open>Orders come from transactions only, one each at most.\<close>

lemma length_expected_orders: "length (expected_orders n tr) \<le> length tr"
  by (induction tr rule: rev_induct) (auto simp: opt_list_def split: option.split)

end
