(* ===== verification/Manager_Properties.thy ===== *)
theory Manager_Properties
  imports Sample_Chain Gas_Price Mgr_Torn Mgr_Orders
begin

text \<open>The properties of the manager: its executions, its choice of signal and fee, its panics.\<close>

section \<open>Executions\<close>

text \<open>
  C1: what an execution that starts with empty logs publishes is a function of its events:
  one order for each transaction whose decoding yields a symbol, when signals and headers
  have arrived, the signal looked up for the first symbol can be traded and passes the block
  check against the last header, and the publisher takes it; the order of that signal for
  the transaction's gas price. In particular the bounded log of headers and the panics and
  restarts of the loops do not show.
\<close>

theorem published_orders_are_expected:
  assumes "sys_run s tr t" and "nm_Signals (sy_mgr s) = []" and "nm_HeaderWsList (sy_mgr s) = []"
    and "nm_Outbox (sy_mgr s) = []"
  shows "nm_Outbox (sy_mgr t) = expected_orders (sy_mgr s) tr"
  using assms by (rule run_expected_orders)

theorem published_orders_are_expected_witness: "expected_orders sample_mgr sample_run = [sample_order]"
proof -
  have "nm_Outbox (sy_mgr (sample_sys\<lparr>sy_mgr := sample_done\<rparr>)) = expected_orders (sy_mgr sample_sys) sample_run"
    by (rule published_orders_are_expected [OF sample_sys_run sample_start(1-3)])
  then show ?thesis by (simp add: sample_done_def sample_sys_def)
qed

text \<open>
  C5: in every execution that starts with empty logs, every message handed to the
  publisher is the order built from some received signal for the gas price of some
  received transaction, and a received header exists against which the signal's trade
  block passed the check of \<open>RebuildTx\<close>.
\<close>

theorem every_order_is_justified:
  assumes "sys_run s tr t" and "nm_Signals (sy_mgr s) = []" and "nm_HeaderWsList (sy_mgr s) = []"
    and "nm_Outbox (sy_mgr s) = []" and "m \<in> set (nm_Outbox (sy_mgr t))"
  shows "\<exists>env tx sg h. (env, TxArrived (Some tx)) \<in> set tr \<and> sg \<in> set (signal_history tr) \<and>
     h \<in> set (head_history tr) \<and> block_ok env h sg \<and> tradable sg \<and>
     m = order_for env sg (te_gas_price env tx)"
  using run_orders [OF assms] by (simp add: order_justified_def)

theorem every_order_is_justified_witness:
  "\<exists>env tx sg h. (env, TxArrived (Some tx)) \<in> set sample_run \<and> sg \<in> set (signal_history sample_run) \<and>
     h \<in> set (head_history sample_run) \<and> block_ok env h sg \<and> tradable sg \<and>
     sample_order = order_for env sg (te_gas_price env tx)"
  by (rule every_order_is_justified [OF sample_sys_run sample_start(1-3)]) (simp add: sample_done_def)

text \<open>
  C4: the two loops may be taken to handle their events atomically, as long as the list of
  headers does not change between the two reads of one index expression. Whatever the order in
  which the accesses to \<open>HeaderWsList\<close> of several expressions of a handler, the cut and the
  append of the other loop interleave, a run that ends outside of every handler ends in the
  state of a run with atomic handlers in which each loop handles the same events in the same
  order.
\<close>

theorem handlers_are_atomic:
  assumes "fine_run untorn (fine_of s) tr f" and "quiet f"
  shows "\<exists>tr'. sys_run s tr' (sys_of f) \<and> ga_events tr' = ga_events tr \<and> sh_events tr' = sh_events tr"
  using assms by (rule run_serializable)

theorem handlers_are_atomic_witness:
  "\<exists>tr'. sys_run sample_sys tr' (sample_sys\<lparr>sy_mgr := sample_ready\<rparr>) \<and>
     ga_events tr' = [(sample_env, SignalArrived sample_text)] \<and>
     sh_events tr' = [(sample_env, HeadArrived (Some sample_header))]"
  using handlers_are_atomic [OF sample_fine_run sample_fine_quiet(1)]
  by (simp add: sample_fine_quiet ga_events_def sh_events_def is_ga_def)

text \<open>
  C16: without that condition they are not atomic. When the list of headers is full and a
  competitor's transaction is logged, a signal and a header can be handled such that
  \<open>GetPendingBlockNum\<close> takes the length before the cut and the element after it: the loop
  panics, although the list is never empty. (Were the element's list read first, an append
  alone would do.) With atomic handlers the same two events, in any order and any number,
  never make it panic.
\<close>

theorem torn_read_panics:
  assumes "sy_ga s = Running" and "sy_sh s = Running" and "200 < length (nm_HeaderWsList (sy_mgr s))"
    and "nm_PendingTxList (sy_mgr s) \<noteq> []"
    and "Option.bind (json_parse data) unmarshal_Signal = Some sg" and "big_Int64 (bh_Number h) \<noteq> 0"
  shows "(\<exists>f. fine_run any_step (fine_of s) [(env, SignalArrived data), (env', HeadArrived (Some h))] f \<and>
      quiet f \<and> sy_ga (sys_of f) = Recovering) \<and>
    (\<forall>tr t. sys_run s tr t \<and> set tr \<subseteq> {(env, SignalArrived data), (env', HeadArrived (Some h))} \<longrightarrow>
      sy_ga t = Running)"
proof (intro conjI allI impI)
  show "\<exists>f. fine_run any_step (fine_of s) [(env, SignalArrived data), (env', HeadArrived (Some h))] f \<and>
      quiet f \<and> sy_ga (sys_of f) = Recovering"
    by (rule torn_run [OF assms])
  fix tr t
  assume run: "sys_run s tr t \<and> set tr \<subseteq> {(env, SignalArrived data), (env', HeadArrived (Some h))}"
  have "nm_HeaderWsList (sy_mgr s) \<noteq> []" using assms(3) by auto
  from whole_signals_run [OF _ assms(1) this] run show "sy_ga t = Running" by fastforce
qed

theorem torn_read_panics_witness:
  "\<exists>f. fine_run any_step (fine_of (sample_sys\<lparr>sy_mgr := sample_mgr\<lparr>nm_HeaderWsList := replicate 201 sample_header,
       nm_PendingTxList := [0]\<rparr>\<rparr>)) [(sample_env, SignalArrived sample_text), (sample_env, HeadArrived (Some sample_header))] f \<and>
     quiet f \<and> sy_ga (sys_of f) = Recovering"
proof -
  have "Option.bind (json_parse sample_text) unmarshal_Signal = Some sample_signal"
    by (simp add: sample_read sample_unmarshal)
  moreover have "big_Int64 (bh_Number sample_header) \<noteq> 0" by (simp add: sample_header_def big_Int64_eq)
  ultimately show ?thesis
    using torn_read_panics [of "sample_sys\<lparr>sy_mgr := sample_mgr\<lparr>nm_HeaderWsList := replicate 201 sample_header,
       nm_PendingTxList := [0]\<rparr>\<rparr>" sample_text sample_signal sample_header sample_env sample_env]
    by (simp add: sample_sys_def)
qed

text \<open>
  C12: the three logs of the manager never hold more than 201 entries, in no state of any
  execution that starts from a state where they do not.
\<close>

theorem logs_stay_bounded:
  assumes "sys_run s tr t" and "windows_bounded (sy_mgr s)"
  shows "length (nm_Signals (sy_mgr t)) \<le> 201 \<and> length (nm_HeaderWsList (sy_mgr t)) \<le> 201 \<and>
     length (nm_PendingTxList (sy_mgr t)) \<le> 201"
  using run_windows_bounded [OF assms] by (simp add: windows_bounded_def)

theorem logs_stay_bounded_witness:
  "length (nm_Signals sample_done) \<le> 201 \<and> length (nm_HeaderWsList sample_done) \<le> 201 \<and>
     length (nm_PendingTxList sample_done) \<le> 201"
  using logs_stay_bounded [OF sample_sys_run] by (simp add: windows_bounded_def sample_start)

text \<open>
  C17: \<open>CancelTx\<close> is never called. A transaction that is already mined yields no symbols,
  so the branch that cancels, taken only for a mined transaction with symbols, is dead.
\<close>

theorem cancel_is_never_called:
  assumes "sys_run s tr t"
  shows "nm_Cancels (sy_mgr t) = nm_Cancels (sy_mgr s)"
  by (rule run_Cancels [OF assms])

theorem cancel_is_never_called_witness: "nm_Cancels sample_done = nm_Cancels sample_mgr"
  using cancel_is_never_called [OF sample_sys_run] by (simp add: sample_sys_def)

text \<open>
  C11: the log of signals refines the history of signals for the lookup by symbol. The
  signal \<open>GetLastSignalBySymbol\<close> returns after an execution is the most recent one
  received for the symbol, whenever one of the 102 latest signals is for that symbol.
\<close>

theorem lookup_is_latest_in_history:
  assumes "sys_run s tr t" and "nm_Signals (sy_mgr s) = []"
    and "find (\<lambda>sg. sg_Symbol sg = symbol) (take 102 (rev (signal_history tr))) = Some sg"
  shows "GetLastSignalBySymbol (nm_Signals (sy_mgr t)) symbol = sg"
proof (rule GetLast_found)
  have "nm_Signals (sy_mgr t) = foldl window_push [] (signal_history tr)"
    using run_Signals [OF assms(1)] assms(2) by simp
  then show "find (\<lambda>sg. sg_Symbol sg = symbol) (rev (nm_Signals (sy_mgr t))) = Some sg"
    using window.history_find [OF assms(3)] by simp
qed

theorem lookup_is_latest_in_history_witness:
  "GetLastSignalBySymbol (nm_Signals sample_done) ''avax_usdc'' = sample_signal"
proof -
  have "signal_history sample_run = [sample_signal]"
    by (simp add: signal_history_def sample_run_def accepted_signal_def map_filter_simps
        sample_read sample_unmarshal)
  then have "find (\<lambda>sg. sg_Symbol sg = ''avax_usdc'') (take 102 (rev (signal_history sample_run))) = Some sample_signal"
    by (simp add: sample_signal_def)
  from lookup_is_latest_in_history [OF sample_sys_run sample_start(1) this] show ?thesis by simp
qed

section \<open>One transaction\<close>

text \<open>
  C6: what the transaction of a competitor does once a header is known. It is logged, and
  exactly one order is published, for the signal the lookup returns for the first symbol
  the trace touches, if the transaction is not mined, the trace touches a known pair, a
  signal is there, the block check passes, the signal can be traded and the publisher
  accepts; otherwise no order is published.
\<close>

theorem competitor_tx_effect:
  fixes env :: "('tx, 'v) tx_env" and n :: "('tx, 'v) NodeMgr"
  defines "syms \<equiv> \<lambda>px. List.map_filter (nm_PairSymbolMap n) (GetAllAddress (traced_calls (te_rpc env) px))"
  assumes "Option.bind (json_parse (te_marshal env tx)) unmarshal_PendingTx = Some px"
    and "nm_RouterMap n (px_To px) = None" and "nm_EnemiesMap n (px_To px) = Some True"
    and "nm_HeaderWsList n \<noteq> []"
    and "ptx = px\<lparr>px_From := te_sender env tx\<rparr>"
    and "sg = GetLastSignalBySymbol (nm_Signals n) (hd (syms ptx))"
  shows "fst (handle_tx env (Some tx) n) = n\<lparr>nm_PendingTxList := window_push (nm_PendingTxList n) tx,
     nm_Outbox := nm_Outbox n @
       (if \<not> rpc_receipt (te_rpc env) (px_Hash px) \<and> syms ptx \<noteq> [] \<and> nm_Signals n \<noteq> [] \<and>
           block_ok env (last (nm_HeaderWsList n)) sg \<and> tradable sg \<and>
           te_publish env DATA_ORDER_TOOL (snd (order_for env sg (te_gas_price env tx)))
        then [order_for env sg (te_gas_price env tx)] else [])\<rparr>"
proof -
  let ?n = "n\<lparr>nm_PendingTxList := window_push (nm_PendingTxList n) tx\<rparr>"
  let ?d = "Call_DecodeToSymbol (te_rpc env) (nm_PairSymbolMap n) ptx"
  have "fst (handle_tx env (Some tx) n) = fst (after_decode env tx ?d ?n)"
    using assms(2-6) by (simp add: handle_tx_def enemy_tx_def Let_def map_get_def go_last_nonempty)
  also have "\<dots> = ?n\<lparr>nm_Outbox := nm_Outbox (fst (after_decode env tx ?d ?n))\<rparr>"
    by (rule after_decode_no_cancel) (rule call_silent)
  also have "nm_Outbox (fst (after_decode env tx ?d ?n)) = nm_Outbox n @
      (if \<not> rpc_receipt (te_rpc env) (px_Hash px) \<and> syms ptx \<noteq> [] \<and> nm_Signals n \<noteq> [] \<and>
          block_ok env (last (nm_HeaderWsList n)) sg \<and> tradable sg \<and>
          te_publish env DATA_ORDER_TOOL (snd (order_for env sg (te_gas_price env tx)))
       then [order_for env sg (te_gas_price env tx)] else [])"
  proof -
    have d: "?d = (if rpc_receipt (te_rpc env) (px_Hash px) then ([], True) else (syms ptx, False))"
      using assms(6) by (simp add: Call_DecodeToSymbol_eq syms_def)
    have silent: "react (nm_Signals ?n \<noteq> []) ?d \<noteq> Cancel" by (rule call_silent)
    show ?thesis
    proof (cases "rpc_receipt (te_rpc env) (px_Hash px)")
      case True
      with d after_decode_outbox [OF silent, of env tx] show ?thesis by (simp add: may_order_def)
    next
      case False
      with d have "?d = (syms ptx, False)" by simp
      with False after_decode_outbox [OF silent, of env tx] assms(5,7) show ?thesis
        by (simp add: may_order_def rebuild_allowed_block_ok)
    qed
  qed
  finally show ?thesis by simp
qed

theorem competitor_tx_effect_witness:
  "fst (handle_tx sample_env (Some 0) sample_ready) =
     sample_ready\<lparr>nm_PendingTxList := [0], nm_Outbox := [sample_order]\<rparr>"
proof -
  let ?ptx = "zero_PendingTx\<lparr>px_To := ''0xenemy'', px_Hash := ''0x1'', px_From := ''0xfrom''\<rparr>"
  have syms: "List.map_filter (nm_PairSymbolMap sample_ready) (GetAllAddress (traced_calls (te_rpc sample_env) ?ptx)) = [''avax_usdc'']"
    using sample_decoded [of ?ptx] by (simp add: Call_DecodeToSymbol_eq sample_ready_sel split: if_splits)
  show ?thesis
    using competitor_tx_effect [of sample_env 0 "zero_PendingTx\<lparr>px_To := ''0xenemy'', px_Hash := ''0x1''\<rparr>" sample_ready ?ptx sample_signal]
    by (simp add: sample_env_sel sample_tx sample_ready_sel syms [simplified sample_ready_sel] sample_last_signal
        window_push_def sample_allowed sample_tradable sample_order_def) (simp add: sample_env_def)
qed

text \<open>
  A competitor's transaction that arrives before the first header panics, but it is in
  the log of pending transactions by then; nothing else changes.
\<close>

lemma competitor_before_first_header:
  assumes "Option.bind (json_parse (te_marshal env tx)) unmarshal_PendingTx = Some px"
    and "nm_RouterMap n (px_To px) = None" and "nm_EnemiesMap n (px_To px) = Some True"
    and "nm_HeaderWsList n = []"
  shows "handle_tx env (Some tx) n =
     (n\<lparr>nm_PendingTxList := window_push (nm_PendingTxList n) tx\<rparr>, Some IndexOutOfRange)"
  using assms by (simp add: handle_tx_def enemy_tx_def Let_def map_get_def)

text \<open>
  A transaction to an address that is neither a router nor a competitor, and one that
  does not decode, change nothing and do not panic.
\<close>

lemma unrelated_tx_is_ignored:
  assumes "\<And>px. Option.bind (json_parse (te_marshal env tx)) unmarshal_PendingTx = Some px \<Longrightarrow>
     nm_RouterMap n (px_To px) = None \<and> nm_EnemiesMap n (px_To px) \<noteq> Some True"
  shows "handle_tx env (Some tx) n = (n, None)"
proof (cases "Option.bind (json_parse (te_marshal env tx)) unmarshal_PendingTx")
  case None
  then show ?thesis by (simp add: handle_tx_def)
next
  case (Some px)
  have "nm_RouterMap n (px_To px) = None" "\<not> map_get False (nm_EnemiesMap n) (px_To px)"
    using assms [OF Some] by (auto simp: map_get_def split: option.splits)
  then show ?thesis by (simp add: handle_tx_def Some Let_def after_decode_def react_def)
qed

lemma unrelated_tx_sample:
  "handle_tx sample_env (Some 0) (sample_mgr\<lparr>nm_EnemiesMap := Map.empty\<rparr>) =
     (sample_mgr\<lparr>nm_EnemiesMap := Map.empty\<rparr>, None)"
  by (rule unrelated_tx_is_ignored) (simp add: sample_mgr_def)

section \<open>Panics of the transaction loop\<close>

definition rebuild_panics :: "('tx, 'v) tx_env \<Rightarrow> ('tx, 'v) NodeMgr \<Rightarrow> string list \<Rightarrow> bool" where
  "rebuild_panics env n syms \<longleftrightarrow> syms \<noteq> [] \<and> nm_Signals n \<noteq> [] \<and>
     (nm_HeaderWsList n = [] \<or>
      (let sg = GetLastSignalBySymbol (nm_Signals n) (hd syms)
       in block_ok env (last (nm_HeaderWsList n)) sg \<and> \<not> tradable sg))"

lemma after_decode_panics:
  assumes "react (nm_Signals n \<noteq> []) d \<noteq> Cancel"
  shows "snd (after_decode env tx d n) = None \<longleftrightarrow> \<not> rebuild_panics env n (fst d)"
  using assms
  by (cases d) (auto simp: after_decode_def react_def rebuild_panics_def RebuildTx_cases Trade_cases
      rebuild_allowed_block_ok Let_def)

lemma router_tx_panics: "snd (after_decode env tx (syms, False) n) = None \<longleftrightarrow> \<not> rebuild_panics env n syms"
  using after_decode_panics [OF router_silent, where env = env and n = n and tx = tx] by simp

lemma enemy_tx_panics:
  "snd (enemy_tx env tx px n) = None \<longleftrightarrow> nm_HeaderWsList n \<noteq> [] \<and>
    \<not> rebuild_panics env n (fst (Call_DecodeToSymbol (te_rpc env) (nm_PairSymbolMap n) px))"
proof (cases "nm_HeaderWsList n = []")
  case False
  let ?n = "n\<lparr>nm_PendingTxList := window_push (nm_PendingTxList n) tx\<rparr>"
  have "snd (enemy_tx env tx px n) = snd (after_decode env tx (Call_DecodeToSymbol (te_rpc env) (nm_PairSymbolMap n) px) ?n)"
    using False by (simp add: enemy_tx_def Let_def go_last_nonempty)
  with False after_decode_panics [OF call_silent, where n = ?n] show ?thesis by (simp add: rebuild_panics_def)
qed (simp add: enemy_tx_def Let_def)

text \<open>
  C8: when a transaction makes the loop panic: when the channel hands out nil; when it goes to
  a router and its calldata does not decode without a panic; when it goes to a competitor
  before any header has arrived; and when a symbol is decoded and a signal is logged, but there
  is no header yet, or the signal looked up passes the block check and cannot be traded.
  No other transaction does.
\<close>

theorem transaction_panics_iff:
  "\<not> (snd (handle_tx env otx n) = None) \<longleftrightarrow>
   otx = None \<or>
   (\<exists>tx px ptx. otx = Some tx \<and> Option.bind (json_parse (te_marshal env tx)) unmarshal_PendingTx = Some px \<and>
      ptx = px\<lparr>px_From := te_sender env tx\<rparr> \<and>
      (case nm_RouterMap n (px_To px) of
         Some dexName \<Rightarrow>
           (case Router_DecodeToSymbol (te_router env) (nm_rDecoder n) dexName ptx of
              Inl _ \<Rightarrow> True | Inr syms \<Rightarrow> rebuild_panics env n syms)
       | None \<Rightarrow> nm_EnemiesMap n (px_To px) = Some True \<and>
           (nm_HeaderWsList n = [] \<or>
            rebuild_panics env n (fst (Call_DecodeToSymbol (te_rpc env) (nm_PairSymbolMap n) ptx)))))"
proof (cases otx)
  case None
  then show ?thesis by (simp add: handle_tx_def)
next
  case (Some tx)
  have ignored: "snd (after_decode env tx ([], False) n) = None" by (simp add: after_decode_def react_def)
  have "map_get False (nm_EnemiesMap n) k \<longleftrightarrow> nm_EnemiesMap n k = Some True" for k
    by (auto simp: map_get_def split: option.split)
  then show ?thesis
    by (auto simp: Some handle_tx_def Let_def ignored enemy_tx_panics router_tx_panics simp del: not_None_eq split: option.split sum.split)
qed

text \<open>The sample transaction panics while there is no header, and not once there is one.\<close>

theorem transaction_panics_iff_witness:
  "snd (handle_tx sample_env (Some 0) sample_mgr) \<noteq> None \<and> snd (handle_tx sample_env (Some 0) sample_ready) = None"
proof
  have m: "nm_RouterMap sample_mgr = Map.empty" "nm_EnemiesMap sample_mgr = [''0xenemy'' \<mapsto> True]"
    "nm_HeaderWsList sample_mgr = []" by (simp_all add: sample_mgr_def)
  show "snd (handle_tx sample_env (Some 0) sample_mgr) \<noteq> None"
    unfolding transaction_panics_iff by (simp add: sample_env_sel sample_tx m)
  have "\<not> (snd (handle_tx sample_env (Some 0) sample_ready) \<noteq> None)"
    unfolding transaction_panics_iff
    by (simp add: sample_env_sel sample_tx sample_ready_sel sample_decoded rebuild_panics_def sample_last_signal sample_tradable)
  then show "snd (handle_tx sample_env (Some 0) sample_ready) = None" by simp
qed

section \<open>Signals and blocks\<close>

text \<open>
  When no logged signal is for the symbol, \<open>GetLastSignalBySymbol\<close> does not return the zero
  signal: it returns the oldest logged signal, one for another symbol.
\<close>

lemma lookup_miss_returns_oldest:
  assumes "signals \<noteq> []" and "\<forall>sg \<in> set signals. sg_Symbol sg \<noteq> symbol"
  shows "GetLastSignalBySymbol signals symbol = hd signals \<and>
     sg_Symbol (GetLastSignalBySymbol signals symbol) \<noteq> symbol"
proof -
  have "find (\<lambda>sg. sg_Symbol sg = symbol) (rev signals) = None"
    using assms(2) by (simp add: find_None_iff)
  then show ?thesis using GetLast_not_found [OF assms(1)] assms by simp
qed

text \<open>
  C7: so a competitor's transaction for a symbol without a signal is answered by trading
  another symbol: when the oldest logged signal passes the block check and can be traded, the
  order published is that signal's, for its token and at its price.
\<close>

theorem unrelated_signal_is_traded:
  assumes "Option.bind (json_parse (te_marshal env tx)) unmarshal_PendingTx = Some px"
    and "nm_RouterMap n (px_To px) = None" and "nm_EnemiesMap n (px_To px) = Some True" and "nm_HeaderWsList n \<noteq> []"
    and "Call_DecodeToSymbol (te_rpc env) (nm_PairSymbolMap n) (px\<lparr>px_From := te_sender env tx\<rparr>) = (symbol # syms, onChain)"
    and "nm_Signals n = oldest # newer" and "\<forall>sg \<in> set (nm_Signals n). sg_Symbol sg \<noteq> symbol"
    and "block_ok env (last (nm_HeaderWsList n)) oldest" and "tradable oldest"
    and "te_publish env DATA_ORDER_TOOL (snd (order_for env oldest (te_gas_price env tx)))"
  shows "\<exists>ter. nm_Outbox (fst (handle_tx env (Some tx) n)) = nm_Outbox n @ [(DATA_ORDER_TOOL, ter)] \<and>
    (DATA_ORDER_TOOL, ter) = order_for env oldest (te_gas_price env tx) \<and> sg_Symbol oldest \<noteq> symbol \<and>
    tq_Token ter = go_upper (split_head CHR ''_'' (sg_Symbol oldest)) \<and> tq_PriceExpect ter = sg_PriceExpect oldest"
proof -
  let ?n = "n\<lparr>nm_PendingTxList := window_push (nm_PendingTxList n) tx\<rparr>"
  have "\<not> onChain" using assms(5) by (auto simp: Call_DecodeToSymbol_eq split: if_splits)
  have lookup: "GetLastSignalBySymbol (nm_Signals n) symbol = oldest"
    using lookup_miss_returns_oldest [of "nm_Signals n" symbol] assms(6,7) by simp
  have "fst (handle_tx env (Some tx) n) = fst (after_decode env tx (symbol # syms, onChain) ?n)"
    using assms(1-5) by (simp add: handle_tx_def enemy_tx_def Let_def map_get_def go_last_nonempty)
  moreover have "react (nm_Signals ?n \<noteq> []) (symbol # syms, onChain) \<noteq> Cancel"
    using \<open>\<not> onChain\<close> by (simp add: react_def)
  from after_decode_outbox [OF this, of env tx]
  have "nm_Outbox (fst (after_decode env tx (symbol # syms, onChain) ?n)) =
      nm_Outbox n @ [order_for env oldest (te_gas_price env tx)]"
    using assms(4,6,8-10) lookup \<open>\<not> onChain\<close> by (simp add: may_order_def rebuild_allowed_block_ok)
  ultimately show ?thesis
    using assms(6,7) by (auto simp: order_for_def request_of_def)
qed

text \<open>The competitor trades \<open>eth_usdt\<close>, the only signal is for \<open>avax_usdc\<close>.\<close>

theorem unrelated_signal_is_traded_witness:
  "nm_Outbox (fst (handle_tx sample_env (Some 0) (sample_ready\<lparr>nm_PairSymbolMap := [''0xpair'' \<mapsto> ''eth_usdt'']\<rparr>))) = [sample_order] \<and>
   tq_Token (snd sample_order) = ''AVAX''"
proof -
  let ?n = "sample_ready\<lparr>nm_PairSymbolMap := [''0xpair'' \<mapsto> ''eth_usdt'']\<rparr>"
  let ?px = "zero_PendingTx\<lparr>px_To := ''0xenemy'', px_Hash := ''0x1''\<rparr>"
  have d: "Call_DecodeToSymbol (te_rpc sample_env) (nm_PairSymbolMap ?n) tx = ([''eth_usdt''], False)" for tx
    by (simp add: sample_decoded_with map_filter_simps)
  have s: "sg_Symbol sample_signal = ''avax_usdc''" by (simp add: sample_signal_def)
  have token: "go_upper (split_head CHR ''_'' ''avax_usdc'') = ''AVAX''"
    by (simp add: split_head_takeWhile go_upper_def upper_char_def is_lower_def char_of_eq_iff)
  from unrelated_signal_is_traded [of sample_env 0 ?px ?n "''eth_usdt''" "[]" False sample_signal "[]"] d
  obtain ter where "nm_Outbox (fst (handle_tx sample_env (Some 0) ?n)) = [(DATA_ORDER_TOOL, ter)]"
    "(DATA_ORDER_TOOL, ter) = sample_order" "tq_Token ter = ''AVAX''"
    by (auto simp: sample_env_sel sample_tx sample_ready_sel s token sample_allowed sample_tradable sample_order_def)
  then show ?thesis by (metis snd_conv)
qed

text \<open>
  C39: the age check of \<open>GetPendingBlockNum\<close> compares a block's Unix time with the second
  of the minute, so it never finds a block with a time of 57 or later stale: the function
  returns the number after the last header's, however old that header is.
\<close>

theorem block_age_is_never_noticed:
  assumes "headers \<noteq> []" and "57 \<le> sint (bh_Time (last headers))"
    and "0 \<le> sint second" and "sint second \<le> 59"
  shows "GetPendingBlockNum headers second = Inr (big_Int64 (bh_Number (last headers)) + 1)"
proof -
  let ?d = "sint second - sint (bh_Time (last headers))"
  have "- (2 ^ 63) \<le> ?d" "?d < 2 ^ 63"
    using assms sint_lt [of "bh_Time (last headers)"] by simp_all
  then have "sint (second - bh_Time (last headers)) = ?d"
    by (simp add: sint_word_ariths signed_take_bit_int_eq_self)
  then have "\<not> 2 <s second - bh_Time (last headers)"
    using assms by (simp add: word_sless_alt)
  then show ?thesis using assms(1) by (simp add: GetPendingBlockNum_cases)
qed

theorem block_age_is_never_noticed_witness:
  "GetPendingBlockNum [sample_header] 30 = Inr 8"
  using block_age_is_never_noticed [of "[sample_header]" 30] by (simp add: sample_header_def big_Int64_eq)

section \<open>The fee\<close>

text \<open>
  C36: the priority fee of an order is the transaction's gas price plus one less the
  signal's base gas price. When that is negative the sign is lost, and the order carries
  the difference the other way round.
\<close>

theorem priority_fee:
  assumes "0 \<le> gas" and "gas < 2 ^ 63 - 1"
  shows "uint (ei_MaxPriorityFeePerGas (di_Info (tq_Dex (snd (order_for env sg gas))))) =
    (if base_gas_price (te_oob env) sg \<le> gas + 1 then gas + 1 - base_gas_price (te_oob env) sg
     else base_gas_price (te_oob env) sg - (gas + 1))"
  using order_fee [OF assms, of env sg] by simp

theorem priority_fee_witness:
  "uint (ei_MaxPriorityFeePerGas (di_Info (tq_Dex (snd (order_for sample_env sample_signal 24000000000))))) =
     999999999"
proof -
  have "f64_mul (Fin False 7036874417766400 (-48)) (Fin False 8388608000000000 (-23)) =
    Fin False 6553600000000000 (-18)"
    by (simp add: f64_eval)
  then have "base_gas_price (te_oob sample_env) sample_signal = 25000000000"
    by (simp add: base_gas_price_def sample_signal_def f64_of_nat_1e9 times_f64_def f64_to_int64_def)
  then show ?thesis using priority_fee [of 24000000000 sample_env sample_signal] by simp
qed

text \<open>
  C37: the base gas price is the signal's price in gwei turned into wei, off by less than one
  wei, for every finite price of at most nine million gwei: the rounding of the product to
  binary64 and the truncation to an integer together lose less than one.
\<close>

theorem base_price_rounding:
  assumes "f64_finite (sg_BaseGasPrice sg)" and "\<bar>f64_val (sg_BaseGasPrice sg) * 10 ^ 9\<bar> \<le> 9 * 10 ^ 15"
  shows "\<bar>real_of_int (base_gas_price oob sg) - f64_val (sg_BaseGasPrice sg) * 10 ^ 9\<bar> < 1"
  using assms by (rule base_gas_price_error)

theorem base_price_rounding_witness:
  "\<bar>real_of_int (base_gas_price (te_oob sample_env) sample_signal) - 25 * 10 ^ 9\<bar> < 1"
proof -
  have "f64_val (sg_BaseGasPrice sample_signal) = 25" and "f64_finite (sg_BaseGasPrice sample_signal)"
    by (simp_all add: sample_signal_def power_int_def power_divide)
  with base_price_rounding [of sample_signal "te_oob sample_env"] show ?thesis by simp
qed

text \<open>
  C27: the fee of every published order. In an execution that starts with empty logs an order
  goes back to a received transaction and a received signal, and its priority fee is, for
  gas prices in the range of \<open>int64\<close> and base prices of at most nine million gwei, within one
  wei of the distance between the transaction's gas price plus one and the signal's price.
\<close>

theorem published_fee_within_a_wei:
  assumes "sys_run s tr t" and "nm_Signals (sy_mgr s) = []" and "nm_HeaderWsList (sy_mgr s) = []"
    and "nm_Outbox (sy_mgr s) = []" and "(topic, q) \<in> set (nm_Outbox (sy_mgr t))"
  shows "\<exists>env tx sg. (env, TxArrived (Some tx)) \<in> set tr \<and> sg \<in> set (signal_history tr) \<and>
    (topic, q) = order_for env sg (te_gas_price env tx) \<and>
    (0 \<le> te_gas_price env tx \<and> te_gas_price env tx < 2 ^ 63 - 1 \<and>
       \<bar>f64_val (sg_BaseGasPrice sg) * 10 ^ 9\<bar> \<le> 9 * 10 ^ 15 \<longrightarrow>
     \<bar>real_of_int (uint (ei_MaxPriorityFeePerGas (di_Info (tq_Dex q)))) -
        \<bar>real_of_int (te_gas_price env tx) + 1 - f64_val (sg_BaseGasPrice sg) * 10 ^ 9\<bar>\<bar> < 1)"
proof -
  obtain env tx sg where o: "(env, TxArrived (Some tx)) \<in> set tr" "sg \<in> set (signal_history tr)"
    "(topic, q) = order_for env sg (te_gas_price env tx)"
    using run_orders [OF assms] unfolding order_justified_def by blast
  have fin: "f64_finite (sg_BaseGasPrice sg)"
    using run_signals_ok [OF o(2)] by (simp add: signal_ok_def f64_ok_def)
  have q: "q = snd (order_for env sg (te_gas_price env tx))" using o(3) by (metis snd_conv)
  show ?thesis
    using o order_fee_error [OF _ _ fin, of "te_gas_price env tx" env] unfolding q
    by (intro exI [of _ env] exI [of _ tx] exI [of _ sg]) simp
qed

theorem published_fee_within_a_wei_witness:
  "\<bar>real_of_int (uint (ei_MaxPriorityFeePerGas (di_Info (tq_Dex (snd sample_order))))) - 5000000001\<bar> < 1"
proof -
  have "f64_val (sg_BaseGasPrice sample_signal) = 25" by (simp add: sample_signal_def power_int_def power_divide)
  moreover have "signal_history sample_run = [sample_signal]"
    by (simp add: signal_history_def sample_run_def accepted_signal_def map_filter_simps sample_read sample_unmarshal)
  moreover have "(env, TxArrived (Some tx)) \<in> set sample_run \<Longrightarrow> te_gas_price env tx = 30000000000" for env tx
    by (auto simp: sample_run_def sample_env_def)
  ultimately show ?thesis
    using published_fee_within_a_wei [OF sample_sys_run sample_start(1-3), of "fst sample_order" "snd sample_order"]
    by (fastforce simp: sample_done_def)
qed

end
