(* ===== verification/Order_Properties.thy ===== *)
theory Order_Properties
  imports Sample_Chain
begin

text \<open>The properties of the two decoders and of the trading request.\<close>

section \<open>The trading request\<close>

text \<open>
  C22: building the request panics exactly when the signal's symbol has no underscore or
  the symbol of some path item, of any subject and depth detail, has no slash.
\<close>

theorem trade_panics_iff:
  "panics (trade_request pc nowMilli sg g) \<longleftrightarrow>
     CHR ''_'' \<notin> set (sg_Symbol sg) \<or>
     (\<exists>subject details d p. (subject, details) \<in> set (sg_DepthDetails sg) \<and> d \<in> set details \<and>
        p \<in> set (dd_Path d) \<and> CHR ''/'' \<notin> set (sp_Symbol p))"
proof -
  have "list_all has_slash ts \<longleftrightarrow> (\<forall>subject d p. (subject, d, p) \<in> set ts \<longrightarrow> CHR ''/'' \<in> set (sp_Symbol p))" for ts
    by (induction ts) (auto simp: has_slash_def)
  then show ?thesis
    by (simp add: trade_request_eq tradable_def hedge_targets_iff) blast
qed

theorem trade_panics_iff_witness:
  "panics (trade_request (te_consts sample_env) (\<lambda>_. 5) (sample_signal\<lparr>sg_Symbol := ''avax''\<rparr>) 1) \<and>
   \<not> panics (trade_request (te_consts sample_env) (\<lambda>_. 5) (sample_signal\<lparr>sg_DepthDetails := []\<rparr>) 1)"
  by (simp add: trade_panics_iff) (simp add: sample_signal_def)

text \<open>
  C13: the request of a signal for a symbol \<open>a_b\<close>: the token is \<open>a\<close> in upper case, the
  quote is \<open>b\<close> up to a further underscore in lower case, the side is a buy only for the
  exact text \<open>buy\<close>, identifiers, price, amount, contract address and the fields of the
  transaction are the signal's, its value as the decimal text, the priority fee is the
  absolute value of the new gas price, cut to 64 bits, and the rest is fixed.
\<close>

theorem trade_request_fields:
  assumes "sg_Symbol sg = a @ CHR ''_'' # b" and "CHR ''_'' \<notin> set a"
    and "trade_request pc nowMilli sg g = Inr r"
  shows "tq_Token r = go_upper a \<and> tq_Quote r = go_lower (takeWhile (\<lambda>c. c \<noteq> CHR ''_'') b) \<and>
    tq_TradeSide r = (if sg_Side sg = ''buy'' then TradeSide_BUY else TradeSide_SELL) \<and>
    tq_ReqNo r = sg_RegistId sg \<and> tq_Hedge r = sg_HedgeId sg \<and>
    tq_PriceExpect r = sg_PriceExpect sg \<and> tq_Amount r = sg_AmountArb sg \<and>
    tq_ExchangeAddr r = bt_To (sg_BuildTx sg) \<and> tq_ProjectId r = ''avalanche_v1'' \<and> tq_AccountId r = ''avalanche'' \<and>
    tq_TradeType r = TradeType_TAKER pc \<and> tq_ExchangeId r = Exchange_AVALANCHE_DEX pc \<and>
    tq_Market r = Market_SPOT pc \<and> tq_Type r = OrderSysType_TRADE_DEX pc \<and> tq_Contract r = SymbolType_SPOT_NORMAL pc \<and>
    di_Signer (tq_Dex r) = bt_From (sg_BuildTx sg) \<and>
    ei_TxType (di_Info (tq_Dex r)) = EthTransactionType_DynamicFeeTx pc \<and>
    ei_GasLimit (di_Info (tq_Dex r)) = bt_Gas (sg_BuildTx sg) \<and>
    ei_Nonce (di_Info (tq_Dex r)) = bt_Nonce (sg_BuildTx sg) \<and>
    ei_Data (di_Info (tq_Dex r)) = bt_Data (sg_BuildTx sg) \<and>
    uint (ei_MaxPriorityFeePerGas (di_Info (tq_Dex r))) = \<bar>g\<bar> mod 2 ^ 64 \<and>
    ei_MaxFeePerGas (di_Info (tq_Dex r)) = bt_MaxFeePerGas (sg_BuildTx sg) \<and>
    parse_decimal (ei_Value (di_Info (tq_Dex r))) = Some (sint (bt_Value (sg_BuildTx sg)))"
proof -
  have "r = request_of pc nowMilli sg g"
    using assms(3) by (simp add: trade_request_eq split: if_splits)
  moreover have "split_head CHR ''_'' (a @ CHR ''_'' # b) = a"
    using assms(2) by (simp add: split_head_def go_split_append)
  ultimately show ?thesis
    using assms(1,2)
    by (simp add: request_of_def dex_info_def split_second_append split_head_takeWhile [symmetric]
        parse_go_itoa trade_side_def uint_big_Uint64)
qed

theorem trade_request_fields_witness:
  "tq_Token (snd sample_order) = ''AVAX'' \<and> tq_Quote (snd sample_order) = ''usdc'' \<and>
   uint (ei_MaxPriorityFeePerGas (di_Info (tq_Dex (snd sample_order)))) =
     \<bar>rebuild_gas_price (te_oob sample_env) sample_signal 30000000000\<bar> mod 2 ^ 64"
proof -
  have s: "sg_Symbol sample_signal = ''avax'' @ CHR ''_'' # ''usdc''"
    by (simp add: sample_signal_def)
  have "trade_request (te_consts sample_env) (te_milli sample_env) sample_signal
      (rebuild_gas_price (te_oob sample_env) sample_signal 30000000000) = Inr (snd sample_order)"
    by (simp add: trade_request_eq sample_tradable sample_order_def order_for_def)
  from trade_request_fields [OF s _ this] show ?thesis
    by (simp add: go_upper_def go_lower_def upper_char_def lower_char_def is_upper_def is_lower_def char_of_eq_iff)
qed

definition untimed :: "OrderHedge \<Rightarrow> OrderHedge" where
  "untimed h = h\<lparr>oh_ExpiredTimeMs := 0\<rparr>"

lemma untimed_hedges:
  "map untimed (hedges_of nowMilli sg) = map (\<lambda>t. untimed (hedge_of sg 0 t)) (hedge_targets (sg_DepthDetails sg))"
proof -
  have u: "untimed (hedge_of sg t1 x) = untimed (hedge_of sg 0 x)" for t1 x
    by (cases x) (simp add: untimed_def hedge_of_def)
  have "map untimed (hedges_of nowMilli sg) =
    map (\<lambda>t. untimed (hedge_of sg 0 t)) (map snd (List.enumerate 0 (hedge_targets (sg_DepthDetails sg))))"
    unfolding hedges_of_def map_map by (rule map_cong) (auto intro: u)
  then show ?thesis by (simp only: map_snd_enumerate)
qed



lemma hedge_expiry: "i < length (hedges_of nowMilli sg) \<Longrightarrow> oh_ExpiredTimeMs (hedges_of nowMilli sg ! i) = 15000 + nowMilli i"
  by (simp add: hedges_of_def nth_enumerate_eq hedge_of_def split: prod.split)

lemma hedge_of_item:
  "untimed (hedge_of sg 0 (subject, d, p)) =
     \<lparr> oh_Side =
         (if map_get [] (map_of (map_get [] (map_of (sg_SymbolsTradeSide sg)) subject))
            (go_lower (map (\<lambda>c. if c = CHR ''/'' then CHR ''_'' else c) (sp_Symbol p))) = ''buy''
          then TradeSide_BUY else TradeSide_SELL),
       oh_PriceExpected = sp_PriceAvg p, oh_Amount = dd_ConsumeRatio d * dd_AmountSum d, oh_ExpiredTimeMs = 0,
       oh_Exchange = ucast (sp_Exchange p), oh_AccountId = ''ptneurm1'', oh_Market = ucast (sp_Market p),
       oh_Type = ucast (sp_SymbolType p), oh_Token = takeWhile (\<lambda>c. c \<noteq> CHR ''/'') (sp_Symbol p),
       oh_Quote = takeWhile (\<lambda>c. c \<noteq> CHR ''/'') (tl (dropWhile (\<lambda>c. c \<noteq> CHR ''/'') (sp_Symbol p))) \<rparr>"
  by (simp add: untimed_def hedge_of_def hedge_side_def trade_side_def go_replace_char split_head_takeWhile
      split_second_def Let_def)

text \<open>
  C20: the hedges of a request are those of the path items, one for each item of each depth
  detail of each subject, in this order. A hedge has the item's average price, the product
  of its detail's ratio and sum, the two halves of the item's symbol around the slash, and
  the side found under the item's subject and its symbol in lower case with an underscore
  for every slash, a missing entry being a sell; it expires 15 seconds after its pass read
  the clock.
\<close>

theorem hedges_are_the_path_items:
  assumes "trade_request pc nowMilli sg g = Inr r"
  shows "map untimed (tq_HedgeExpect r) =
     concat (map (\<lambda>(subject, details). concat (map (\<lambda>d. map (\<lambda>p.
       \<lparr> oh_Side =
           (if map_get [] (map_of (map_get [] (map_of (sg_SymbolsTradeSide sg)) subject))
              (go_lower (map (\<lambda>c. if c = CHR ''/'' then CHR ''_'' else c) (sp_Symbol p))) = ''buy''
            then TradeSide_BUY else TradeSide_SELL),
         oh_PriceExpected = sp_PriceAvg p, oh_Amount = dd_ConsumeRatio d * dd_AmountSum d, oh_ExpiredTimeMs = 0,
         oh_Exchange = ucast (sp_Exchange p), oh_AccountId = ''ptneurm1'', oh_Market = ucast (sp_Market p),
         oh_Type = ucast (sp_SymbolType p), oh_Token = takeWhile (\<lambda>c. c \<noteq> CHR ''/'') (sp_Symbol p),
         oh_Quote = takeWhile (\<lambda>c. c \<noteq> CHR ''/'') (tl (dropWhile (\<lambda>c. c \<noteq> CHR ''/'') (sp_Symbol p))) \<rparr>)
       (dd_Path d)) details)) (sg_DepthDetails sg)) \<and>
   (\<forall>i < length (tq_HedgeExpect r). oh_ExpiredTimeMs (tq_HedgeExpect r ! i) = 15000 + nowMilli i)"
proof -
  have r: "tq_HedgeExpect r = hedges_of nowMilli sg"
    using assms by (auto simp: trade_request_eq request_of_def split: if_splits)
  show ?thesis
    unfolding r untimed_hedges
    by (simp add: hedge_expiry hedge_targets_def map_concat comp_def split_def hedge_of_item)
qed

theorem hedges_are_the_path_items_witness:
  "\<exists>h. tq_HedgeExpect (snd sample_order) = [h] \<and> oh_Token h = ''AVAX'' \<and> oh_Quote h = ''USDC'' \<and>
     oh_Side h = TradeSide_SELL \<and> oh_ExpiredTimeMs h = 15000 + te_milli sample_env 0"
proof -
  have "trade_request (te_consts sample_env) (te_milli sample_env) sample_signal
      (rebuild_gas_price (te_oob sample_env) sample_signal 30000000000) = Inr (snd sample_order)"
    by (simp add: trade_request_eq sample_tradable sample_order_def order_for_def)
  note c = hedges_are_the_path_items [OF this]
  have "length (map untimed (tq_HedgeExpect (snd sample_order))) = 1"
    unfolding c [THEN conjunct1] by (simp add: sample_signal_def sample_detail_def)
  then obtain h where h: "tq_HedgeExpect (snd sample_order) = [h]" by (auto simp: length_Suc_conv)
  with c have "oh_Token (untimed h) = ''AVAX''" "oh_Quote (untimed h) = ''USDC''"
    "oh_Side (untimed h) = TradeSide_SELL" "oh_ExpiredTimeMs h = 15000 + te_milli sample_env 0"
    by (simp_all add: sample_signal_def sample_detail_def sample_path_def zero_Signal_def map_get_def)
  with h show ?thesis by (simp add: untimed_def)
qed

section \<open>The call decoder\<close>

text \<open>
  C19: the symbols of a competitor's transaction are those of the known pairs among all
  the contracts its call tree calls, at any depth, and there are none when it is mined.
\<close>

theorem call_symbols:
  "symbol \<in> set (fst (Call_DecodeToSymbol rpc pairSymbolMap tx)) \<longleftrightarrow>
     \<not> rpc_receipt rpc (px_Hash tx) \<and>
     (\<exists>c. call_in (traced_calls rpc tx) c \<and> pairSymbolMap (cr_To c) = Some symbol)"
  by (auto simp: Call_DecodeToSymbol_eq set_map_filter set_GetAllAddress)

text \<open>
  \<open>GetAllAddress\<close> lists one address per call, in the order of a depth-first walk that
  visits a call before the calls it makes.
\<close>

lemma all_addresses_preorder:
  "GetAllAddress cs = concat (map (\<lambda>c. cr_To c # GetAllAddress (cr_Call c)) cs) \<and>
   length (GetAllAddress cs) = count_calls cs"
  by (induction cs) (simp_all add: GetAllAddress_Cons length_GetAllAddress [symmetric])

text \<open>
  The two goroutines of the call decoder may finish in either order: the result is
  the same.
\<close>

lemma call_decoder_schedule_independent:
  "collect_symbols m (trace_job rpc tx (receipt_job rpc tx init_vars)) = Call_DecodeToSymbol rpc m tx"
  by (simp add: Call_DecodeToSymbol_def jobs_commute)

section \<open>The router decoder\<close>

lemma traderjoe_swap_symbols:
  assumes "10 \<le> length (px_Input tx)"
    and "go_hex_decode (take 8 (drop 2 (px_Input tx))) = (funcSig, False)"
    and "rd_TraderjoeRouterAbi rd funcSig = Some unpack"
    and "unpack (fst (go_hex_decode (drop 10 (px_Input tx)))) = Some params"
    and "2 < length params" and "rl_path lib (params ! 2) = Some path"
    and "tj_TokenPath path = a0 # a1 # rest"
    and "rd_AddrTokens rd (rl_address_string lib a0) = Some t0"
    and "rd_AddrTokens rd (rl_address_string lib a1) = Some t1"
  shows "Router_DecodeToSymbol lib (Some rd) ''traderjoe'' tx = Inr [t0 @ ''_'' @ t1, t1 @ ''_'' @ t0]"
  using assms
  by (simp add: Router_DecodeToSymbol_eq router_branch_def traderjoe_symbols_def go_index_def pair_symbol_def)

lemma traderjoe_symbols_nonempty:
  assumes "traderjoe_symbols lib rd funcSig ti = Inr syms" and "syms \<noteq> []"
  shows "\<exists>unpack params path a0 a1 rest t0 t1. rd_TraderjoeRouterAbi rd funcSig = Some unpack \<and>
    unpack ti = Some params \<and> 2 < length params \<and> rl_path lib (params ! 2) = Some path \<and>
    tj_TokenPath path = a0 # a1 # rest \<and> rd_AddrTokens rd (rl_address_string lib a0) = Some t0 \<and>
    rd_AddrTokens rd (rl_address_string lib a1) = Some t1 \<and> syms = [t0 @ ''_'' @ t1, t1 @ ''_'' @ t0]"
proof -
  obtain unpack params path t0 t1 where *: "rd_TraderjoeRouterAbi rd funcSig = Some unpack" "unpack ti = Some params"
    "2 < length params" "rl_path lib (params ! 2) = Some path" "1 < length (tj_TokenPath path)"
    "rd_AddrTokens rd (rl_address_string lib (tj_TokenPath path ! 0)) = Some t0"
    "rd_AddrTokens rd (rl_address_string lib (tj_TokenPath path ! 1)) = Some t1"
    "syms = [t0 @ ''_'' @ t1, t1 @ ''_'' @ t0]"
    using assms by (auto simp: traderjoe_symbols_def go_simps pair_symbol_def split: option.splits)
  moreover obtain a0 a1 rest where "tj_TokenPath path = a0 # a1 # rest"
    using *(5) by (cases "tj_TokenPath path" rule: list.exhaust; cases "tl (tj_TokenPath path)") auto
  ultimately show ?thesis by auto
qed

text \<open>
  C35: a router transaction gives symbols exactly when the router is Trader Joe's, its
  calldata has a selector, the method and its parameters decode, and the third parameter is
  a path whose first two tokens are known. The symbols are then both orders of the pair, in
  this order, and nothing else.
\<close>

theorem router_symbols_iff:
  "Router_DecodeToSymbol lib r dexName tx = Inr syms \<and> syms \<noteq> [] \<longleftrightarrow>
   dexName = ''traderjoe'' \<and> 10 \<le> length (px_Input tx) \<and>
   (\<exists>rd funcSig unpack params path a0 a1 rest t0 t1. r = Some rd \<and>
      go_hex_decode (take 8 (drop 2 (px_Input tx))) = (funcSig, False) \<and>
      rd_TraderjoeRouterAbi rd funcSig = Some unpack \<and>
      unpack (fst (go_hex_decode (drop 10 (px_Input tx)))) = Some params \<and>
      2 < length params \<and> rl_path lib (params ! 2) = Some path \<and> tj_TokenPath path = a0 # a1 # rest \<and>
      rd_AddrTokens rd (rl_address_string lib a0) = Some t0 \<and>
      rd_AddrTokens rd (rl_address_string lib a1) = Some t1 \<and>
      syms = [t0 @ ''_'' @ t1, t1 @ ''_'' @ t0])"
  (is "?L \<longleftrightarrow> ?R")
proof
  assume L: ?L
  then obtain rd where rd: "dexName = ''traderjoe''" "r = Some rd" using Router_cases by blast
  obtain funcSig err where sig: "go_hex_decode (take 8 (drop 2 (px_Input tx))) = (funcSig, err)" by fastforce
  from L rd sig have "10 \<le> length (px_Input tx)" "\<not> err"
    "traderjoe_symbols lib rd funcSig (fst (go_hex_decode (drop 10 (px_Input tx)))) = Inr syms"
    by (auto simp: Router_DecodeToSymbol_eq router_branch_def split: if_splits)
  with rd sig traderjoe_symbols_nonempty [OF this(3)] L show ?R by simp
next
  assume ?R
  then show ?L using traderjoe_swap_symbols by fastforce
qed

theorem router_symbols_iff_witness:
  "Router_DecodeToSymbol
     \<lparr> rl_path = (\<lambda>v. Some \<lparr> tj_PairBinSteps = [], tj_Versions = [], tj_TokenPath = [[1], [2]] \<rparr>),
       rl_address_string = (\<lambda>a. if a = [1] then ''A1'' else ''A2'') \<rparr>
     (Some \<lparr> rd_AddrTokens = [''A1'' \<mapsto> ''avax'', ''A2'' \<mapsto> ''usdc''], rd_UniswapV3RouterAbi = (\<lambda>_. None),
             rd_TraderjoeRouterAbi = (\<lambda>s. Some (\<lambda>d. Some [0::nat, 1, 2])) \<rparr>)
     ''traderjoe'' (zero_PendingTx\<lparr>px_Input := ''0x01020304ff''\<rparr>) =
   Inr [''avax_usdc'', ''usdc_avax'']"
  (is "Router_DecodeToSymbol ?lib ?r _ ?tx = Inr ?syms")
proof -
  have "go_hex_decode (take 8 (drop 2 (px_Input ?tx))) = ([1, 2, 3, 4], False)"
    by (simp add: hex_value_def)
  then show ?thesis
    using router_symbols_iff [of ?lib ?r "''traderjoe''" ?tx ?syms] by simp
qed

text \<open>
  A transaction to a known router whose calldata is shorter than a selector, such as a
  plain transfer, makes the transaction loop panic and leaves the manager as it was.
\<close>

lemma short_calldata_panics:
  assumes "Option.bind (json_parse (te_marshal env tx)) unmarshal_PendingTx = Some px" and "nm_RouterMap n (px_To px) = Some dexName"
    and "length (px_Input px) < 10"
  shows "handle_tx env (Some tx) n = (n, Some SliceOutOfRange)"
  using assms by (simp add: handle_tx_def Let_def Router_short_input)

text \<open>
  Only Trader Joe swaps give symbols: a transaction to the Uniswap router, or to one
  under any other name, gives none.
\<close>

lemma only_traderjoe_gives_symbols:
  assumes "Router_DecodeToSymbol lib r dexName tx = Inr syms" and "dexName \<noteq> ''traderjoe''"
  shows "syms = []"
  using Router_cases [OF assms(1)] assms(2) by blast

lemma only_traderjoe_gives_symbols_witness:
  "\<exists>syms. Router_DecodeToSymbol (te_router sample_env) None ''other'' (zero_PendingTx\<lparr>px_Input := ''0x01020304''\<rparr>) = Inr syms \<and> syms = []"
proof -
  have r: "Router_DecodeToSymbol (te_router sample_env) None ''other'' (zero_PendingTx\<lparr>px_Input := ''0x01020304''\<rparr>) = Inr []"
    by (rule Router_other_dex_total) simp_all
  show ?thesis using r only_traderjoe_gives_symbols [OF r] by blast
qed

end
