(* ===== verification/Config_Load.thy ===== *)
theory Config_Load
  imports Go_Strings "HOL-Library.AList"
begin

text \<open>
  \<open>config/config.go\<close>: reading the configuration and the directory of pair files. The
  directory and the files are data; the TOML loaders of the sibling modules and the JSON
  library \<open>goccy/go-json\<close>, which are not part of the repository, are arguments. Every
  failure is an explicit panic.
\<close>

section \<open>The configuration\<close>

text \<open>The fields of a chain item and of a pair that the program reads or stores.\<close>

record TtChainItem =
  ci_Router :: "(string \<times> string) list"
  ci_Tokens :: "(string \<times> string) list"
  ci_Endpoint :: string
  ci_WsEndpoint :: string

record 'f Pairs =
  pr_Contract :: string
  pr_Token0 :: string
  pr_Token1 :: string
  pr_ReverseTokenOrder :: bool
  pr_RawFee :: int64
  pr_Fee :: 'f
  pr_Proto :: string
  pr_Factory :: string
  pr_Index :: int64
  pr_TickSpacing :: int64
  pr_BinStep :: int64
  pr_BaseFactor :: int64
  pr_FilterPeriod :: int64
  pr_DecayPeriod :: int64
  pr_ReductionFactor :: int64
  pr_VariableFeeControl :: int64
  pr_MaxVolatilityAccumulator :: int64

type_synonym 'f pairs_map = "(string \<times> 'f Pairs) list"

record ('n, 'f) DexExecutorConfig =
  gc_LogPath :: string
  gc_LogLevel :: string
  gc_Env :: string
  gc_IsTest :: bool
  gc_ProxyUrl :: string
  gc_NatsConfig :: 'n
  gc_ChainConfig :: "(string \<times> TtChainItem) list"
  gc_ChainEnemies :: "(string \<times> string list) list"
  gc_ChainPairs :: "(string \<times> 'f pairs_map) list"

section \<open>\<open>LoadPairsConfig\<close>\<close>

text \<open>A directory entry; the content of a file that cannot be read is missing.\<close>

record dir_entry =
  de_Name :: string
  de_IsDir :: bool
  de_Content :: "string option"

fun load_pairs_loop ::
    "(string \<Rightarrow> 'f pairs_map option) \<Rightarrow> dir_entry list \<Rightarrow> (string \<times> 'f pairs_map) list
      \<Rightarrow> (string \<times> 'f pairs_map) list go" where
  "load_pairs_loop unmarshal [] chainPairsMap = Inr chainPairsMap"
| "load_pairs_loop unmarshal (fi # rd) chainPairsMap =
     (if de_IsDir fi then load_pairs_loop unmarshal rd chainPairsMap
      else (case de_Content fi of
          None \<Rightarrow> Inl (Raised ''read file'')
        | Some content \<Rightarrow>
            (case unmarshal content of
               None \<Rightarrow> Inl (Raised ''unmarshal'')
             | Some pairsMap \<Rightarrow>
                 load_pairs_loop unmarshal rd
                   (AList.update (split_head CHR ''.'' (de_Name fi)) pairsMap chainPairsMap))))"

definition LoadPairsConfig ::
    "(string \<Rightarrow> 'f pairs_map option) \<Rightarrow> dir_entry list option \<Rightarrow> (string \<times> 'f pairs_map) list go" where
  "LoadPairsConfig unmarshal dir =
     (case dir of
        None \<Rightarrow> Inl (Raised ''read dir'')
      | Some rd \<Rightarrow> load_pairs_loop unmarshal rd [])"

section \<open>\<open>LoadConfigFile\<close>\<close>

definition LoadConfigFile ::
    "(string \<Rightarrow> ('n, 'f) DexExecutorConfig option) \<Rightarrow> (string \<Rightarrow> (string \<times> TtChainItem) list option)
      \<Rightarrow> (string \<Rightarrow> 'f pairs_map option) \<Rightarrow> (string \<Rightarrow> dir_entry list option) \<Rightarrow> string
      \<Rightarrow> ('n, 'f) DexExecutorConfig go" where
  "LoadConfigFile sdk_load cli_load unmarshal read_dir file =
     (case sdk_load file of
        None \<Rightarrow> Inl (Raised ''load config'')
      | Some g \<Rightarrow>
          (case cli_load file of
             None \<Rightarrow> Inl (Raised ''load chains'')
           | Some chainList \<Rightarrow>
               go_bind (LoadPairsConfig unmarshal (read_dir ''./conf/pairs'')) (\<lambda>chainPairsMap.
                 Inr (g\<lparr>gc_ChainConfig := chainList, gc_ChainPairs := chainPairsMap\<rparr>))))"

text \<open>The package's \<open>init\<close>, before \<open>main\<close>; what it returns is \<open>GlobalConfig\<close>.\<close>

definition config_init ::
    "(string \<Rightarrow> ('n, 'f) DexExecutorConfig option) \<Rightarrow> (string \<Rightarrow> (string \<times> TtChainItem) list option)
      \<Rightarrow> (string \<Rightarrow> 'f pairs_map option) \<Rightarrow> (string \<Rightarrow> dir_entry list option)
      \<Rightarrow> ('n, 'f) DexExecutorConfig go" where
  "config_init sdk_load cli_load unmarshal read_dir =
     LoadConfigFile sdk_load cli_load unmarshal read_dir ''./conf/config.toml''"

section \<open>What a load returns\<close>

definition pair_files :: "dir_entry list \<Rightarrow> dir_entry list" where
  "pair_files rd = filter (\<lambda>fi. \<not> de_IsDir fi) rd"

definition readable :: "(string \<Rightarrow> 'p option) \<Rightarrow> dir_entry \<Rightarrow> bool" where
  "readable unmarshal fi \<longleftrightarrow> (\<exists>c. de_Content fi = Some c \<and> unmarshal c \<noteq> None)"

lemma load_pairs_loop_panics:
  "panics (load_pairs_loop unmarshal rd m) \<longleftrightarrow> (\<exists>fi \<in> set (pair_files rd). \<not> readable unmarshal fi)"
  by (induction rd arbitrary: m) (auto simp: pair_files_def readable_def split: option.splits)

definition chain_of_file :: "dir_entry \<Rightarrow> string" where
  "chain_of_file fi = split_head CHR ''.'' (de_Name fi)"

lemma load_pairs_loop_lookup:
  assumes "load_pairs_loop unmarshal rd m = Inr r"
  shows "map_of r chain =
     (case find (\<lambda>fi. chain_of_file fi = chain) (rev (pair_files rd)) of
        None \<Rightarrow> map_of m chain
      | Some fi \<Rightarrow> Option.bind (de_Content fi) unmarshal)"
  using assms
proof (induction rd arbitrary: m)
  case Nil
  then show ?case by (simp add: pair_files_def)
next
  case (Cons fi rd)
  show ?case
  proof (cases "de_IsDir fi")
    case True
    with Cons show ?thesis by (simp add: pair_files_def)
  next
    case False
    with Cons.prems obtain c p where c: "de_Content fi = Some c" "unmarshal c = Some p"
      and r: "load_pairs_loop unmarshal rd (AList.update (chain_of_file fi) p m) = Inr r"
      by (auto simp: chain_of_file_def split: option.splits)
    from Cons.IH [OF r] False c show ?thesis
      by (simp add: pair_files_def find_append update_conv chain_of_file_def split: option.splits)
  qed
qed

text \<open>The pairs of a chain: those of the last file named after it, none without such a file.\<close>

definition pairs_of_chain :: "(string \<Rightarrow> 'f pairs_map option) \<Rightarrow> dir_entry list \<Rightarrow> string \<Rightarrow> 'f pairs_map" where
  "pairs_of_chain unmarshal rd chain =
     (case find (\<lambda>fi. chain_of_file fi = chain) (rev (pair_files rd)) of
        None \<Rightarrow> []
      | Some fi \<Rightarrow> the (unmarshal (the (de_Content fi))))"

lemma LoadPairsConfig_Some:
  "(\<exists>m. LoadPairsConfig unmarshal (Some rd) = Inr m) \<longleftrightarrow> (\<forall>fi \<in> set (pair_files rd). readable unmarshal fi)"
  using load_pairs_loop_panics [of unmarshal rd "[]"]
  by (auto simp: LoadPairsConfig_def panics_def split: sum.splits)

lemma pairs_of_chain_loaded:
  assumes "LoadPairsConfig unmarshal (Some rd) = Inr m"
  shows "map_get [] (map_of m) chain = pairs_of_chain unmarshal rd chain"
proof -
  have loop: "load_pairs_loop unmarshal rd [] = Inr m" using assms by (simp add: LoadPairsConfig_def)
  have "readable unmarshal fi" if found: "find (\<lambda>fi. chain_of_file fi = chain) (rev (pair_files rd)) = Some fi" for fi
  proof -
    have "fi \<in> set (rev (pair_files rd))" using found unfolding find_Some_iff by (metis nth_mem)
    with assms LoadPairsConfig_Some [of unmarshal rd] show ?thesis by auto
  qed
  with load_pairs_loop_lookup [OF loop, of chain] show ?thesis
    by (auto simp: map_get_def pairs_of_chain_def readable_def split: option.splits)
qed

lemma config_init_returns:
  "config_init sdk_load cli_load unmarshal read_dir = Inr gc \<longleftrightarrow>
   (\<exists>g chains rd m. sdk_load ''./conf/config.toml'' = Some g \<and> cli_load ''./conf/config.toml'' = Some chains \<and>
      read_dir ''./conf/pairs'' = Some rd \<and> LoadPairsConfig unmarshal (Some rd) = Inr m \<and>
      gc = g\<lparr>gc_ChainConfig := chains, gc_ChainPairs := m\<rparr>)"
  by (cases "read_dir ''./conf/pairs''")
    (auto simp: config_init_def LoadConfigFile_def LoadPairsConfig_def go_simps split: option.split)

end
