(* ===== verification/Nats_Sub.thy ===== *)
theory Nats_Sub
  imports Go_Strings
begin

text \<open>
  \<open>core/nats_sub.go\<close>: one channel of signals per configured chain key, and the handler
  that routes a NATS message to the channel its subject names. The channels are
  unbuffered: the state of a channel is the list of the messages whose handlers wait for
  the manager to receive, the one that waits longest first.
\<close>

type_synonym signal_chans = "string \<rightharpoonup> string list"

definition init_ReceiveSignalChan :: "string list \<Rightarrow> signal_chans" where
  "init_ReceiveSignalChan keys = map_build (\<lambda>k. k) (\<lambda>_. []) keys"

definition SignalMsgHandler :: "string \<Rightarrow> string \<Rightarrow> signal_chans \<Rightarrow> signal_chans \<times> go_panic option" where
  "SignalMsgHandler subject data chans =
     (case go_index (go_split CHR ''.'' subject) 4 of
        Inl p \<Rightarrow> (chans, Some p)
      | Inr key \<Rightarrow>
          (case chans key of
             None \<Rightarrow> (chans, None)
           | Some msgs \<Rightarrow> (chans(key \<mapsto> msgs @ [data]), None)))"

definition NATS_SIGNAL_SUBJECT :: string where
  "NATS_SIGNAL_SUBJECT = ''cexdex.hedge.signal.{{Chain}}.{{ProjectId}}''"

text \<open>The subject \<open>main\<close> subscribes to for the chain key \<open>k\<close>.\<close>

definition chain_name :: "string \<Rightarrow> string" where
  "chain_name k = split_head CHR ''_'' k"

definition signal_key :: "string \<Rightarrow> string" where
  "signal_key k =
     (let signalKey = go_replace NATS_SIGNAL_SUBJECT ''{{Chain}}'' (chain_name k) (-1)
      in go_replace signalKey ''{{ProjectId}}'' k (-1))"

lemma set_chain_name: "set (chain_name k) \<subseteq> set k"
  by (auto simp: chain_name_def split_head_takeWhile dest: set_takeWhileD)

lemma replace_rest: "go_replace ''.{{ProjectId}}'' ''{{Chain}}'' c (-2) = ''.{{ProjectId}}''"
  by (simp add: go_replace_skip go_replace_miss)

lemma signal_key_eq:
  assumes "CHR ''{'' \<notin> set k"
  shows "signal_key k = ''cexdex.hedge.signal.'' @ chain_name k @ ''.'' @ k"
proof -
  let ?c = "chain_name k"
  have c: "CHR ''{'' \<notin> set ?c" using assms set_chain_name by blast
  have "go_replace (''cexdex.hedge.signal.'' @ ''{{Chain}}'' @ ''.{{ProjectId}}'') ''{{Chain}}'' ?c (-1)
    = ''cexdex.hedge.signal.'' @ ?c @ ''.{{ProjectId}}''"
    by (subst go_replace_skip_many) (simp, subst go_replace_hit, simp_all add: replace_rest)
  then have 1: "go_replace NATS_SIGNAL_SUBJECT ''{{Chain}}'' ?c (-1) = ''cexdex.hedge.signal.'' @ ?c @ ''.{{ProjectId}}''"
    by (simp add: NATS_SIGNAL_SUBJECT_def)
  have "go_replace ((''cexdex.hedge.signal.'' @ ?c @ ''.'') @ ''{{ProjectId}}'') ''{{ProjectId}}'' k (-1)
    = (''cexdex.hedge.signal.'' @ ?c @ ''.'') @ k"
    using c go_replace_hit [of "-1" "''{{ProjectId}}''" "[]" k]
    by (subst go_replace_skip_many) auto
  then show ?thesis using 1 by (simp add: signal_key_def)
qed

lemma signal_key_parts:
  assumes "CHR ''{'' \<notin> set k" and "CHR ''.'' \<notin> set k"
  shows "go_split CHR ''.'' (signal_key k) = [''cexdex'', ''hedge'', ''signal'', chain_name k, k]"
proof -
  have c: "CHR ''.'' \<notin> set (chain_name k)" using assms(2) set_chain_name by blast
  have n: "CHR ''.'' \<notin> set ''cexdex''" "CHR ''.'' \<notin> set ''hedge''" "CHR ''.'' \<notin> set ''signal''"
    by simp_all
  have key: "signal_key k =
    ''cexdex'' @ CHR ''.'' # ''hedge'' @ CHR ''.'' # ''signal'' @ CHR ''.'' # chain_name k @ CHR ''.'' # k"
    using assms(1) by (simp add: signal_key_eq)
  show ?thesis unfolding key by (simp only: go_split_append go_split_notin n c assms(2) not_False_eq_True)
qed

end
