(* ===== verification/Node_Client.thy ===== *)
theory Node_Client
  imports Sliding_Window Core_Types
begin

text \<open>
  \<open>NodeClient\<close> of \<open>core/ethwebsocket.go\<close> and its message handlers in
  \<open>core/node_ws.go\<close>: dialling the node, subscribing with endless retries, and the two
  handlers for raw websocket messages. Dialling and the outcome of the i-th attempt to
  subscribe are arguments; sleeping is counted in seconds.
\<close>

section \<open>\<open>NewDexNodeClient\<close>\<close>

record 'c NodeClient =
  nc_RpcUrl :: string
  nc_client :: "'c option"
  nc_wsClient :: "'c option"
  nc_WsUrl :: string
  nc_HeaderWsList :: "HeadRsp list"

definition NewDexNodeClient :: "(string \<Rightarrow> 'c option) \<Rightarrow> string \<Rightarrow> string \<Rightarrow> 'c NodeClient option" where
  "NewDexNodeClient dial rpcUrl wsUrl =
     (case dial rpcUrl of
        None \<Rightarrow> None
      | Some c \<Rightarrow>
          (case dial wsUrl of
             None \<Rightarrow> None
           | Some w \<Rightarrow> Some \<lparr> nc_RpcUrl = rpcUrl, nc_client = Some c, nc_wsClient = Some w,
                               nc_WsUrl = wsUrl, nc_HeaderWsList = [] \<rparr>))"

section \<open>Subscribing\<close>

text \<open>
  \<open>SubscribeFullPendingTransactions\<close> and \<open>SubscribeNewHeads\<close> have the same body: on an
  error they sleep five seconds and call themselves; after the nested call returns they
  go on to log success. The result is the time slept and the number of success lines;
  \<open>None\<close> is a call that never returns.
\<close>

partial_function (option) subscribe_retry :: "(nat \<Rightarrow> bool) \<Rightarrow> nat \<Rightarrow> (nat \<times> nat) option" where
  "subscribe_retry ok i =
     (if ok i then Some (0, 1)
      else Option.bind (subscribe_retry ok (Suc i)) (\<lambda>(slept, logs). Some (5 + slept, Suc logs)))"

definition SubscribeFullPendingTransactions :: "(nat \<Rightarrow> bool) \<Rightarrow> (nat \<times> nat) option" where
  "SubscribeFullPendingTransactions ok = subscribe_retry ok 0"

definition SubscribeNewHeads :: "(nat \<Rightarrow> bool) \<Rightarrow> (nat \<times> nat) option" where
  "SubscribeNewHeads ok = subscribe_retry ok 0"

lemma subscribe_retry_succeeds:
  "ok (i + n) \<Longrightarrow> (\<And>j. j < n \<Longrightarrow> \<not> ok (i + j)) \<Longrightarrow> subscribe_retry ok i = Some (5 * n, Suc n)"
proof (induction n arbitrary: i)
  case 0
  then show ?case by (simp add: subscribe_retry.simps)
next
  case (Suc n)
  have "subscribe_retry ok (Suc i) = Some (5 * n, Suc n)"
  proof (rule Suc.IH)
    show "ok (Suc i + n)" using Suc.prems(1) by simp
    show "\<not> ok (Suc i + j)" if "j < n" for j using Suc.prems(2) [of "Suc j"] that by simp
  qed
  moreover have "\<not> ok i" using Suc.prems(2) [of 0] by simp
  ultimately show ?case by (subst subscribe_retry.simps) simp
qed

lemma subscribe_retry_returns:
  assumes "subscribe_retry ok i = Some r"
  shows "\<exists>n. ok (i + n)"
proof (rule subscribe_retry.raw_induct [where P = "\<lambda>ok i r. \<exists>n. ok (i + n)", OF _ assms])
  fix f :: "(nat \<Rightarrow> bool) \<Rightarrow> nat \<Rightarrow> (nat \<times> nat) option" and ok i r
  assume IH: "\<And>ok i r. f ok i = Some r \<Longrightarrow> \<exists>n. ok (i + n)"
    and eq: "(if ok i then Some (0, 1)
      else Option.bind (f ok (Suc i)) (\<lambda>(slept, logs). Some (5 + slept, Suc logs))) = Some r"
  show "\<exists>n. ok (i + n)"
  proof (cases "ok i")
    case True
    then show ?thesis by (intro exI [of _ 0]) simp
  next
    case False
    with eq obtain r' where "f ok (Suc i) = Some r'" by (auto simp: bind_eq_Some_conv)
    from IH [OF this] obtain n where "ok (Suc i + n)" ..
    then show ?thesis by (intro exI [of _ "Suc n"]) simp
  qed
qed

lemma subscribe_retry_eq:
  "subscribe_retry ok 0 = (if \<exists>n. ok n then Some (5 * (LEAST n. ok n), Suc (LEAST n. ok n)) else None)"
proof (cases "\<exists>n. ok n")
  case True
  then have "ok (LEAST n. ok n)" by (rule LeastI_ex)
  then have "subscribe_retry ok 0 = Some (5 * (LEAST n. ok n), Suc (LEAST n. ok n))"
    by (intro subscribe_retry_succeeds) (auto dest: not_less_Least)
  with True show ?thesis by simp
next
  case False
  then show ?thesis using subscribe_retry_returns [of ok 0] by (cases "subscribe_retry ok 0") auto
qed

section \<open>Message handlers\<close>

text \<open>A handler returns whether it reported an error.\<close>

definition HeadsHandler ::
    "bytes \<Rightarrow> 'c NodeClient \<Rightarrow> 'c NodeClient \<times> bool" where
  "HeadsHandler data n =
     (if go_contains data ''invalid request'' then (n, False)
      else (case Option.bind (json_parse data) unmarshal_HeadRsp of
          None \<Rightarrow> (n, True)
        | Some headWsRsp \<Rightarrow>
            if hd_Method headWsRsp = [] then (n, False)
            else (n\<lparr>nc_HeaderWsList := window_push (nc_HeaderWsList n) headWsRsp\<rparr>, False)))"

definition PendingTxHandler ::
    "bytes \<Rightarrow> 'c NodeClient \<Rightarrow> 'c NodeClient \<times> bool" where
  "PendingTxHandler data n =
     (if go_contains data ''invalid request'' then (n, False)
      else (case Option.bind (json_parse data) unmarshal_PendingTx of
          None \<Rightarrow> (n, True)
        | Some _ \<Rightarrow> (n, False)))"

lemma HeadsHandler_bounded:
  "length (nc_HeaderWsList n) \<le> 201 \<Longrightarrow> length (nc_HeaderWsList (fst (HeadsHandler data n))) \<le> 201"
  by (auto simp: HeadsHandler_def window.push_cap split: option.splits)

text \<open>
  The notifications of a node carry the block number as a hexadecimal string, which does
  not decode into the integer field.
\<close>

lemma HeadResult_number_string:
  assumes "(''number'', JStr h) \<in> set ms"
  shows "dec_members HeadResult_fields ms r = None"
proof -
  have "map_of HeadResult_fields ''number'' = Some (dec_int64 hr_Number_update)"
    by (simp add: HeadResult_fields_def)
  from dec_members_error [OF assms find_field_exact [OF this]] show ?thesis
    by (simp add: dec_prim_def)
qed

lemma HeadRsp_number_string:
  assumes "(''params'', JObj pms) \<in> set ms" and "(''result'', JObj rms) \<in> set pms"
    and "(''number'', JStr h) \<in> set rms"
  shows "unmarshal_HeadRsp (JObj ms) = None"
proof -
  have r: "map_of HeadParams_fields ''result'' = Some (dec_nested hp_Result hp_Result_update (dec_struct HeadResult_fields))"
    by (simp add: HeadParams_fields_def)
  have p: "dec_members HeadParams_fields pms s = None" for s
    by (rule dec_members_error [OF assms(2) find_field_exact [OF r]])
      (simp add: dec_nested_def HeadResult_number_string [OF assms(3)])
  have q: "map_of HeadRsp_fields ''params'' = Some (dec_nested hd_Params hd_Params_update (dec_struct HeadParams_fields))"
    by (simp add: HeadRsp_fields_def)
  have "dec_members HeadRsp_fields ms zero_HeadRsp = None"
    by (rule dec_members_error [OF assms(1) find_field_exact [OF q]]) (simp add: dec_nested_def p)
  then show ?thesis by (simp add: unmarshal_HeadRsp_def)
qed

text \<open>A client for the concrete runs.\<close>

definition sample_client :: "nat NodeClient" where
  "sample_client = \<lparr> nc_RpcUrl = ''rpc'', nc_client = Some 0, nc_wsClient = Some 0, nc_WsUrl = ''ws'', nc_HeaderWsList = [] \<rparr>"

end
