(* ===== verification/Utils_Log.thy ===== *)
theory Utils_Log
  imports Go_Strings
begin

text \<open>
  \<open>utils/logger.go\<close> and \<open>utils/panic.go\<close>: the defaults of \<open>InitLogger\<close> and the text
  \<open>PanicTrace\<close> builds from the frames of the stack.
\<close>

section \<open>\<open>InitLogger\<close>\<close>

record logger_params =
  lp_path :: string
  lp_name :: string
  lp_level :: string
  lp_max_size :: int64
  lp_max_backups :: int64
  lp_max_age :: int64

definition logName :: string where
  "logName = ''dex_executor.log''"

definition log_Level :: string where
  "log_Level = ''info''"

text \<open>The arguments \<open>InitLogger\<close> passes to \<open>sdk.NewLoggerZapByParam\<close>.\<close>

definition logger_args :: "string \<Rightarrow> string \<Rightarrow> logger_params" where
  "logger_args path level =
     \<lparr> lp_path = (if path = [] then ''./logs'' else path),
       lp_name = logName,
       lp_level = (if level = [] then log_Level else level),
       lp_max_size = 256, lp_max_backups = 100, lp_max_age = 7 \<rparr>"

text \<open>
  \<open>new_logger\<close> is that function, \<open>None\<close> its nil logger. The error it returns with it is
  dropped, and the first line logged dereferences the logger.
\<close>

definition InitLogger :: "(logger_params \<Rightarrow> 'log option) \<Rightarrow> string \<Rightarrow> string \<Rightarrow> 'log go" where
  "InitLogger new_logger path level =
     (case new_logger (logger_args path level) of None \<Rightarrow> Inl NilDereference | Some logger \<Rightarrow> Inr logger)"

section \<open>\<open>PanicTrace\<close>\<close>

record frame =
  fr_pc :: nat
  fr_file :: string
  fr_line :: nat

definition hex_digit :: "nat \<Rightarrow> char" where
  "hex_digit d = (if d < 10 then char_of (48 + d) else char_of (87 + d))"

fun hex_text :: "nat \<Rightarrow> string" where
  "hex_text n = (if n < 16 then [hex_digit n] else hex_text (n div 16) @ [hex_digit (n mod 16)])"

declare hex_text.simps [simp del]

text \<open>\<open>fmt.Fprintf(buf, "%s:%d (0x%x)\n", file, line, pc)\<close>.\<close>

definition frame_line :: "frame \<Rightarrow> string" where
  "frame_line f =
     fr_file f @ '':'' @ go_itoa (int (fr_line f)) @ '' (0x'' @ hex_text (fr_pc f) @ '')'' @ [CHR 0x0A]"

text \<open>
  \<open>runtime.Caller(i)\<close> answers for every frame of the stack and fails above it, which
  ends the loop; the loop starts at the caller, frame 1.
\<close>

definition runtime_Caller :: "frame list \<Rightarrow> nat \<Rightarrow> frame option" where
  "runtime_Caller stack i = (if i < length stack then Some (stack ! i) else None)"

function trace_loop :: "frame list \<Rightarrow> nat \<Rightarrow> string \<Rightarrow> string" where
  "trace_loop stack i buf =
     (case runtime_Caller stack i of
        None \<Rightarrow> buf
      | Some f \<Rightarrow> trace_loop stack (Suc i) (buf @ frame_line f))"
  by pat_completeness auto
termination
  by (relation "measure (\<lambda>(stack, i, buf). length stack - i)")
    (auto simp: runtime_Caller_def split: if_splits)

declare trace_loop.simps [simp del]

definition PanicTrace :: "frame list \<Rightarrow> string \<Rightarrow> string" where
  "PanicTrace stack err = trace_loop stack 1 (err @ [CHR 0x0A])"

lemma trace_loop_eq: "trace_loop stack i buf = buf @ concat (map frame_line (drop i stack))"
proof (induction stack i buf rule: trace_loop.induct)
  case (1 stack i buf)
  show ?case
  proof (cases "i < length stack")
    case True
    then have "drop i stack = stack ! i # drop (Suc i) stack" by (simp add: Cons_nth_drop_Suc)
    with True 1 show ?thesis
      by (subst trace_loop.simps) (simp add: runtime_Caller_def)
  next
    case False
    then show ?thesis by (subst trace_loop.simps) (simp add: runtime_Caller_def)
  qed
qed

end
