(* ===== verification/Main_Wiring.thy ===== *)
theory Main_Wiring
  imports Config_Load Nats_Sub Node_Client Node_Mgr Utils_Log
begin

text \<open>
  \<open>main.go\<close> and the constructor \<open>NewNodeMgr\<close>: from the configuration to a running
  manager per chain. Configuration maps are association lists in the order the loops meet
  their entries. A panic in \<open>main\<close> ends the program: the result is what was started before
  it, and the panic.
\<close>

section \<open>\<open>NewNodeMgr\<close>\<close>

record 'c CallClientDecoder =
  cd_EthClient :: "'c option"
  cd_PairSymbolMap :: "string \<rightharpoonup> string"

definition NewCallClientDecoder :: "'c option \<Rightarrow> (string \<rightharpoonup> string) \<Rightarrow> 'c CallClientDecoder" where
  "NewCallClientDecoder ethClient pairSymbolMap =
     \<lparr> cd_EthClient = ethClient, cd_PairSymbolMap = pairSymbolMap \<rparr>"

lemma cd_PairSymbolMap_new [simp]: "cd_PairSymbolMap (NewCallClientDecoder c m) = m"
  by (simp add: NewCallClientDecoder_def)

text \<open>
  The publisher's configuration, handed to \<open>Init\<close> of the broker package with the
  connection's; what a manager publishes is recorded in \<open>nm_Outbox\<close>.
\<close>

record PubConfig =
  pc_UniqueName :: string

definition NewNatsPublisher :: "(PubConfig \<Rightarrow> 'n \<Rightarrow> 'pub) \<Rightarrow> 'n \<Rightarrow> 'pub" where
  "NewNatsPublisher init natsConfig = init \<lparr> pc_UniqueName = ''addPrice'' \<rparr> natsConfig"

text \<open>
  Both constructors' errors are only logged. A failed dial leaves \<open>nodeCli\<close> nil, and the
  construction of the call decoder reads a field of it.
\<close>

definition NewNodeMgr ::
    "(string \<Rightarrow> 'c option) \<Rightarrow> (string \<Rightarrow> 'v abi option) \<Rightarrow> string \<Rightarrow> string \<Rightarrow> string \<Rightarrow> string
      \<Rightarrow> (string \<rightharpoonup> string) \<Rightarrow> (string \<rightharpoonup> string) \<Rightarrow> (string \<rightharpoonup> bool) \<Rightarrow> (string \<rightharpoonup> string)
      \<Rightarrow> ('c NodeClient \<times> ('tx, 'v) NodeMgr) go" where
  "NewNodeMgr dial abi_JSON uniData joeData rpcUrl wsUrl router addrTokens enemiesMap pairSymbolMap =
     (case NewDexNodeClient dial rpcUrl wsUrl of
        None \<Rightarrow> Inl NilDereference
      | Some nodeCli \<Rightarrow>
          Inr (nodeCli,
            \<lparr> nm_RouterMap = router, nm_EnemiesMap = enemiesMap, nm_PendingTxList = [],
              nm_HeaderWsList = [], nm_Signals = [],
              nm_rDecoder = NewRouterDecoder abi_JSON uniData joeData addrTokens,
              nm_PairSymbolMap = cd_PairSymbolMap (NewCallClientDecoder (nc_client nodeCli) pairSymbolMap), nm_Outbox = [], nm_Cancels = 0,
              nm_WsCloses = 0 \<rparr>))"

section \<open>The maps of a chain\<close>

definition newRouter :: "(string \<times> string) list \<Rightarrow> string \<rightharpoonup> string" where
  "newRouter router = map_build snd fst router"

definition addr_tokens :: "(string \<times> string) list \<Rightarrow> string \<rightharpoonup> string" where
  "addr_tokens tokens = map_build snd fst tokens"

definition enemies_map :: "string list \<Rightarrow> string \<rightharpoonup> bool" where
  "enemies_map addrs = map_build go_lower (\<lambda>_. True) addrs"

text \<open>One entry of the pair map; a name without \<open>@\<close> panics.\<close>

definition pair_entry :: "string \<times> 'f Pairs \<Rightarrow> (string \<times> string) go" where
  "pair_entry p =
     go_bind (go_index (go_split CHR ''@'' (fst p)) 1) (\<lambda>s.
       Inr (go_lower (pr_Contract (snd p)), go_lower (go_replace s ''/'' ''_'' 1)))"

definition pair_symbol_map :: "'f pairs_map \<Rightarrow> (string \<rightharpoonup> string) go" where
  "pair_symbol_map pairs =
     go_bind (go_map pair_entry pairs) (\<lambda>es. Inr (map_build fst snd es))"

section \<open>\<open>main\<close>\<close>

datatype 'm action = GoSubscribe string | GoExecute string 'm

text \<open>\<open>new_mgr\<close> is \<open>NewNodeMgr\<close> with the dialler and the ABI library it is run with.\<close>

fun main_loop ::
    "(string \<Rightarrow> string \<Rightarrow> (string \<rightharpoonup> string) \<Rightarrow> (string \<rightharpoonup> string) \<Rightarrow> (string \<rightharpoonup> bool) \<Rightarrow> (string \<rightharpoonup> string) \<Rightarrow> 'm go)
      \<Rightarrow> (string \<times> string list) list \<Rightarrow> (string \<times> 'f pairs_map) list
      \<Rightarrow> (string \<times> TtChainItem) list \<Rightarrow> 'm action list \<times> go_panic option" where
  "main_loop new_mgr enemies chainPairs [] = ([], None)"
| "main_loop new_mgr enemies chainPairs ((k, v) # rest) =
     (let sub = GoSubscribe (signal_key k); chainName = chain_name k in
      case go_bind (pair_symbol_map (map_get [] (map_of chainPairs) chainName)) (\<lambda>pairSymbolMap.
             new_mgr (ci_Endpoint v) (ci_WsEndpoint v) (newRouter (ci_Router v)) (addr_tokens (ci_Tokens v))
               (enemies_map (map_get [] (map_of enemies) chainName)) pairSymbolMap) of
        Inl p \<Rightarrow> ([sub], Some p)
      | Inr mgr \<Rightarrow>
          (case main_loop new_mgr enemies chainPairs rest of
             (acts, r) \<Rightarrow> (sub # GoExecute k mgr # acts, r)))"

text \<open>Without a logger \<open>main\<close> ends before it starts anything.\<close>

definition main ::
    "(logger_params \<Rightarrow> 'log option) \<Rightarrow> (string \<Rightarrow> 'c option) \<Rightarrow> (string \<Rightarrow> 'v abi option) \<Rightarrow> string \<Rightarrow> string \<Rightarrow> ('n, 'f) DexExecutorConfig
      \<Rightarrow> ('c NodeClient \<times> ('tx, 'v) NodeMgr) action list \<times> go_panic option" where
  "main new_logger dial abi_JSON uniData joeData gc =
     (case InitLogger new_logger (gc_LogPath gc) (gc_LogLevel gc) of
        Inl p \<Rightarrow> ([], Some p)
      | Inr logger \<Rightarrow>
          main_loop (NewNodeMgr dial abi_JSON uniData joeData)
            (gc_ChainEnemies gc) (gc_ChainPairs gc) (gc_ChainConfig gc))"

text \<open>What \<open>main\<close> starts, its loop starts; when it comes through, its loop has.\<close>

lemma main_acts:
  "main new_logger dial abi_JSON uniData joeData gc = (acts, r) \<Longrightarrow>
     acts = [] \<or> acts = fst (main_loop (NewNodeMgr dial abi_JSON uniData joeData)
       (gc_ChainEnemies gc) (gc_ChainPairs gc) (gc_ChainConfig gc))"
  by (auto simp: main_def split: sum.splits)

lemma main_through:
  "main new_logger dial abi_JSON uniData joeData gc = (acts, None) \<Longrightarrow>
     main_loop (NewNodeMgr dial abi_JSON uniData joeData)
       (gc_ChainEnemies gc) (gc_ChainPairs gc) (gc_ChainConfig gc) = (acts, None)"
  by (simp add: main_def split: sum.splits)

section \<open>The maps as relations\<close>

lemma newRouter_None: "newRouter router a = None \<longleftrightarrow> a \<notin> snd ` set router"
  by (simp add: newRouter_def map_build_None)

lemma newRouter_inverse:
  assumes "inj_on snd (set router)" and "(name, addr) \<in> set router"
  shows "newRouter router addr = Some name"
  using map_build_functional [of router snd fst "(name, addr)"] assms
  by (auto simp: newRouter_def inj_on_def)

lemma enemies_map_get: "map_get False (enemies_map addrs) a \<longleftrightarrow> a \<in> go_lower ` set addrs"
proof (cases "enemies_map addrs a")
  case None
  then have "a \<notin> go_lower ` set addrs" by (simp add: enemies_map_def map_build_None)
  with None show ?thesis by (simp add: map_get_def)
next
  case (Some b)
  then have "\<exists>x \<in> set addrs. go_lower x = a \<and> True = b"
    unfolding enemies_map_def by (rule map_build_Some_in)
  with Some show ?thesis by (auto simp: map_get_def)
qed

text \<open>The symbol a pair's name stands for: what follows the first \<open>@\<close>, in lower case.\<close>

definition pair_name_symbol :: "string \<Rightarrow> string" where
  "pair_name_symbol s = go_lower (go_replace (split_second CHR ''@'' s) ''/'' ''_'' 1)"

lemma pair_entry_eq:
  "pair_entry p =
     (if CHR ''@'' \<in> set (fst p)
      then Inr (go_lower (pr_Contract (snd p)), pair_name_symbol (fst p)) else Inl IndexOutOfRange)"
  by (simp add: pair_entry_def go_index_split_1 pair_name_symbol_def)

lemma pair_symbol_map_eq:
  "pair_symbol_map pairs =
     (if \<forall>p \<in> set pairs. CHR ''@'' \<in> set (fst p)
      then Inr (map_build (\<lambda>p. go_lower (pr_Contract (snd p))) (\<lambda>p. pair_name_symbol (fst p)) pairs)
      else Inl IndexOutOfRange)"
proof -
  have "go_map pair_entry pairs =
    (if \<forall>p \<in> set pairs. CHR ''@'' \<in> set (fst p)
     then Inr (map (\<lambda>p. (go_lower (pr_Contract (snd p)), pair_name_symbol (fst p))) pairs)
     else Inl IndexOutOfRange)"
    by (rule go_map_uniform) (rule pair_entry_eq)
  then show ?thesis by (simp add: pair_symbol_map_def map_build_def fold_map comp_def)
qed

lemma main_loop_panics:
  "snd (main_loop new_mgr enemies chainPairs items) = None \<Longrightarrow> (k, v) \<in> set items \<Longrightarrow>
     \<exists>m. GoExecute k m \<in> set (fst (main_loop new_mgr enemies chainPairs items))"
proof (induction items)
  case (Cons kv rest)
  then show ?case
    by (cases kv) (auto simp: Let_def split: sum.splits prod.splits)
qed simp

lemma main_loop_subscribes:
  "GoExecute k m \<in> set (fst (main_loop new_mgr enemies chainPairs items)) \<Longrightarrow>
     GoSubscribe (signal_key k) \<in> set (fst (main_loop new_mgr enemies chainPairs items))"
proof (induction items)
  case (Cons kv rest)
  then show ?case
    by (cases kv) (auto simp: Let_def split: sum.splits prod.splits)
qed simp

end
