(* ===== verification/Wiring_Properties.thy ===== *)
theory Wiring_Properties
  imports Main_Wiring Sample_Chain Utils_Log
begin

text \<open>The properties of start-up, configuration, signal routing and the node client.\<close>

section \<open>Addresses and pairs\<close>

text \<open>
  The router map is keyed by the configured addresses as they are written, while the
  address of a transaction is in lower case. When every configured router address has an
  upper-case letter no transaction is ever taken for a router transaction.
\<close>

lemma mixed_case_routers_never_match:
  assumes "\<forall>(name, addr) \<in> set router. \<exists>c \<in> set addr. is_upper c" and "go_lower toAddress = toAddress"
  shows "newRouter router toAddress = None"
proof -
  have "toAddress \<notin> snd ` set router"
    using assms by (auto simp: go_lower_fixed_iff)
  then show ?thesis by (simp add: newRouter_None)
qed

lemma mixed_case_routers_never_match_witness:
  "newRouter [(''traderjoe'', ''0x18556DA13313f3532c54711497A8FedAC273220E''),
      (''avaxuniswap'', ''0x4Dae2f939ACf50408e13d58534Ff8c2776d45265'')]
     ''0x18556da13313f3532c54711497a8fedac273220e'' = None"
  by (rule mixed_case_routers_never_match) (simp_all add: is_upper_def go_lower_def lower_char_def)

text \<open>
  Competitors match whatever the case their addresses are configured in: an address
  is a competitor's exactly when it is the lower-case form of a configured one.
\<close>

lemma competitor_lookup:
  "map_get False (enemies_map addrs) a \<longleftrightarrow> (\<exists>addr \<in> set addrs. a = go_lower addr)"
  by (auto simp: enemies_map_get)

text \<open>
  With distinct addresses the router map is the inverse of the configured one,
  whatever the order Go ranges over it.
\<close>

lemma router_map_is_inverse:
  assumes "distinct (map snd router)" and "distinct (map fst router)"
  shows "newRouter router addr = Some name \<longleftrightarrow> map_of router name = Some addr"
proof
  assume "newRouter router addr = Some name"
  then obtain r where "r \<in> set router" "snd r = addr" "fst r = name"
    unfolding newRouter_def by (auto dest: map_build_Some_in)
  then have "(name, addr) \<in> set router" by (metis prod.collapse)
  then show "map_of router name = Some addr"
    using assms(2) by (simp add: map_of_eq_Some_iff)
next
  assume "map_of router name = Some addr"
  then have "(name, addr) \<in> set router" by (rule map_of_SomeD)
  then show "newRouter router addr = Some name"
    using assms(1) by (intro newRouter_inverse) (auto simp: distinct_map)
qed

text \<open>
  C24: the pair map of a chain: \<open>main\<close> panics when a pair's name has no \<open>@\<close>; otherwise a
  pair named \<open>dex@A/B\<close>, with no other pair on the same contract, makes its contract's
  address in lower case stand for the symbol \<open>a_b\<close>.
\<close>

theorem pair_map_entry:
  assumes "(dex @ CHR ''@'' # a @ CHR ''/'' # b, pair) \<in> set pairs"
    and "CHR ''@'' \<notin> set dex" and "CHR ''@'' \<notin> set a" and "CHR ''@'' \<notin> set b" and "CHR ''/'' \<notin> set a"
    and "\<And>p. p \<in> set pairs \<Longrightarrow> go_lower (pr_Contract (snd p)) = go_lower (pr_Contract pair) \<Longrightarrow>
       fst p = dex @ CHR ''@'' # a @ CHR ''/'' # b"
  shows "panics (pair_symbol_map pairs) = (\<exists>p \<in> set pairs. CHR ''@'' \<notin> set (fst p)) \<and>
    (\<forall>m. pair_symbol_map pairs = Inr m \<longrightarrow>
       m (go_lower (pr_Contract pair)) = Some (go_lower a @ ''_'' @ go_lower b))"
proof (intro conjI allI impI)
  show "panics (pair_symbol_map pairs) = (\<exists>p \<in> set pairs. CHR ''@'' \<notin> set (fst p))"
    by (auto simp: pair_symbol_map_eq)
  fix m assume "pair_symbol_map pairs = Inr m"
  then have m: "m = map_build (\<lambda>p. go_lower (pr_Contract (snd p))) (\<lambda>p. pair_name_symbol (fst p)) pairs"
    by (simp add: pair_symbol_map_eq split: if_splits)
  let ?name = "dex @ CHR ''@'' # a @ CHR ''/'' # b"
  have "m (go_lower (pr_Contract pair)) = Some v \<Longrightarrow> v = pair_name_symbol ?name" for v
    unfolding m using assms(6) by (auto dest!: map_build_Some_in)
  moreover have "m (go_lower (pr_Contract pair)) \<noteq> None"
    unfolding m map_build_None using assms(1) by force
  ultimately have "m (go_lower (pr_Contract pair)) = Some (pair_name_symbol ?name)" by blast
  moreover have "split_second CHR ''@'' ?name = a @ CHR ''/'' # b"
    using assms(2-4) by (simp add: split_second_append split_head_def go_split_notin)
  ultimately show "m (go_lower (pr_Contract pair)) = Some (go_lower a @ ''_'' @ go_lower b)"
    using assms(5) by (simp add: pair_name_symbol_def go_replace_char_once go_lower_append)
      (simp add: go_lower_def lower_char_def is_upper_def)
qed

definition sample_pair :: "f64 Pairs" where
  "sample_pair = \<lparr> pr_Contract = ''0xFE15'', pr_Token0 = [], pr_Token1 = [], pr_ReverseTokenOrder = True,
     pr_RawFee = 30, pr_Fee = f64_zero, pr_Proto = [], pr_Factory = [], pr_Index = 0, pr_TickSpacing = 0,
     pr_BinStep = 0, pr_BaseFactor = 0, pr_FilterPeriod = 0, pr_DecayPeriod = 0, pr_ReductionFactor = 0,
     pr_VariableFeeControl = 0, pr_MaxVolatilityAccumulator = 0 \<rparr>"

theorem pair_map_entry_witness:
  "map_option (\<lambda>m. m (go_lower ''0xFE15'')) (case pair_symbol_map [(''joeswap@AVAX/ETH'', sample_pair)] of Inl _ \<Rightarrow> None | Inr m \<Rightarrow> Some m)
     = Some (Some (go_lower ''AVAX'' @ ''_'' @ go_lower ''ETH''))"
proof -
  have s: "\<exists>m. pair_symbol_map [(''joeswap@AVAX/ETH'', sample_pair)] = Inr m"
    by (simp add: pair_symbol_map_eq)
  then obtain m where m: "pair_symbol_map [(''joeswap@AVAX/ETH'', sample_pair)] = Inr m" ..
  have "m (go_lower (pr_Contract sample_pair)) = Some (go_lower ''AVAX'' @ ''_'' @ go_lower ''ETH'')"
    using pair_map_entry [of "''joeswap''" "''AVAX''" "''ETH''" sample_pair "[(''joeswap@AVAX/ETH'', sample_pair)]"] m
    by simp
  then show ?thesis by (simp add: m) (simp add: sample_pair_def)
qed

section \<open>Signals from NATS\<close>

text \<open>
  A signal published under the subject \<open>main\<close> subscribes to for a chain key reaches
  the channel of that key, and no other channel changes, for every key without a dot or an
  opening brace.
\<close>

lemma signal_reaches_its_chain:
  assumes "CHR ''.'' \<notin> set k" and "CHR ''{'' \<notin> set k" and "chans k = Some msgs"
  shows "SignalMsgHandler (signal_key k) data chans = (chans(k \<mapsto> msgs @ [data]), None)"
  using assms by (simp add: SignalMsgHandler_def signal_key_parts go_index_def)

text \<open>
  The handler panics exactly on a subject with fewer than four dots; a message for an
  unknown key is dropped without a change.
\<close>

lemma signal_handler_panics_iff:
  "(snd (SignalMsgHandler subject data chans) \<noteq> None \<longleftrightarrow> count_list subject CHR ''.'' < 4) \<and>
   (\<forall>key. go_index (go_split CHR ''.'' subject) 4 = Inr key \<and> chans key = None \<longrightarrow>
      SignalMsgHandler subject data chans = (chans, None))"
  by (auto simp: SignalMsgHandler_def go_index_def length_go_split split: option.splits)

lemma signal_handler_panics_iff_witness:
  "snd (SignalMsgHandler ''avalanche_v1.signal'' ''data'' (init_ReceiveSignalChan [''avalanche_v1''])) \<noteq> None"
  using signal_handler_panics_iff [of "''avalanche_v1.signal''" "''data''" "init_ReceiveSignalChan [''avalanche_v1'']"]
  by simp

section \<open>Start-up\<close>

text \<open>
  When dialling the node fails, \<open>NewNodeMgr\<close> does not survive the error it logs: it
  panics, and \<open>main\<close> stops at that chain with the earlier chains' loops started and
  nothing started for the chains after it.
\<close>

lemma failed_dial_stops_main:
  assumes "dial (ci_Endpoint v) = None \<or> dial (ci_WsEndpoint v) = None"
    and "pair_symbol_map (map_get [] (map_of chainPairs) (chain_name k)) = Inr m"
  shows "main_loop (NewNodeMgr dial abi_JSON uniData joeData) enemies chainPairs ((k, v) # rest) =
    ([GoSubscribe (signal_key k)], Some NilDereference)"
  using assms by (auto simp: Let_def NewNodeMgr_def NewDexNodeClient_def split: option.splits)

text \<open>
  When \<open>main\<close> comes through its loop, every configured chain has its manager
  executing and its signal subject subscribed.
\<close>

lemma main_starts_every_chain:
  assumes "snd (main_loop new_mgr enemies chainPairs items) = None" and "(k, v) \<in> set items"
  shows "(\<exists>m. GoExecute k m \<in> set (fst (main_loop new_mgr enemies chainPairs items))) \<and>
    GoSubscribe (signal_key k) \<in> set (fst (main_loop new_mgr enemies chainPairs items))"
  using main_loop_panics [OF assms] main_loop_subscribes [of k _ new_mgr enemies chainPairs items] by blast

lemma main_starts_every_chain_witness:
  "\<exists>m. GoExecute ''bsc_v1'' m \<in> set (fst (main_loop (\<lambda>_ _ _ _ _ _. Inr (0::nat)) [] ([] :: (string \<times> f64 pairs_map) list)
     [(''bsc_v1'', \<lparr> ci_Router = [], ci_Tokens = [], ci_Endpoint = [], ci_WsEndpoint = [] \<rparr>)]))"
proof -
  have "snd (main_loop (\<lambda>_ _ _ _ _ _. Inr (0::nat)) [] ([] :: (string \<times> f64 pairs_map) list)
     [(''bsc_v1'', \<lparr> ci_Router = [], ci_Tokens = [], ci_Endpoint = [], ci_WsEndpoint = [] \<rparr>)]) = None"
    by (simp add: Let_def map_get_def pair_symbol_map_eq)
  from main_starts_every_chain [OF this, of "''bsc_v1''"] show ?thesis by simp
qed

text \<open>
  C23: loading the pair files panics exactly when the directory or one of its files cannot
  be read or decoded; otherwise a chain has the pairs of the last file whose name, up to
  its first dot, is the chain's.
\<close>

theorem pairs_config_lookup:
  "panics (LoadPairsConfig unmarshal dir) =
     (dir = None \<or> (\<exists>fi \<in> set (pair_files (the dir)). \<not> readable unmarshal fi)) \<and>
   (\<forall>r. LoadPairsConfig unmarshal dir = Inr r \<longrightarrow>
      map_of r chain = Option.bind (find (\<lambda>fi. chain_of_file fi = chain) (rev (pair_files (the dir))))
        (\<lambda>fi. Option.bind (de_Content fi) unmarshal))"
  by (cases dir) (auto simp: LoadPairsConfig_def load_pairs_loop_panics dest!: load_pairs_loop_lookup [where chain = chain]
      split: option.splits)

definition sample_dir :: "dir_entry list" where
  "sample_dir = [\<lparr> de_Name = ''avalanche.json'', de_IsDir = False, de_Content = Some ''old'' \<rparr>,
     \<lparr> de_Name = ''backup'', de_IsDir = True, de_Content = None \<rparr>,
     \<lparr> de_Name = ''avalanche.v2.json'', de_IsDir = False, de_Content = Some ''new'' \<rparr>]"

theorem pairs_config_lookup_witness:
  "\<exists>r. LoadPairsConfig (\<lambda>text. Some [(text, sample_pair)]) (Some sample_dir) = Inr r \<and>
     map_of r ''avalanche'' = Some [(''new'', sample_pair)]"
proof -
  have "\<exists>r. LoadPairsConfig (\<lambda>text. Some [(text, sample_pair)]) (Some sample_dir) = Inr r"
    by (simp add: LoadPairsConfig_def sample_dir_def)
  then obtain r where r: "LoadPairsConfig (\<lambda>text. Some [(text, sample_pair)]) (Some sample_dir) = Inr r" ..
  with pairs_config_lookup [of "\<lambda>text. Some [(text, sample_pair)]" "Some sample_dir" "''avalanche''"]
  show ?thesis by (simp add: sample_dir_def pair_files_def chain_of_file_def split_head_def)
qed

section \<open>The node client and the log\<close>

text \<open>
  C38: subscribing returns exactly when some attempt succeeds. It has then slept five
  seconds per failed attempt and logs one success line per attempt, failed ones included.
\<close>

theorem subscribe_terminates_iff:
  "SubscribeNewHeads ok = (if \<exists>n. ok n then Some (5 * (LEAST n. ok n), Suc (LEAST n. ok n)) else None) \<and>
   SubscribeFullPendingTransactions ok = SubscribeNewHeads ok"
  by (simp add: SubscribeNewHeads_def SubscribeFullPendingTransactions_def subscribe_retry_eq)

text \<open>
  \<open>HeadsHandler\<close> rejects every notification whose block number is a JSON string, as
  the hexadecimal numbers of a node are, and stores nothing.
\<close>

lemma heads_handler_rejects_hex_numbers:
  assumes "json_parse data = Some (JObj ms)" and "(''params'', JObj pms) \<in> set ms"
    and "(''result'', JObj rms) \<in> set pms" and "(''number'', JStr h) \<in> set rms"
    and "\<not> go_contains data ''invalid request''"
  shows "HeadsHandler data n = (n, True)"
  using assms HeadRsp_number_string [OF assms(2-4)] by (simp add: HeadsHandler_def)

definition sample_head :: json where
  "sample_head = JObj [(''params'', JObj [(''result'', JObj [(''number'', JStr ''0x1b4'')])])]"

lemma sample_head_text: "json_print sample_head = ''{\"params\":{\"result\":{\"number\":\"0x1b4\"}}}''"
  by (simp add: sample_head_def quote_json_def quote_body.simps json_char_def code_def)

lemma sample_head_read: "json_parse (json_print sample_head) = Some sample_head"
  by (rule json_read) (simp add: sample_head_def numeral_eq_Suc to_valid_ascii code_def)

lemma heads_handler_rejects_hex_numbers_witness:
  "HeadsHandler ''{\"params\":{\"result\":{\"number\":\"0x1b4\"}}}'' sample_client = (sample_client, True)"
  by (rule heads_handler_rejects_hex_numbers [OF sample_head_read [unfolded sample_head_text, unfolded sample_head_def],
        of "[(''result'', JObj [(''number'', JStr ''0x1b4'')])]" "[(''number'', JStr ''0x1b4'')]" "''0x1b4''"]) simp_all

text \<open>
  A panic trace is the error's line followed by one line per frame above the reporting
  function, in the order of the stack, however deep it is.
\<close>

lemma panic_trace_lines:
  "PanicTrace stack err = err @ [CHR 0x0A] @ concat (map frame_line (tl stack))"
  by (simp add: PanicTrace_def trace_loop_eq drop_Suc)

end
