(* ===== verification/Go_Channel.thy ===== *)
theory Go_Channel
  imports Go_Prelude
begin

text \<open>
  Go's buffered channels, and goroutines that may wait. A channel is its queue, the free
  slots of its buffer and whether it is closed. A run of a goroutine ends, panics, or
  stops at an operation that is not ready, with the rest of the run as a continuation to
  resume when it is.
\<close>

section \<open>Buffered channels\<close>

record 'a chan =
  ch_queue :: "'a list"
  ch_room :: nat
  ch_closed :: bool

definition make_chan :: "nat \<Rightarrow> 'a chan" where
  "make_chan n = \<lparr> ch_queue = [], ch_room = n, ch_closed = False \<rparr>"

text \<open>\<open>ch <- x\<close>: \<open>Inr None\<close> is a send that is not ready.\<close>

definition chan_send :: "'a \<Rightarrow> 'a chan \<Rightarrow> 'a chan option go" where
  "chan_send x c =
     (if ch_closed c then Inl SendOnClosedChannel
      else (case ch_room c of
          0 \<Rightarrow> Inr None
        | Suc n \<Rightarrow> Inr (Some (c\<lparr>ch_queue := ch_queue c @ [x], ch_room := n\<rparr>))))"

text \<open>\<open>x, ok := <-ch\<close>: \<open>None\<close> is a receive that is not ready, no value is \<open>ok\<close> false.\<close>

definition chan_recv :: "'a chan \<Rightarrow> ('a option \<times> 'a chan) option" where
  "chan_recv c =
     (case ch_queue c of
        x # xs \<Rightarrow> Some (Some x, c\<lparr>ch_queue := xs, ch_room := Suc (ch_room c)\<rparr>)
      | [] \<Rightarrow> if ch_closed c then Some (None, c) else None)"

definition chan_close :: "'a chan \<Rightarrow> 'a chan go" where
  "chan_close c = (if ch_closed c then Inl CloseOfClosedChannel else Inr (c\<lparr>ch_closed := True\<rparr>))"

text \<open>\<open>isChanClose\<close> of \<open>core/websocket.go\<close>: a select with one receive and a default.\<close>

definition select_probe :: "('c \<Rightarrow> ('a option \<times> 'c) option) \<Rightarrow> 'c \<Rightarrow> bool \<times> 'c" where
  "select_probe recv c =
     (case recv c of
        None \<Rightarrow> (False, c)
      | Some (received, c') \<Rightarrow> (received = None, c'))"

definition isChanClose :: "'a chan \<Rightarrow> bool \<times> 'a chan" where
  "isChanClose ch = select_probe chan_recv ch"

fun send_all :: "('a \<Rightarrow> 'c \<Rightarrow> 'c option go) \<Rightarrow> 'a list \<Rightarrow> 'c \<Rightarrow> 'c option go" where
  "send_all send [] c = Inr (Some c)"
| "send_all send (x # xs) c =
     go_bind (send x c) (\<lambda>r. case r of None \<Rightarrow> Inr None | Some c' \<Rightarrow> send_all send xs c')"

text \<open>What the users of a channel rely on.\<close>

locale channel =
  fixes send :: "'a \<Rightarrow> 'c \<Rightarrow> 'c option go"
    and recv :: "'c \<Rightarrow> ('a option \<times> 'c) option"
    and close :: "'c \<Rightarrow> 'c go"
    and queue :: "'c \<Rightarrow> 'a list" and room :: "'c \<Rightarrow> nat" and closed :: "'c \<Rightarrow> bool"
  assumes send_closed: "closed c \<Longrightarrow> send x c = Inl SendOnClosedChannel"
    and send_full: "\<not> closed c \<Longrightarrow> room c = 0 \<Longrightarrow> send x c = Inr None"
    and send_ready: "\<not> closed c \<Longrightarrow> room c = Suc n \<Longrightarrow>
      \<exists>c'. send x c = Inr (Some c') \<and> queue c' = queue c @ [x] \<and> room c' = n \<and> \<not> closed c'"
    and recv_ready: "queue c = x # xs \<Longrightarrow>
      \<exists>c'. recv c = Some (Some x, c') \<and> queue c' = xs \<and> room c' = Suc (room c) \<and> closed c' = closed c"
    and recv_drained: "queue c = [] \<Longrightarrow> recv c = (if closed c then Some (None, c) else None)"
    and close_closed: "closed c \<Longrightarrow> close c = Inl CloseOfClosedChannel"
    and close_open: "\<not> closed c \<Longrightarrow>
      \<exists>c'. close c = Inr c' \<and> queue c' = queue c \<and> room c' = room c \<and> closed c'"
begin

lemma probe:
  "queue (snd (select_probe recv c)) = drop 1 (queue c) \<and>
   closed (snd (select_probe recv c)) = closed c \<and>
   (fst (select_probe recv c) \<longleftrightarrow> closed c \<and> queue c = []) \<and>
   room (snd (select_probe recv c)) + length (queue (snd (select_probe recv c))) = room c + length (queue c)"
proof (cases "queue c")
  case Nil
  then show ?thesis by (simp add: select_probe_def recv_drained)
next
  case (Cons x xs)
  from recv_ready [OF this] obtain c' where
    "recv c = Some (Some x, c')" "queue c' = xs" "room c' = Suc (room c)" "closed c' = closed c" by blast
  with Cons show ?thesis by (simp add: select_probe_def)
qed

lemmas probe_queue = probe [THEN conjunct1]
lemmas probe_closed = probe [THEN conjunct2, THEN conjunct1]
lemmas probe_result = probe [THEN conjunct2, THEN conjunct2, THEN conjunct1]
lemmas probe_capacity = probe [THEN conjunct2, THEN conjunct2, THEN conjunct2]

lemma send_capacity:
  "send x c = Inr (Some c') \<Longrightarrow> room c' + length (queue c') = room c + length (queue c)"
  using send_closed [of c x] send_full [of c x] send_ready [of c _ x]
  by (cases "closed c"; cases "room c") auto

lemma send_all_fits:
  "\<not> closed c \<Longrightarrow> length xs \<le> room c \<Longrightarrow>
    \<exists>c'. send_all send xs c = Inr (Some c') \<and> queue c' = queue c @ xs \<and> room c' = room c - length xs \<and> \<not> closed c'"
proof (induction xs arbitrary: c)
  case (Cons x xs)
  then obtain n where n: "room c = Suc n" by (cases "room c") auto
  from send_ready [OF Cons.prems(1) n, of x] obtain c' where c':
    "send x c = Inr (Some c')" "queue c' = queue c @ [x]" "room c' = n" "\<not> closed c'" by auto
  with Cons.IH [of c'] Cons.prems(2) n show ?case by auto
qed auto

lemma send_all_too_many:
  "\<not> closed c \<Longrightarrow> room c < length xs \<Longrightarrow> send_all send xs c = Inr None"
proof (induction xs arbitrary: c)
  case (Cons x xs)
  show ?case
  proof (cases "room c")
    case 0
    then show ?thesis using Cons.prems(1) by (simp add: send_full)
  next
    case (Suc n)
    from send_ready [OF Cons.prems(1) Suc, of x] obtain c' where c':
      "send x c = Inr (Some c')" "room c' = n" "\<not> closed c'" by auto
    with Cons.IH [of c'] Cons.prems(2) Suc show ?thesis by auto
  qed
qed simp

end

interpretation ch: channel chan_send chan_recv chan_close ch_queue ch_room ch_closed
  by unfold_locales
    (auto simp: chan_send_def chan_recv_def chan_close_def split: list.splits nat.splits)

lemma isChanClose_eq [go_simps]:
  "isChanClose c = (ch_closed c \<and> ch_queue c = [],
     case ch_queue c of [] \<Rightarrow> c | _ # xs \<Rightarrow> c\<lparr>ch_queue := xs, ch_room := Suc (ch_room c)\<rparr>)"
  by (auto simp: isChanClose_def select_probe_def chan_recv_def split: list.splits)

section \<open>Runs that may wait\<close>

text \<open>
  \<open>Stuck w s k\<close> is a run that waits for \<open>w\<close> in state \<open>s\<close>; \<open>k\<close> takes the state in which
  \<open>w\<close> is ready.
\<close>

datatype ('w, 'a, 's) run =
    Done 'a 's
  | Crashed go_panic
  | Stuck 'w 's "'s \<Rightarrow> ('w, 'a, 's) run"

primrec run_bind :: "('w, 'a, 's) run \<Rightarrow> ('a \<Rightarrow> 's \<Rightarrow> ('w, 'b, 's) run) \<Rightarrow> ('w, 'b, 's) run" where
  "run_bind (Done a s) f = f a s"
| "run_bind (Crashed p) f = Crashed p"
| "run_bind (Stuck w s k) f = Stuck w s (\<lambda>s'. run_bind (k s') f)"

lemma run_bind_assoc: "run_bind (run_bind r f) g = run_bind r (\<lambda>a s. run_bind (f a s) g)"
  by (induction r) auto

text \<open>
  \<open>solo G r\<close>: the run without interruptions, as far as what it waits for is ready in the
  state it has reached itself.
\<close>

primrec solo :: "('w \<Rightarrow> 's \<Rightarrow> bool) \<Rightarrow> ('w, 'a, 's) run \<Rightarrow> ('w, 'a, 's) run" where
  "solo G (Done a s) = Done a s"
| "solo G (Crashed p) = Crashed p"
| "solo G (Stuck w s k) = (if G w s then solo G (k s) else Stuck w s k)"

lemma solo_bind [simp]:
  "solo G (run_bind r f) =
     (case solo G r of
        Done a s \<Rightarrow> solo G (f a s)
      | Crashed p \<Rightarrow> Crashed p
      | Stuck w s k \<Rightarrow> Stuck w s (\<lambda>s'. run_bind (k s') f))"
  by (induction r) auto

text \<open>
  \<open>stays G P r\<close>: every state the run leaves behind satisfies \<open>P\<close>, if it is only resumed
  in states with \<open>P\<close> in which what it waits for is ready.
\<close>

primrec stays :: "('w \<Rightarrow> 's \<Rightarrow> bool) \<Rightarrow> ('s \<Rightarrow> bool) \<Rightarrow> ('w, 'a, 's) run \<Rightarrow> bool" where
  "stays G P (Done a s) = P s"
| "stays G P (Crashed p) = True"
| "stays G P (Stuck w s k) = (P s \<and> (\<forall>s'. P s' \<longrightarrow> G w s' \<longrightarrow> stays G P (k s')))"

lemma stays_bind [intro]:
  "stays G P r \<Longrightarrow> (\<And>a s. P s \<Longrightarrow> stays G P (f a s)) \<Longrightarrow> stays G P (run_bind r f)"
  by (induction r) auto

end
