(* ===== verification/Ws_Builder.thy ===== *)
theory Ws_Builder
  imports Go_Channel
begin

text \<open>
  The configuration of a websocket client and its builder, \<open>WsConfig\<close> and \<open>WsBuilder\<close> of
  \<open>core/websocket.go\<close>. Function values are names \<open>'h\<close>: what calling one does is given
  by the environment of the connection (\<open>Ws_Conn\<close>). A \<open>time.Duration\<close> is a word of
  nanoseconds. A builder operation changes the configuration behind the builder's pointer
  and returns the builder, so it is a function on configurations.
\<close>

type_synonym duration = int64

definition Second :: duration where
  "Second = 1000000000"

definition Millisecond :: duration where
  "Millisecond = 1000000"

record 'h WsConfig =
  wc_WsUrl :: string
  wc_ProxyUrl :: string
  wc_BindAddr :: string
  wc_ReqHeaders :: "string \<rightharpoonup> string list"
  wc_HeartbeatIntervalTime :: duration
  wc_HeartbeatData :: "'h option"
  wc_HeartbeatDataStream :: "'h option"
  wc_IsAutoReconnect :: bool
  wc_ProtoHandleFunc :: "'h option"
  wc_DecompressFunc :: "'h option"
  wc_ErrorHandleFunc :: "'h option"
  wc_CustomSub :: "'h option"
  wc_PreReconnectHook :: "'h option"
  wc_PostReconnectSuccessHook :: "'h option"
  wc_IsDump :: bool
  wc_DisableEnableCompression :: bool
  wc_readDeadLineTime :: duration
  wc_reconnectInterval :: duration
  wc_errMsg :: string
  wc_errSleepInterval :: duration

definition zero_WsConfig :: "'h WsConfig" where
  "zero_WsConfig = \<lparr> wc_WsUrl = [], wc_ProxyUrl = [], wc_BindAddr = [], wc_ReqHeaders = Map.empty,
     wc_HeartbeatIntervalTime = 0, wc_HeartbeatData = None, wc_HeartbeatDataStream = None,
     wc_IsAutoReconnect = False, wc_ProtoHandleFunc = None, wc_DecompressFunc = None,
     wc_ErrorHandleFunc = None, wc_CustomSub = None, wc_PreReconnectHook = None,
     wc_PostReconnectSuccessHook = None, wc_IsDump = False, wc_DisableEnableCompression = False,
     wc_readDeadLineTime = 0, wc_reconnectInterval = 0, wc_errMsg = [], wc_errSleepInterval = 0 \<rparr>"

definition NewWsBuilderWithReadTimeout :: "duration \<Rightarrow> 'h WsConfig" where
  "NewWsBuilderWithReadTimeout readTimeout =
     zero_WsConfig\<lparr>wc_reconnectInterval := Second * 10, wc_readDeadLineTime := readTimeout\<rparr>"

definition NewWsBuilder :: "'h WsConfig" where
  "NewWsBuilder = zero_WsConfig\<lparr>wc_reconnectInterval := Second * 10\<rparr>"

definition WsUrl :: "string \<Rightarrow> 'h WsConfig \<Rightarrow> 'h WsConfig" where
  "WsUrl wsUrl b = b\<lparr>wc_WsUrl := wsUrl\<rparr>"

definition ProxyUrl :: "string \<Rightarrow> 'h WsConfig \<Rightarrow> 'h WsConfig" where
  "ProxyUrl proxyUrl b = b\<lparr>wc_ProxyUrl := proxyUrl\<rparr>"

definition BindAddr :: "string \<Rightarrow> 'h WsConfig \<Rightarrow> 'h WsConfig" where
  "BindAddr bindAddr b = b\<lparr>wc_BindAddr := bindAddr\<rparr>"

definition ReqHeader :: "string \<Rightarrow> string \<Rightarrow> 'h WsConfig \<Rightarrow> 'h WsConfig" where
  "ReqHeader key val b =
     b\<lparr>wc_ReqHeaders := (wc_ReqHeaders b)(key \<mapsto> map_get [] (wc_ReqHeaders b) key @ [val])\<rparr>"

definition AutoReconnect :: "'h WsConfig \<Rightarrow> 'h WsConfig" where
  "AutoReconnect b = b\<lparr>wc_IsAutoReconnect := True\<rparr>"

definition Dump :: "'h WsConfig \<Rightarrow> 'h WsConfig" where
  "Dump b = b\<lparr>wc_IsDump := True\<rparr>"

definition Heartbeat :: "'h option \<Rightarrow> duration \<Rightarrow> 'h WsConfig \<Rightarrow> 'h WsConfig" where
  "Heartbeat heartbeat t b = b\<lparr>wc_HeartbeatIntervalTime := t, wc_HeartbeatData := heartbeat\<rparr>"

definition SetError :: "string \<Rightarrow> duration \<Rightarrow> 'h WsConfig \<Rightarrow> 'h WsConfig" where
  "SetError errMsg t b = b\<lparr>wc_errMsg := errMsg, wc_errSleepInterval := t\<rparr>"

definition HeartbeatStream :: "'h option \<Rightarrow> duration \<Rightarrow> 'h WsConfig \<Rightarrow> 'h WsConfig" where
  "HeartbeatStream heartbeat t b =
     b\<lparr>wc_HeartbeatIntervalTime := t, wc_HeartbeatDataStream := heartbeat\<rparr>"

definition ReconnectInterval :: "duration \<Rightarrow> 'h WsConfig \<Rightarrow> 'h WsConfig" where
  "ReconnectInterval t b = b\<lparr>wc_reconnectInterval := t\<rparr>"

definition ProtoHandleFunc :: "'h option \<Rightarrow> 'h WsConfig \<Rightarrow> 'h WsConfig" where
  "ProtoHandleFunc f b = b\<lparr>wc_ProtoHandleFunc := f\<rparr>"

definition DisableEnableCompression :: "'h WsConfig \<Rightarrow> 'h WsConfig" where
  "DisableEnableCompression b = b\<lparr>wc_DisableEnableCompression := True\<rparr>"

definition DecompressFunc :: "'h option \<Rightarrow> 'h WsConfig \<Rightarrow> 'h WsConfig" where
  "DecompressFunc f b = b\<lparr>wc_DecompressFunc := f\<rparr>"

definition ErrorHandleFunc :: "'h option \<Rightarrow> 'h WsConfig \<Rightarrow> 'h WsConfig" where
  "ErrorHandleFunc f b = b\<lparr>wc_ErrorHandleFunc := f\<rparr>"

definition CustomSub :: "'h option \<Rightarrow> 'h WsConfig \<Rightarrow> 'h WsConfig" where
  "CustomSub f b = b\<lparr>wc_CustomSub := f\<rparr>"

definition PostReconnectSuccess :: "'h option \<Rightarrow> 'h WsConfig \<Rightarrow> 'h WsConfig" where
  "PostReconnectSuccess hook b = b\<lparr>wc_PostReconnectSuccessHook := hook\<rparr>"

definition PreReconnect :: "'h option \<Rightarrow> 'h WsConfig \<Rightarrow> 'h WsConfig" where
  "PreReconnect hook b = b\<lparr>wc_PreReconnectHook := hook\<rparr>"

lemmas ws_builder_defs = NewWsBuilderWithReadTimeout_def NewWsBuilder_def zero_WsConfig_def
  WsUrl_def ProxyUrl_def BindAddr_def ReqHeader_def AutoReconnect_def Dump_def Heartbeat_def
  SetError_def HeartbeatStream_def ReconnectInterval_def ProtoHandleFunc_def
  DisableEnableCompression_def DecompressFunc_def ErrorHandleFunc_def CustomSub_def
  PostReconnectSuccess_def PreReconnect_def

text \<open>Header values accumulate under their key in the order they are added.\<close>

lemma ReqHeaders_history:
  "map_get [] (wc_ReqHeaders (fold (\<lambda>(key, val). ReqHeader key val) hs b)) k =
     map_get [] (wc_ReqHeaders b) k @ map snd (filter (\<lambda>(key, val). key = k) hs)"
  by (induction hs arbitrary: b) (auto simp: ReqHeader_def map_get_def)

section \<open>The read deadline\<close>

text \<open>The first statement of \<open>NewWs\<close>.\<close>

definition adjust_deadline :: "('h, 'z) WsConfig_scheme \<Rightarrow> ('h, 'z) WsConfig_scheme" where
  "adjust_deadline ws =
     (if wc_readDeadLineTime ws <s wc_HeartbeatIntervalTime ws
      then ws\<lparr>wc_readDeadLineTime := wc_HeartbeatIntervalTime ws * 2\<rparr> else ws)"

text \<open>
  The deadline is not below the heartbeat interval, unless doubling an interval of more
  than \<open>2^62\<close> nanoseconds wraps round.
\<close>

lemma adjust_deadline_covers_heartbeat:
  assumes "0 \<le> sint (wc_HeartbeatIntervalTime ws)" and "sint (wc_HeartbeatIntervalTime ws) < 2 ^ 62"
  shows "sint (wc_HeartbeatIntervalTime ws) \<le> sint (wc_readDeadLineTime (adjust_deadline ws))"
proof (cases "wc_readDeadLineTime ws <s wc_HeartbeatIntervalTime ws")
  case True
  let ?h = "wc_HeartbeatIntervalTime ws"
  have "sint (?h * 2) = sint ?h * 2"
    using assms by (simp add: sint_word_ariths signed_take_bit_int_eq_self)
  with True assms show ?thesis by (simp add: adjust_deadline_def)
next
  case False
  then show ?thesis by (simp add: adjust_deadline_def word_sless_alt not_less)
qed

end
