(* ===== verification/Ws_Conn.thy ===== *)
theory Ws_Conn
  imports Ws_Builder Go_Strings
begin

text \<open>
  The connection object \<open>WsConn\<close> of \<open>core/websocket.go\<close> and its methods but for the two
  goroutines (\<open>Ws_Loops\<close>). \<open>ws_lock\<close> is the mutex \<open>reConnectLock\<close>. Effects on the network,
  sleeps and calls of the error handler are recorded in \<open>sy_events\<close>; \<open>sy_app\<close> is the state
  of the program the message handlers work on. The configuration, which only a hook may
  change, is read without waiting. What the network and the configured
  functions answer is the environment, which may let its answers depend on all earlier
  events. Log lines are left out.
\<close>

section \<open>State and environment\<close>

datatype ws_kind = TextMessage | BinaryMessage | PingMessage | PongMessage | CloseMessage

datatype 'c ws_event =
    Dialled 'c
  | DialFailed string
  | Closed 'c
  | ReadDeadline 'c duration
  | SetHandler 'c ws_kind
  | Slept duration
  | Wrote 'c ws_kind bytes "string option"
  | ErrorCalled string

record ('h, 'c) WsConn = "'h WsConfig" +
  ws_c :: "'c option"
  ws_writeBufferChan :: "bytes chan"
  ws_pingMessageBufferChan :: "bytes chan"
  ws_pongMessageBufferChan :: "bytes chan"
  ws_closeMessageBufferChan :: "bytes chan"
  ws_close :: "bool chan"
  ws_lock :: bool

record ('h, 'c, 'a) WsSys = "('h, 'c) WsConn" +
  sy_events :: "'c ws_event list"
  sy_app :: 'a

datatype proxy = ProxyFromEnvironment | ProxyURL string

record Dialer =
  dl_Proxy :: proxy
  dl_HandshakeTimeout :: duration
  dl_LocalAddr :: "string option"
  dl_EnableCompression :: bool

text \<open>
  What a goroutine may wait for: its turn, the mutex, and room in a channel. A goroutine
  waits for its turn before every operation that reads or changes something others share,
  so that any other goroutine may run between two of them.
\<close>

datatype ws_queue = WriteQ | PingQ | PongQ | CloseQ

datatype wait = On_Turn | On_Lock | On_Send ws_queue

type_synonym ('h, 'c, 'a, 'r) ws_run = "(wait, 'r, ('h, 'c, 'a) WsSys) run"

text \<open>
  One result of \<open>ReadMessage\<close>: the control frames that arrive before a message, then the
  message or an error.
\<close>

datatype control_frame = PingFrame bytes | PongFrame bytes | CloseFrame int string

record ('h, 'c, 'a) ws_env =
  we_resolve :: "string \<Rightarrow> string option"
  we_parse :: "string \<Rightarrow> string option"
  we_dial :: "'c ws_event list \<Rightarrow> Dialer \<Rightarrow> string \<Rightarrow> (string \<rightharpoonup> string list) \<Rightarrow> string + 'c"
  we_write :: "'c ws_event list \<Rightarrow> 'c \<Rightarrow> ws_kind \<Rightarrow> bytes \<Rightarrow> string option"
  we_read :: "'c ws_event list \<Rightarrow> 'c \<Rightarrow> control_frame list \<times> (string + ws_kind \<times> bytes)"
  we_data :: "'h \<Rightarrow> 'c ws_event list \<Rightarrow> bytes"
  we_stream :: "'h \<Rightarrow> 'c ws_event list \<Rightarrow> bytes list"
  we_proto :: "'h \<Rightarrow> bytes \<Rightarrow> 'a \<Rightarrow> 'a \<times> string option"
  we_decompress :: "'h \<Rightarrow> bytes \<Rightarrow> string + bytes"
  we_error :: "'h \<Rightarrow> string \<Rightarrow> 'a \<Rightarrow> 'a"
  we_pre :: "'h \<Rightarrow> nat \<Rightarrow> ('h, 'c, 'a) WsSys \<Rightarrow> ('h, 'c, 'a, string option) ws_run"
  we_post :: "'h \<Rightarrow> ('h, 'c, 'a) WsSys \<Rightarrow> ('h, 'c, 'a, string option) ws_run"

section \<open>Basic steps\<close>

definition event :: "'c ws_event \<Rightarrow> ('h, 'c, 'a) WsSys \<Rightarrow> ('h, 'c, 'a) WsSys" where
  "event e ws = ws\<lparr>sy_events := sy_events ws @ [e]\<rparr>"

definition turn :: "(('h, 'c, 'a) WsSys \<Rightarrow> ('h, 'c, 'a, 'r) ws_run) \<Rightarrow> ('h, 'c, 'a) WsSys \<Rightarrow> ('h, 'c, 'a, 'r) ws_run" where
  "turn f ws = Stuck On_Turn ws f"

definition sleep :: "duration \<Rightarrow> ('h, 'c, 'a) WsSys \<Rightarrow> ('h, 'c, 'a, unit) ws_run" where
  "sleep d = turn (\<lambda>ws. Done () (event (Slept d) ws))"

text \<open>
  A method call on \<open>ws.c\<close>, which panics while there is no connection. The connection is
  read first; when the method returns, \<open>ws.c\<close> may be another one.
\<close>

definition with_c :: "('c \<Rightarrow> ('h, 'c, 'a) WsSys \<Rightarrow> ('h, 'c, 'a, 'r) ws_run) \<Rightarrow> ('h, 'c, 'a) WsSys \<Rightarrow> ('h, 'c, 'a, 'r) ws_run" where
  "with_c f = turn (\<lambda>ws. case ws_c ws of None \<Rightarrow> Crashed NilDereference | Some c \<Rightarrow> turn (f c) ws)"

definition c_Close :: "('h, 'c, 'a) WsSys \<Rightarrow> ('h, 'c, 'a, unit) ws_run" where
  "c_Close = with_c (\<lambda>c ws. Done () (event (Closed c) ws))"

definition c_SetReadDeadline :: "('h, 'c, 'a) WsSys \<Rightarrow> ('h, 'c, 'a, unit) ws_run" where
  "c_SetReadDeadline = with_c (\<lambda>c ws. Done () (event (ReadDeadline c (wc_readDeadLineTime ws)) ws))"

definition c_SetHandler :: "ws_kind \<Rightarrow> ('h, 'c, 'a) WsSys \<Rightarrow> ('h, 'c, 'a, unit) ws_run" where
  "c_SetHandler kind = with_c (\<lambda>c ws. Done () (event (SetHandler c kind) ws))"

definition c_WriteMessage ::
    "('h, 'c, 'a) ws_env \<Rightarrow> ws_kind \<Rightarrow> bytes \<Rightarrow> ('h, 'c, 'a) WsSys \<Rightarrow> ('h, 'c, 'a, string option) ws_run" where
  "c_WriteMessage env kind d = with_c (\<lambda>c ws.
     let err = we_write env (sy_events ws) c kind d in Done err (event (Wrote c kind d err) ws))"

text \<open>The mutex, and a body run under \<open>Lock\<close> with a deferred \<open>Unlock\<close>.\<close>

definition acquire :: "('h, 'c, 'a) WsSys \<Rightarrow> ('h, 'c, 'a, unit) ws_run" where
  "acquire ws = Stuck On_Lock ws (\<lambda>ws'. Done () (ws'\<lparr>ws_lock := True\<rparr>))"

definition release :: "'r \<Rightarrow> ('h, 'c, 'a) WsSys \<Rightarrow> ('h, 'c, 'a, 'r) ws_run" where
  "release r = turn (\<lambda>ws. Done r (ws\<lparr>ws_lock := False\<rparr>))"

definition with_lock ::
    "(('h, 'c, 'a) WsSys \<Rightarrow> ('h, 'c, 'a, 'r) ws_run) \<Rightarrow> ('h, 'c, 'a) WsSys \<Rightarrow> ('h, 'c, 'a, 'r) ws_run" where
  "with_lock body ws =
     run_bind (acquire ws) (\<lambda>_ ws. run_bind (body ws) release)"

text \<open>The four message channels.\<close>

fun queue_of :: "ws_queue \<Rightarrow> ('h, 'c, 'z) WsConn_scheme \<Rightarrow> bytes chan" where
  "queue_of WriteQ ws = ws_writeBufferChan ws"
| "queue_of PingQ ws = ws_pingMessageBufferChan ws"
| "queue_of PongQ ws = ws_pongMessageBufferChan ws"
| "queue_of CloseQ ws = ws_closeMessageBufferChan ws"

fun set_queue :: "ws_queue \<Rightarrow> bytes chan \<Rightarrow> ('h, 'c, 'z) WsConn_scheme \<Rightarrow> ('h, 'c, 'z) WsConn_scheme" where
  "set_queue WriteQ ch ws = ws\<lparr>ws_writeBufferChan := ch\<rparr>"
| "set_queue PingQ ch ws = ws\<lparr>ws_pingMessageBufferChan := ch\<rparr>"
| "set_queue PongQ ch ws = ws\<lparr>ws_pongMessageBufferChan := ch\<rparr>"
| "set_queue CloseQ ch ws = ws\<lparr>ws_closeMessageBufferChan := ch\<rparr>"

text \<open>What a waiting goroutine can be resumed on.\<close>

fun ready :: "wait \<Rightarrow> ('h, 'c, 'a) WsSys \<Rightarrow> bool" where
  "ready On_Turn ws = True"
| "ready On_Lock ws = (\<not> ws_lock ws)"
| "ready (On_Send q) ws = (ch_closed (queue_of q ws) \<or> 0 < ch_room (queue_of q ws))"

definition send_now :: "ws_queue \<Rightarrow> bytes \<Rightarrow> ('h, 'c, 'a) WsSys \<Rightarrow> ('h, 'c, 'a, unit) ws_run" where
  "send_now q msg ws =
     (case chan_send msg (queue_of q ws) of
        Inl p \<Rightarrow> Crashed p
      | Inr None \<Rightarrow> Stuck (On_Send q) ws (Done ())
      | Inr (Some ch) \<Rightarrow> Done () (set_queue q ch ws))"

text \<open>
  \<open>ch <- msg\<close>. A send that goes on finds a free slot or a closed channel, so the second
  case of \<open>send_now\<close> is never taken.
\<close>

definition send_on :: "ws_queue \<Rightarrow> bytes \<Rightarrow> ('h, 'c, 'a) WsSys \<Rightarrow> ('h, 'c, 'a, unit) ws_run" where
  "send_on q msg ws = Stuck (On_Send q) ws (send_now q msg)"

section \<open>Sending\<close>

definition SendMessage :: "bytes \<Rightarrow> ('h, 'c, 'a) WsSys \<Rightarrow> ('h, 'c, 'a, unit) ws_run" where
  "SendMessage = send_on WriteQ"

definition SendPingMessage :: "bytes \<Rightarrow> ('h, 'c, 'a) WsSys \<Rightarrow> ('h, 'c, 'a, unit) ws_run" where
  "SendPingMessage = send_on PingQ"

definition SendPongMessage :: "bytes \<Rightarrow> ('h, 'c, 'a) WsSys \<Rightarrow> ('h, 'c, 'a, unit) ws_run" where
  "SendPongMessage = send_on PongQ"

definition SendCloseMessage :: "bytes \<Rightarrow> ('h, 'c, 'a) WsSys \<Rightarrow> ('h, 'c, 'a, unit) ws_run" where
  "SendCloseMessage = send_on CloseQ"

text \<open>
  \<open>Subscribe\<close> and \<open>SendJsonMessage\<close> take the result of \<open>json.Marshal\<close>, an error or the
  text, and return the error.
\<close>

definition SendJsonMessage ::
    "string + bytes \<Rightarrow> ('h, 'c, 'a) WsSys \<Rightarrow> ('h, 'c, 'a, string option) ws_run" where
  "SendJsonMessage m ws =
     (case m of
        Inl err \<Rightarrow> Done (Some err) ws
      | Inr data \<Rightarrow> run_bind (send_on WriteQ data ws) (\<lambda>_ ws. Done None ws))"

definition Subscribe ::
    "string + bytes \<Rightarrow> ('h, 'c, 'a) WsSys \<Rightarrow> ('h, 'c, 'a, string option) ws_run" where
  "Subscribe subEvent ws =
     (case subEvent of
        Inl err \<Rightarrow> Done (Some err) ws
      | Inr data \<Rightarrow> run_bind (send_on WriteQ data ws) (\<lambda>_ ws. Done None ws))"

section \<open>\<open>connect\<close>\<close>

definition ws_dialer :: "('h, 'c, 'a) ws_env \<Rightarrow> ('h, 'z) WsConfig_scheme \<Rightarrow> Dialer go" where
  "ws_dialer env ws =
     (let dialer = \<lparr> dl_Proxy = ProxyFromEnvironment, dl_HandshakeTimeout = 30 * Second,
                     dl_LocalAddr = None, dl_EnableCompression = False \<rparr>
      in go_bind
        (if wc_BindAddr ws \<noteq> [] then
           (case we_resolve env (wc_BindAddr ws) of
              None \<Rightarrow> Inl NilDereference
            | Some ip \<Rightarrow> Inr (dialer\<lparr>dl_LocalAddr := Some ip\<rparr>))
         else Inr dialer)
        (\<lambda>dialer.
          let dialer = (if wc_ProxyUrl ws \<noteq> [] then
                (case we_parse env (wc_ProxyUrl ws) of
                   None \<Rightarrow> dialer
                 | Some proxy \<Rightarrow> dialer\<lparr>dl_Proxy := ProxyURL proxy\<rparr>)
              else dialer);
              dialer = (if wc_DisableEnableCompression ws then dialer\<lparr>dl_EnableCompression := False\<rparr> else dialer)
          in Inr dialer))"

definition connect ::
    "('h, 'c, 'a) ws_env \<Rightarrow> ('h, 'c, 'a) WsSys \<Rightarrow> ('h, 'c, 'a, string option) ws_run" where
  "connect env = turn (\<lambda>ws.
     case ws_dialer env ws of
        Inl p \<Rightarrow> Crashed p
      | Inr dialer \<Rightarrow>
          (case we_dial env (sy_events ws) dialer (wc_WsUrl ws) (wc_ReqHeaders ws) of
             Inl err \<Rightarrow> Done (Some err) (event (DialFailed err) ws)
           | Inr wsConn \<Rightarrow>
               turn (\<lambda>ws. Done None (ws\<lparr>ws_c := Some wsConn\<rparr>))
                 (event (ReadDeadline wsConn (wc_readDeadLineTime ws)) (event (Dialled wsConn) ws))))"

section \<open>\<open>NewWs\<close> and \<open>Build\<close>\<close>

text \<open>A nil channel is one without a buffer that nobody serves.\<close>

definition bare_conn :: "'h WsConfig \<Rightarrow> 'c ws_event list \<Rightarrow> 'a \<Rightarrow> ('h, 'c, 'a) WsSys" where
  "bare_conn cfg ev app =
     \<lparr> wc_WsUrl = wc_WsUrl cfg, wc_ProxyUrl = wc_ProxyUrl cfg, wc_BindAddr = wc_BindAddr cfg,
       wc_ReqHeaders = wc_ReqHeaders cfg, wc_HeartbeatIntervalTime = wc_HeartbeatIntervalTime cfg,
       wc_HeartbeatData = wc_HeartbeatData cfg, wc_HeartbeatDataStream = wc_HeartbeatDataStream cfg,
       wc_IsAutoReconnect = wc_IsAutoReconnect cfg, wc_ProtoHandleFunc = wc_ProtoHandleFunc cfg,
       wc_DecompressFunc = wc_DecompressFunc cfg, wc_ErrorHandleFunc = wc_ErrorHandleFunc cfg,
       wc_CustomSub = wc_CustomSub cfg, wc_PreReconnectHook = wc_PreReconnectHook cfg,
       wc_PostReconnectSuccessHook = wc_PostReconnectSuccessHook cfg, wc_IsDump = wc_IsDump cfg,
       wc_DisableEnableCompression = wc_DisableEnableCompression cfg,
       wc_readDeadLineTime = wc_readDeadLineTime cfg, wc_reconnectInterval = wc_reconnectInterval cfg,
       wc_errMsg = wc_errMsg cfg, wc_errSleepInterval = wc_errSleepInterval cfg,
       ws_c = None, ws_writeBufferChan = make_chan 0, ws_pingMessageBufferChan = make_chan 0,
       ws_pongMessageBufferChan = make_chan 0, ws_closeMessageBufferChan = make_chan 0,
       ws_close = make_chan 0, ws_lock = False, sy_events = ev, sy_app = app \<rparr>"

text \<open>\<open>NewWs\<close> returns whether there is a connection object or nil.\<close>

definition NewWs ::
    "('h, 'c, 'a) ws_env \<Rightarrow> ('h, 'c, 'a) WsSys \<Rightarrow> ('h, 'c, 'a, bool) ws_run" where
  "NewWs env ws =
     run_bind (connect env (adjust_deadline ws)) (\<lambda>err ws.
       if err \<noteq> None then Done False ws
       else Done True (ws\<lparr>ws_close := make_chan 1, ws_pingMessageBufferChan := make_chan 10,
              ws_pongMessageBufferChan := make_chan 10, ws_closeMessageBufferChan := make_chan 10,
              ws_writeBufferChan := make_chan 10, ws_lock := False\<rparr>))"

definition Build ::
    "('h, 'c, 'a) ws_env \<Rightarrow> 'h WsConfig \<Rightarrow> 'c ws_event list \<Rightarrow> 'a \<Rightarrow> ('h, 'c, 'a, bool) ws_run" where
  "Build env wsConfig ev app = NewWs env (bare_conn wsConfig ev app)"

section \<open>Closing and reconnecting\<close>

text \<open>\<open>isChanClose(ws.writeBufferChan)\<close>, with its effect on the channel.\<close>

definition write_closed :: "('h, 'c, 'a) WsSys \<Rightarrow> bool \<times> ('h, 'c, 'a) WsSys" where
  "write_closed ws =
     (let (closed, ch) = isChanClose (ws_writeBufferChan ws) in (closed, ws\<lparr>ws_writeBufferChan := ch\<rparr>))"

text \<open>\<open>Close\<close>.\<close>

definition WsClose :: "('h, 'c, 'a) WsSys \<Rightarrow> ('h, 'c, 'a, unit) ws_run" where
  "WsClose = turn (\<lambda>ws. let (closed, ws) = write_closed ws in if closed then Done () ws else c_Close ws)"

definition close_queue :: "ws_queue \<Rightarrow> ('h, 'c, 'a) WsSys \<Rightarrow> ('h, 'c, 'a, unit) ws_run" where
  "close_queue q = turn (\<lambda>ws.
     case chan_close (queue_of q ws) of
        Inl p \<Rightarrow> Crashed p
      | Inr ch \<Rightarrow> Done () (set_queue q ch ws))"

text \<open>
  The body of \<open>CloseWs\<close> under the lock. The select waits for its turn, and then sends to
  \<open>close\<close> if that is ready; otherwise the second has passed.
\<close>

definition send_close :: "('h, 'c, 'a) WsSys \<Rightarrow> ('h, 'c, 'a, unit) ws_run" where
  "send_close = turn (\<lambda>ws.
     case chan_send True (ws_close ws) of
        Inl p \<Rightarrow> Crashed p
      | Inr None \<Rightarrow> sleep Second ws
      | Inr (Some ch) \<Rightarrow> Done () (ws\<lparr>ws_close := ch\<rparr>))"

definition close_close :: "('h, 'c, 'a) WsSys \<Rightarrow> ('h, 'c, 'a, unit) ws_run" where
  "close_close = turn (\<lambda>ws.
     case chan_close (ws_close ws) of
        Inl p \<Rightarrow> Crashed p
      | Inr ch \<Rightarrow> Done () (ws\<lparr>ws_close := ch\<rparr>))"

definition close_all :: "('h, 'c, 'a) WsSys \<Rightarrow> ('h, 'c, 'a, unit) ws_run" where
  "close_all ws =
     run_bind (send_close ws) (\<lambda>_ ws.
     run_bind (close_close ws) (\<lambda>_ ws.
     run_bind (close_queue WriteQ ws) (\<lambda>_ ws.
     run_bind (close_queue CloseQ ws) (\<lambda>_ ws.
     run_bind (close_queue PingQ ws) (\<lambda>_ ws.
     close_queue PongQ ws)))))"

definition CloseWs :: "('h, 'c, 'a) WsSys \<Rightarrow> ('h, 'c, 'a, unit) ws_run" where
  "CloseWs = with_lock (turn (\<lambda>ws.
     let (closed, ch) = isChanClose (ws_close ws); ws = ws\<lparr>ws_close := ch\<rparr>
     in run_bind (if closed then Done () ws else close_all ws) (\<lambda>_ ws. c_Close ws)))"

text \<open>The hook's error is overwritten by the result of \<open>connect\<close>.\<close>

definition pre_reconnect ::
    "('h, 'c, 'a) ws_env \<Rightarrow> nat \<Rightarrow> ('h, 'c, 'a) WsSys \<Rightarrow> ('h, 'c, 'a, unit) ws_run" where
  "pre_reconnect env retry ws =
     (case wc_PreReconnectHook ws of
        None \<Rightarrow> Done () ws
      | Some h \<Rightarrow> run_bind (we_pre env h retry ws) (\<lambda>_ ws. Done () ws))"

fun reconnect_tries ::
    "('h, 'c, 'a) ws_env \<Rightarrow> nat list \<Rightarrow> string option \<Rightarrow> ('h, 'c, 'a) WsSys \<Rightarrow> ('h, 'c, 'a, string option) ws_run" where
  "reconnect_tries env [] err ws = Done err ws"
| "reconnect_tries env (retry # retries) err ws =
     run_bind (pre_reconnect env retry ws) (\<lambda>_ ws.
     run_bind (connect env ws) (\<lambda>err ws.
       if err = None then Done None ws
       else run_bind (sleep (wc_reconnectInterval ws * word_of_nat retry) ws) (\<lambda>_ ws.
         reconnect_tries env retries err ws)))"

definition call_error ::
    "('h, 'c, 'a) ws_env \<Rightarrow> string \<Rightarrow> ('h, 'c, 'a) WsSys \<Rightarrow> ('h, 'c, 'a, unit) ws_run" where
  "call_error env msg ws =
     (case wc_ErrorHandleFunc ws of
        None \<Rightarrow> Done () ws
      | Some h \<Rightarrow> turn (\<lambda>ws. Done () (event (ErrorCalled msg) (ws\<lparr>sy_app := we_error env h msg (sy_app ws)\<rparr>))) ws)"

definition after_reconnect ::
    "('h, 'c, 'a) ws_env \<Rightarrow> ('h, 'c, 'a) WsSys \<Rightarrow> ('h, 'c, 'a, unit) ws_run" where
  "after_reconnect env ws =
     (case wc_CustomSub ws of
        Some f \<Rightarrow> SendMessage (we_data env f (sy_events ws)) ws
      | None \<Rightarrow>
          (case wc_PostReconnectSuccessHook ws of
             None \<Rightarrow> Done () ws
           | Some h \<Rightarrow> run_bind (we_post env h ws) (\<lambda>_ ws. Done () ws)))"

text \<open>\<open>for retry := 1; retry <= 100; retry++\<close>.\<close>

definition attempts :: "nat list" where
  "attempts = [1..<101]"

definition Reconnect ::
    "('h, 'c, 'a) ws_env \<Rightarrow> ('h, 'c, 'a) WsSys \<Rightarrow> ('h, 'c, 'a, unit) ws_run" where
  "Reconnect env = with_lock (turn (\<lambda>ws.
     let (closed, ws) = write_closed ws
     in if closed then Done () ws
        else run_bind (c_Close ws) (\<lambda>_ ws.
          run_bind (reconnect_tries env attempts None ws) (\<lambda>err ws.
            if err \<noteq> None then run_bind (CloseWs ws) (\<lambda>_ ws. call_error env ''retry reconnect fail'' ws)
            else after_reconnect env ws))))"

end
