(* ===== verification/Ws_Loops.thy ===== *)
theory Ws_Loops
  imports Ws_Conn
begin

text \<open>
  The two goroutines of a websocket client, \<open>writeRequest\<close> and \<open>receiveMessage\<close> of
  \<open>core/websocket.go\<close>, one iteration of each loop per run, and the system they form with
  any number of goroutines that call the client's methods. A step lets one goroutine begin
  an iteration or perform the operation it waits for, up to the next one.
\<close>

text \<open>
  What a goroutine keeps from one iteration to the next: the writer its variable \<open>err\<close> and
  whether the timer is armed, the reader whether it has installed the frame handlers.
\<close>

datatype local = Writing "string option" bool | Receiving bool | Calling

type_synonym ('h, 'c, 'a) iteration = "('h, 'c, 'a, local option) ws_run"

section \<open>\<open>writeRequest\<close>\<close>

datatype write_select = Case_Close | Case_Queue ws_queue | Case_Timer

fun kind_of :: "ws_queue \<Rightarrow> ws_kind" where
  "kind_of WriteQ = TextMessage"
| "kind_of PingQ = PingMessage"
| "kind_of PongQ = PongMessage"
| "kind_of CloseQ = CloseMessage"

fun write_stream ::
    "('h, 'c, 'a) ws_env \<Rightarrow> bytes list \<Rightarrow> string option \<Rightarrow> ('h, 'c, 'a) WsSys \<Rightarrow> ('h, 'c, 'a, string option) ws_run" where
  "write_stream env [] err ws = Done err ws"
| "write_stream env (i # data) err ws =
     run_bind (c_WriteMessage env TextMessage i ws) (\<lambda>err ws. write_stream env data err ws)"

definition write_heartbeat ::
    "('h, 'c, 'a) ws_env \<Rightarrow> string option \<Rightarrow> ('h, 'c, 'a) WsSys \<Rightarrow> ('h, 'c, 'a, string option) ws_run" where
  "write_heartbeat env err ws =
     (case wc_HeartbeatData ws of
        Some f \<Rightarrow> c_WriteMessage env TextMessage (we_data env f (sy_events ws)) ws
      | None \<Rightarrow>
          (case wc_HeartbeatDataStream ws of
             Some f \<Rightarrow> write_stream env (we_stream env f (sy_events ws)) err ws
           | None \<Rightarrow> Done err ws))"

definition after_write ::
    "('h, 'c, 'a) ws_env \<Rightarrow> bool \<Rightarrow> string option \<Rightarrow> ('h, 'c, 'a) WsSys \<Rightarrow> ('h, 'c, 'a) iteration" where
  "after_write env armed err ws =
     (case err of
        None \<Rightarrow> Done (Some (Writing err armed)) ws
      | Some msg \<Rightarrow>
          run_bind (sleep (if wc_errMsg ws \<noteq> [] \<and> go_contains msg (wc_errMsg ws)
              then wc_errSleepInterval ws else Second) ws) (\<lambda>_ ws.
          run_bind (Reconnect env ws) (\<lambda>_ ws. Done (Some (Writing err armed)) ws)))"

text \<open>
  One round of the select; \<open>None\<close> is a case that is not ready. A receive from a closed
  channel gives the empty message. The timer is armed again only for a positive interval.
\<close>

definition write_iteration ::
    "('h, 'c, 'a) ws_env \<Rightarrow> write_select \<Rightarrow> string option \<Rightarrow> bool \<Rightarrow> ('h, 'c, 'a) WsSys
      \<Rightarrow> ('h, 'c, 'a) iteration option" where
  "write_iteration env sel err armed ws =
     (case sel of
        Case_Close \<Rightarrow> map_option (\<lambda>(_, ch). Done None (ws\<lparr>ws_close := ch\<rparr>)) (chan_recv (ws_close ws))
      | Case_Queue q \<Rightarrow>
          map_option (\<lambda>(d, ch).
              run_bind (c_WriteMessage env (kind_of q) (case d of None \<Rightarrow> [] | Some d \<Rightarrow> d) (set_queue q ch ws))
                (\<lambda>err ws. after_write env armed err ws))
            (chan_recv (queue_of q ws))
      | Case_Timer \<Rightarrow>
          if \<not> armed then None
          else if 0 <s wc_HeartbeatIntervalTime ws then
            Some (run_bind (write_heartbeat env err ws) (\<lambda>err ws. after_write env True err ws))
          else Some (after_write env False err ws))"

section \<open>\<open>receiveMessage\<close>\<close>

text \<open>
  The three handlers installed at the start of \<open>receiveMessage\<close>, on the connection of that
  time, and what they do with the control frames that reading meets. The library's own
  handlers of a connection without them change nothing here.
\<close>

definition install_handlers :: "('h, 'c, 'a) WsSys \<Rightarrow> ('h, 'c, 'a) iteration" where
  "install_handlers ws =
     run_bind (c_SetHandler CloseMessage ws) (\<lambda>_ ws.
     run_bind (c_SetHandler PongMessage ws) (\<lambda>_ ws.
     run_bind (c_SetHandler PingMessage ws) (\<lambda>_ ws.
     Done (Some (Receiving True)) ws)))"

fun control_frames ::
    "(ws_kind \<Rightarrow> bool) \<Rightarrow> control_frame list \<Rightarrow> ('h, 'c, 'a) WsSys \<Rightarrow> ('h, 'c, 'a, unit) ws_run" where
  "control_frames handled [] ws = Done () ws"
| "control_frames handled (PingFrame ping # fs) ws =
     (if handled PingMessage then
        run_bind (SendPongMessage ping ws) (\<lambda>_ ws.
        run_bind (c_SetReadDeadline ws) (\<lambda>_ ws. control_frames handled fs ws))
      else control_frames handled fs ws)"
| "control_frames handled (PongFrame pong # fs) ws =
     (if handled PongMessage then run_bind (c_SetReadDeadline ws) (\<lambda>_ ws. control_frames handled fs ws)
      else control_frames handled fs ws)"
| "control_frames handled (CloseFrame code text # fs) ws = control_frames handled fs ws"

definition call_proto ::
    "('h, 'c, 'a) ws_env \<Rightarrow> bytes \<Rightarrow> ('h, 'c, 'a) WsSys \<Rightarrow> ('h, 'c, 'a, unit) ws_run" where
  "call_proto env msg ws =
     (case wc_ProtoHandleFunc ws of
        None \<Rightarrow> Crashed NilDereference
      | Some h \<Rightarrow> turn (\<lambda>ws. Done () (ws\<lparr>sy_app := fst (we_proto env h msg (sy_app ws))\<rparr>)) ws)"

definition handle_message ::
    "('h, 'c, 'a) ws_env \<Rightarrow> ws_kind \<Rightarrow> bytes \<Rightarrow> ('h, 'c, 'a) WsSys \<Rightarrow> ('h, 'c, 'a, unit) ws_run" where
  "handle_message env t msg ws =
     (case t of
        TextMessage \<Rightarrow> call_proto env msg ws
      | BinaryMessage \<Rightarrow>
          (case wc_DecompressFunc ws of
             None \<Rightarrow> call_proto env msg ws
           | Some h \<Rightarrow>
               (case we_decompress env h msg of
                  Inl err \<Rightarrow> Done () ws
                | Inr msg2 \<Rightarrow> call_proto env msg2 ws))
      | _ \<Rightarrow> Done () ws)"

definition read_failed ::
    "('h, 'c, 'a) ws_env \<Rightarrow> string \<Rightarrow> ('h, 'c, 'a) WsSys \<Rightarrow> ('h, 'c, 'a) iteration" where
  "read_failed env err ws =
     (if wc_IsAutoReconnect ws
      then run_bind (Reconnect env ws) (\<lambda>_ ws. Done (Some (Receiving True)) ws)
      else run_bind (call_error env err ws) (\<lambda>_ ws. Done None ws))"

text \<open>\<open>ReadMessage\<close> on the connection \<open>c\<close>, and what is done with its result.\<close>

definition read_next ::
    "('h, 'c, 'a) ws_env \<Rightarrow> 'c \<Rightarrow> ('h, 'c, 'a) WsSys \<Rightarrow> ('h, 'c, 'a) iteration" where
  "read_next env c ws =
     (let (frames, result) = we_read env (sy_events ws) c
      in run_bind (control_frames (\<lambda>kind. SetHandler c kind \<in> set (sy_events ws)) frames ws) (\<lambda>_ ws.
        case result of
          Inl err \<Rightarrow> read_failed env err ws
        | Inr (t, msg) \<Rightarrow>
            run_bind (c_SetReadDeadline ws) (\<lambda>_ ws.
            run_bind (handle_message env t msg ws) (\<lambda>_ ws.
              Done (Some (Receiving True)) ws))))"

definition receive_iteration ::
    "('h, 'c, 'a) ws_env \<Rightarrow> bool \<Rightarrow> ('h, 'c, 'a) WsSys \<Rightarrow> ('h, 'c, 'a) iteration" where
  "receive_iteration env started ws =
     (if \<not> started then install_handlers ws
      else (case chan_recv (ws_close ws) of
          Some (_, ch) \<Rightarrow> Done None (ws\<lparr>ws_close := ch\<rparr>)
        | None \<Rightarrow> with_c (read_next env) ws))"

section \<open>The system\<close>

datatype ws_call =
    Call_Send ws_queue bytes
  | Call_Subscribe "string + bytes"
  | Call_Close
  | Call_CloseWs
  | Call_Reconnect

fun call_run :: "('h, 'c, 'a) ws_env \<Rightarrow> ws_call \<Rightarrow> ('h, 'c, 'a) WsSys \<Rightarrow> ('h, 'c, 'a, unit) ws_run" where
  "call_run env (Call_Send q msg) ws = send_on q msg ws"
| "call_run env (Call_Subscribe ev) ws = run_bind (Subscribe ev ws) (\<lambda>_ ws. Done () ws)"
| "call_run env Call_Close ws = WsClose ws"
| "call_run env Call_CloseWs ws = CloseWs ws"
| "call_run env Call_Reconnect ws = Reconnect env ws"

datatype thread = Writer | Reader | Client nat

datatype ws_action = Write_Case write_select | Receive | Call ws_call

fun iteration ::
    "('h, 'c, 'a) ws_env \<Rightarrow> ws_action \<Rightarrow> local \<Rightarrow> ('h, 'c, 'a) WsSys \<Rightarrow> ('h, 'c, 'a) iteration option" where
  "iteration env (Write_Case sel) (Writing err armed) ws = write_iteration env sel err armed ws"
| "iteration env Receive (Receiving started) ws = Some (receive_iteration env started ws)"
| "iteration env (Call c) Calling ws = Some (run_bind (call_run env c ws) (\<lambda>_ ws. Done (Some Calling) ws))"
| "iteration env _ _ ws = None"

datatype ('h, 'c, 'a) goroutine =
    At local
  | Blocked wait "('h, 'c, 'a) WsSys \<Rightarrow> ('h, 'c, 'a) iteration"
  | Gone

record ('h, 'c, 'a) ws_world =
  wd_ws :: "('h, 'c, 'a) WsSys"
  wd_threads :: "thread \<Rightarrow> ('h, 'c, 'a) goroutine"
  wd_crashed :: bool

definition settle ::
    "thread \<Rightarrow> ('h, 'c, 'a) iteration \<Rightarrow> ('h, 'c, 'a) ws_world \<Rightarrow> ('h, 'c, 'a) ws_world" where
  "settle t r w =
     (case r of
        Done l ws \<Rightarrow> w\<lparr>wd_ws := ws,
            wd_threads := (wd_threads w)(t := case l of None \<Rightarrow> Gone | Some l \<Rightarrow> At l)\<rparr>
      | Stuck wt ws k \<Rightarrow> w\<lparr>wd_ws := ws, wd_threads := (wd_threads w)(t := Blocked wt k)\<rparr>
      | Crashed p \<Rightarrow> w\<lparr>wd_crashed := True\<rparr>)"

inductive ws_step ::
    "('h, 'c, 'a) ws_env \<Rightarrow> ('h, 'c, 'a) ws_world \<Rightarrow> ('h, 'c, 'a) ws_world \<Rightarrow> bool"
  for env where
  step_iterate: "\<lbrakk> \<not> wd_crashed w; wd_threads w t = At l; iteration env act l (wd_ws w) = Some r \<rbrakk>
    \<Longrightarrow> ws_step env w (settle t r w)"
| step_resume: "\<lbrakk> \<not> wd_crashed w; wd_threads w t = Blocked wt k; ready wt (wd_ws w) \<rbrakk>
    \<Longrightarrow> ws_step env w (settle t (k (wd_ws w)) w)"

text \<open>One step as the next part \<open>r\<close> of the run of a goroutine \<open>t\<close>.\<close>

definition goes_on ::
    "('h, 'c, 'a) ws_env \<Rightarrow> ('h, 'c, 'a) ws_world \<Rightarrow> thread \<Rightarrow> ('h, 'c, 'a) iteration \<Rightarrow> bool" where
  "goes_on env w t r \<longleftrightarrow> \<not> wd_crashed w \<and>
     (case wd_threads w t of
        At l \<Rightarrow> \<exists>act. iteration env act l (wd_ws w) = Some r
      | Blocked wt k \<Rightarrow> ready wt (wd_ws w) \<and> r = k (wd_ws w)
      | Gone \<Rightarrow> False)"

lemma ws_step_iff: "ws_step env w w' \<longleftrightarrow> (\<exists>t r. goes_on env w t r \<and> w' = settle t r w)"
proof
  assume "ws_step env w w'"
  then show "\<exists>t r. goes_on env w t r \<and> w' = settle t r w"
  proof cases
    case (step_iterate t l act r)
    then show ?thesis by (intro exI [of _ t] exI [of _ r]) (auto simp: goes_on_def)
  next
    case (step_resume t wt k)
    then show ?thesis by (intro exI [of _ t] exI [of _ "k (wd_ws w)"]) (simp add: goes_on_def)
  qed
next
  assume "\<exists>t r. goes_on env w t r \<and> w' = settle t r w"
  then obtain t r where go: "goes_on env w t r" and w': "w' = settle t r w" by blast
  show "ws_step env w w'"
    using go unfolding w' by (cases "wd_threads w t") (auto simp: goes_on_def intro: ws_step.intros)
qed

text \<open>The steps of a client whose callers only make the calls in \<open>allowed\<close>.\<close>

fun permits :: "(ws_call \<Rightarrow> bool) \<Rightarrow> ws_action \<Rightarrow> bool" where
  "permits allowed (Call c) = allowed c"
| "permits allowed _ = True"

inductive limited_step ::
    "(ws_call \<Rightarrow> bool) \<Rightarrow> ('h, 'c, 'a) ws_env \<Rightarrow> ('h, 'c, 'a) ws_world \<Rightarrow> ('h, 'c, 'a) ws_world \<Rightarrow> bool"
  for allowed env where
  limited_iterate: "\<lbrakk> \<not> wd_crashed w; wd_threads w t = At l; permits allowed act;
      iteration env act l (wd_ws w) = Some r \<rbrakk>
    \<Longrightarrow> limited_step allowed env w (settle t r w)"
| limited_resume: "\<lbrakk> \<not> wd_crashed w; wd_threads w t = Blocked wt k; ready wt (wd_ws w) \<rbrakk>
    \<Longrightarrow> limited_step allowed env w (settle t (k (wd_ws w)) w)"

lemma limited_is_step: "limited_step allowed env w w' \<Longrightarrow> ws_step env w w'"
  by (induction rule: limited_step.induct) (auto intro: ws_step.intros)

lemma limited_are_steps: "(limited_step allowed env)\<^sup>*\<^sup>* w w' \<Longrightarrow> (ws_step env)\<^sup>*\<^sup>* w w'"
  by (metis limited_is_step rtranclp_mono predicate2I rev_predicate2D)

text \<open>No caller closes the client.\<close>

abbreviation quiet_step :: "('h, 'c, 'a) ws_env \<Rightarrow> ('h, 'c, 'a) ws_world \<Rightarrow> ('h, 'c, 'a) ws_world \<Rightarrow> bool" where
  "quiet_step \<equiv> limited_step (\<lambda>c. c \<noteq> Call_CloseWs)"

text \<open>The goroutines after \<open>NewWs\<close> has returned a connection.\<close>

definition start_world :: "('h, 'c, 'a) WsSys \<Rightarrow> ('h, 'c, 'a) ws_world" where
  "start_world ws = \<lparr> wd_ws = ws,
     wd_threads = (\<lambda>t. At (case t of Writer \<Rightarrow> Writing None True | Reader \<Rightarrow> Receiving False | Client _ \<Rightarrow> Calling)),
     wd_crashed = False \<rparr>"

lemma start_world_simps [simp]:
  "wd_ws (start_world ws) = ws"
  "\<not> wd_crashed (start_world ws)"
  "wd_threads (start_world ws) Writer = At (Writing None True)"
  "wd_threads (start_world ws) Reader = At (Receiving False)"
  "wd_threads (start_world ws) (Client i) = At Calling"
  by (simp_all add: start_world_def)

section \<open>A goroutine running alone\<close>

abbreviation alone :: "('h, 'c, 'a, 'r) ws_run \<Rightarrow> ('h, 'c, 'a, 'r) ws_run" where
  "alone \<equiv> solo ready"

lemma settle_again:
  "(\<And>p. r \<noteq> Crashed p) \<Longrightarrow> settle t r (settle t (Stuck wt ws k) w) = settle t r w"
  by (cases r) (auto simp: settle_def)

lemma settle_once:
  assumes "\<not> wd_crashed w" and "ready wt ws" and "\<And>p. alone (k ws) \<noteq> Crashed p"
  shows "limited_step allowed env (settle t (Stuck wt ws k) w) (settle t (k ws) w)"
proof -
  let ?w = "settle t (Stuck wt ws k) w"
  have "\<not> wd_crashed ?w" "wd_threads ?w t = Blocked wt k" "ready wt (wd_ws ?w)"
    using assms(1,2) by (simp_all add: settle_def)
  from limited_resume [OF this, of allowed env] have "limited_step allowed env ?w (settle t (k ws) ?w)"
    by (simp add: settle_def)
  moreover have "k ws \<noteq> Crashed p" for p using assms(3) [of p] by (metis solo.simps(2))
  ultimately show ?thesis by (simp add: settle_again)
qed

lemma settle_resumes:
  assumes "\<not> wd_crashed w" and "\<And>p. alone r \<noteq> Crashed p"
  shows "(limited_step allowed env)\<^sup>*\<^sup>* (settle t r w) (settle t (alone r) w)"
  using assms(2)
proof (induction r)
  case (Stuck wt ws k)
  show ?case
  proof (cases "ready wt ws")
    case True
    then have alive: "alone (k ws) \<noteq> Crashed p" for p using Stuck.prems [of p] by simp
    from converse_rtranclp_into_rtranclp [OF settle_once [where k = k, OF assms(1) True alive] Stuck.IH [OF rangeI alive]]
    show ?thesis using True by simp
  qed simp
qed simp_all

text \<open>\<open>go_ahead n r\<close>: at most \<open>n\<close> operations of a goroutine running alone.\<close>

fun go_ahead :: "nat \<Rightarrow> ('h, 'c, 'a, 'r) ws_run \<Rightarrow> ('h, 'c, 'a, 'r) ws_run" where
  "go_ahead (Suc n) (Stuck wt ws k) = (if ready wt ws then go_ahead n (k ws) else Stuck wt ws k)"
| "go_ahead _ r = r"

lemma settle_go_ahead:
  assumes "\<not> wd_crashed w" and "\<And>p. alone r \<noteq> Crashed p"
  shows "(limited_step allowed env)\<^sup>*\<^sup>* (settle t r w) (settle t (go_ahead n r) w)"
  using assms(2)
proof (induction n r rule: go_ahead.induct)
  case (1 n wt ws k)
  show ?case
  proof (cases "ready wt ws")
    case True
    then have alive: "alone (k ws) \<noteq> Crashed p" for p using 1(2) [of p] by simp
    from converse_rtranclp_into_rtranclp [OF settle_once [where k = k, OF assms(1) True alive] 1(1) [OF True alive]]
    show ?thesis using True by simp
  qed simp
qed simp_all

text \<open>An iteration of one goroutine while the others do nothing.\<close>

lemma iterate_alone:
  assumes "\<not> wd_crashed w" and "wd_threads w t = At l" and "permits allowed act"
    and "iteration env act l (wd_ws w) = Some r" and "\<And>p. alone r \<noteq> Crashed p"
  shows "(limited_step allowed env)\<^sup>*\<^sup>* w (settle t (alone r) w)"
  using limited_iterate [OF assms(1-4)] settle_resumes [OF assms(1,5)] by (rule converse_rtranclp_into_rtranclp)

lemma reader_alone:
  assumes "\<not> wd_crashed w" and "wd_threads w Reader = At (Receiving started)"
    and "alone (receive_iteration env started (wd_ws w)) = r" and "\<And>p. r \<noteq> Crashed p"
  shows "(limited_step allowed env)\<^sup>*\<^sup>* w (settle Reader r w)"
  using iterate_alone [OF assms(1,2), of allowed Receive env] assms(3,4) by auto

lemma resume_alone:
  assumes "\<not> wd_crashed w" and "wd_threads w t = Blocked wt k" and "ready wt (wd_ws w)"
    and "\<And>p. alone (k (wd_ws w)) \<noteq> Crashed p"
  shows "(limited_step allowed env)\<^sup>*\<^sup>* w (settle t (alone (k (wd_ws w))) w)"
  using limited_resume [OF assms(1-3)] settle_resumes [OF assms(1,4)] by (rule converse_rtranclp_into_rtranclp)

text \<open>The reader stops before \<open>ReadMessage\<close>, with the connection it has read.\<close>

lemma reader_begins:
  assumes "\<not> wd_crashed w" and "wd_threads w Reader = At (Receiving True)"
    and "chan_recv (ws_close (wd_ws w)) = None" and "ws_c (wd_ws w) = Some c"
  shows "(limited_step allowed env)\<^sup>*\<^sup>* w (w\<lparr>wd_threads := (wd_threads w)(Reader := Blocked On_Turn (read_next env c))\<rparr>)"
proof -
  define k where "k ws = (case ws_c ws of None \<Rightarrow> Crashed NilDereference | Some c \<Rightarrow> turn (read_next env c) ws)" for ws
  let ?w = "settle Reader (Stuck On_Turn (wd_ws w) k) w"
  have w: "\<not> wd_crashed ?w" "wd_threads ?w Reader = Blocked On_Turn k" "wd_ws ?w = wd_ws w"
    using assms(1) by (simp_all add: settle_def)
  have "iteration env Receive (Receiving True) (wd_ws w) = Some (Stuck On_Turn (wd_ws w) k)"
    using assms(3) by (simp add: receive_iteration_def with_c_def turn_def k_def [abs_def])
  from limited_iterate [OF assms(1,2) _ this] have "(limited_step allowed env)\<^sup>*\<^sup>* w ?w" by auto
  also have "limited_step allowed env ?w (settle Reader (k (wd_ws w)) ?w)"
    using limited_resume [OF w(1,2), of allowed env] unfolding w(3) by simp
  also have "k (wd_ws w) = Stuck On_Turn (wd_ws w) (read_next env c)"
    using assms(4) by (simp add: k_def turn_def)
  finally show ?thesis by (simp add: settle_def)
qed

section \<open>Invariants of all goroutines\<close>

lemma stays_turn [intro!]:
  "P ws \<Longrightarrow> (\<And>ws. P ws \<Longrightarrow> stays ready P (f ws)) \<Longrightarrow> stays ready P (turn f ws)"
  by (simp add: turn_def)

lemma stays_with_c:
  "P ws \<Longrightarrow> (\<And>c ws. P ws \<Longrightarrow> stays ready P (f c ws)) \<Longrightarrow> stays ready P (with_c f ws)"
  unfolding with_c_def by (intro stays_turn) (auto split: option.splits)

lemma stays_send:
  assumes "P ws" and "\<And>ws ch. P ws \<Longrightarrow> chan_send msg (queue_of q ws) = Inr (Some ch) \<Longrightarrow> P (set_queue q ch ws)"
  shows "stays ready P (send_on q msg ws)"
  using assms by (auto simp: send_on_def send_now_def split: sum.splits option.splits)

lemma stays_with_lock:
  assumes "P ws" and "\<And>ws b. P ws \<Longrightarrow> P (ws\<lparr>ws_lock := b\<rparr>)" and "\<And>ws. P ws \<Longrightarrow> stays ready P (body ws)"
  shows "stays ready P (with_lock body ws)"
  unfolding with_lock_def using assms by (intro stays_bind) (auto simp: acquire_def release_def)

fun goroutine_stays :: "(('h, 'c, 'a) WsSys \<Rightarrow> bool) \<Rightarrow> ('h, 'c, 'a) goroutine \<Rightarrow> bool" where
  "goroutine_stays P (Blocked wt k) = (\<forall>ws. P ws \<longrightarrow> ready wt ws \<longrightarrow> stays ready P (k ws))"
| "goroutine_stays P _ = True"

definition world_stays :: "(('h, 'c, 'a) WsSys \<Rightarrow> bool) \<Rightarrow> ('h, 'c, 'a) ws_world \<Rightarrow> bool" where
  "world_stays P w \<longleftrightarrow> P (wd_ws w) \<and> (\<forall>t. goroutine_stays P (wd_threads w t))"

lemma settle_stays:
  assumes "world_stays P w" and "stays ready P r"
  shows "world_stays P (settle t r w)"
  using assms by (cases r) (auto simp: world_stays_def settle_def split: option.splits)

text \<open>A predicate every iteration keeps is an invariant of the system.\<close>

locale ws_invariant =
  fixes env :: "('h, 'c, 'a) ws_env" and P :: "('h, 'c, 'a) WsSys \<Rightarrow> bool"
  assumes iteration_stays: "P ws \<Longrightarrow> iteration env act l ws = Some r \<Longrightarrow> stays ready P r"
begin

lemma step_stays:
  assumes "world_stays P w" and "ws_step env w w'"
  shows "world_stays P w'"
  using assms(2)
proof (cases rule: ws_step.cases)
  case (step_iterate t l act r)
  have "P (wd_ws w)" using assms(1) by (simp add: world_stays_def)
  from iteration_stays [OF this step_iterate(4)] show ?thesis
    unfolding step_iterate(1) by (rule settle_stays [OF assms(1)])
next
  case (step_resume t wt k)
  have "goroutine_stays P (Blocked wt k)" "P (wd_ws w)"
    using assms(1) step_resume(3) by (metis world_stays_def)+
  with step_resume(4) have "stays ready P (k (wd_ws w))" by simp
  then show ?thesis unfolding step_resume(1) by (rule settle_stays [OF assms(1)])
qed

lemma steps_stay:
  assumes "(ws_step env)\<^sup>*\<^sup>* w w'" and "world_stays P w"
  shows "world_stays P w'"
  using assms by (induction rule: rtranclp_induct) (auto intro: step_stays)

lemma reachable:
  assumes "(ws_step env)\<^sup>*\<^sup>* (start_world ws) w'" and "P ws"
  shows "P (wd_ws w')"
proof -
  have "world_stays P (start_world ws)"
    using assms(2) by (simp add: world_stays_def start_world_def)
  from steps_stay [OF assms(1) this] show ?thesis by (simp add: world_stays_def)
qed

end

end
