(* ===== verification/Ws_Reconnect.thy ===== *)
theory Ws_Reconnect
  imports Ws_Loops
begin

text \<open>
  What dialling, reconnecting and closing do: the dialler's options, the hundred attempts
  with their growing pauses, and the states \<open>CloseWs\<close> leaves.
\<close>

lemma event_simps [simp]:
  "sy_events (event e ws) = sy_events ws @ [e]"
  "ws_lock (event e ws) = ws_lock ws"
  "ws_c (event e ws) = ws_c ws"
  "ws_close (event e ws) = ws_close ws"
  "queue_of q (event e ws) = queue_of q ws"
  "wc_PreReconnectHook (event e ws) = wc_PreReconnectHook ws"
  "wc_CustomSub (event e ws) = wc_CustomSub ws"
  "wc_PostReconnectSuccessHook (event e ws) = wc_PostReconnectSuccessHook ws"
  "wc_reconnectInterval (event e ws) = wc_reconnectInterval ws"
  "wc_readDeadLineTime (event e ws) = wc_readDeadLineTime ws"
  "wc_WsUrl (event e ws) = wc_WsUrl ws"
  "wc_ReqHeaders (event e ws) = wc_ReqHeaders ws"
  by (cases q; simp add: event_def)+

section \<open>Operations of a goroutine running alone\<close>

lemma alone_turn [simp]: "alone (turn f ws) = alone (f ws)"
  by (simp add: turn_def)

lemma alone_with_c [simp]:
  "alone (with_c f ws) = (case ws_c ws of None \<Rightarrow> Crashed NilDereference | Some c \<Rightarrow> alone (f c ws))"
  by (simp add: with_c_def split: option.splits)

lemma alone_steps [simp]:
  "alone (sleep d ws) = Done () (event (Slept d) ws)"
  "alone (release r ws) = Done r (ws\<lparr>ws_lock := False\<rparr>)"
  "alone (c_Close ws) = (case ws_c ws of None \<Rightarrow> Crashed NilDereference | Some c \<Rightarrow> Done () (event (Closed c) ws))"
  by (simp_all add: sleep_def release_def c_Close_def split: option.splits)

text \<open>A send: it goes on, waits, or panics.\<close>

lemma alone_send_room:
  "\<not> ch_closed (queue_of q ws) \<Longrightarrow> ch_room (queue_of q ws) = Suc m \<Longrightarrow>
    alone (send_on q msg ws) = Done () (set_queue q \<lparr>ch_queue = ch_queue (queue_of q ws) @ [msg], ch_room = m, ch_closed = False\<rparr> ws)"
  by (simp add: send_on_def send_now_def chan_send_def)
    (auto intro!: arg_cong [where f = "\<lambda>ch. set_queue q ch ws"] chan.equality)

lemma alone_send_closed: "ch_closed (queue_of q ws) \<Longrightarrow> alone (send_on q msg ws) = Crashed SendOnClosedChannel"
  by (simp add: send_on_def send_now_def chan_send_def)

section \<open>The dialler\<close>

lemma ws_dialer_eq:
  "ws_dialer env ws =
     (if wc_BindAddr ws \<noteq> [] \<and> we_resolve env (wc_BindAddr ws) = None then Inl NilDereference
      else Inr \<lparr> dl_Proxy = (case if wc_ProxyUrl ws = [] then None else we_parse env (wc_ProxyUrl ws) of
                    None \<Rightarrow> ProxyFromEnvironment | Some p \<Rightarrow> ProxyURL p),
                 dl_HandshakeTimeout = 30 * Second,
                 dl_LocalAddr = (if wc_BindAddr ws = [] then None else we_resolve env (wc_BindAddr ws)),
                 dl_EnableCompression = False \<rparr>)"
  by (auto simp: ws_dialer_def Let_def split: option.splits)

lemma ws_dialer_cong:
  "wc_BindAddr ws' = wc_BindAddr ws \<Longrightarrow> wc_ProxyUrl ws' = wc_ProxyUrl ws \<Longrightarrow> ws_dialer env ws' = ws_dialer env ws"
  by (simp add: ws_dialer_eq)

lemma ws_dialer_event [simp]: "ws_dialer env (event e ws) = ws_dialer env ws"
  by (rule ws_dialer_cong) (simp_all add: event_def)

section \<open>The attempts of \<open>Reconnect\<close>\<close>

fun failed_tries :: "duration \<Rightarrow> string list \<Rightarrow> nat list \<Rightarrow> 'c ws_event list" where
  "failed_tries pause (err # errs) (retry # retries) =
     [DialFailed err, Slept (pause * word_of_nat retry)] @ failed_tries pause errs retries"
| "failed_tries pause _ _ = []"

definition dial_now :: "('h, 'c, 'a) ws_env \<Rightarrow> ('h, 'c, 'a) WsSys \<Rightarrow> Dialer \<Rightarrow> 'c ws_event list \<Rightarrow> string + 'c" where
  "dial_now env ws d ev = we_dial env ev d (wc_WsUrl ws) (wc_ReqHeaders ws)"

lemma connect_eq:
  assumes "ws_dialer env ws = Inr d"
  shows "alone (connect env ws) =
     (case dial_now env ws d (sy_events ws) of
        Inl err \<Rightarrow> Done (Some err) (event (DialFailed err) ws)
      | Inr c \<Rightarrow> Done None ((event (ReadDeadline c (wc_readDeadLineTime ws)) (event (Dialled c) ws))\<lparr>ws_c := Some c\<rparr>))"
  using assms by (simp add: connect_def dial_now_def split: sum.splits)

lemma dial_now_event [simp]: "dial_now env (event e ws) d ev = dial_now env ws d ev"
  by (simp add: dial_now_def)

lemma event_upd: "event e ws = ws\<lparr>sy_events := sy_events ws @ [e]\<rparr>"
  by (rule event_def)

lemma tries_fail:
  assumes "wc_PreReconnectHook ws = None" and "ws_dialer env ws = Inr d" and "length errs = length retries"
    and "\<And>j. j < length errs \<Longrightarrow>
      dial_now env ws d (sy_events ws @ failed_tries (wc_reconnectInterval ws) (take j errs) (take j retries)) = Inl (errs ! j)"
  shows "alone (reconnect_tries env (retries @ rest) err ws) =
    alone (reconnect_tries env rest (if errs = [] then err else Some (last errs))
      (ws\<lparr>sy_events := sy_events ws @ failed_tries (wc_reconnectInterval ws) errs retries\<rparr>))"
  using assms
proof (induction retries arbitrary: errs err ws)
  case Nil
  then show ?case by simp
next
  case (Cons retry retries)
  then obtain e es where errs: "errs = e # es" and len: "length es = length retries" by (cases errs) auto
  let ?ws = "event (Slept (wc_reconnectInterval ws * word_of_nat retry)) (event (DialFailed e) ws)"
  have "dial_now env ws d (sy_events ws) = Inl e"
    using Cons.prems(4) [of 0] errs by simp
  then have step: "alone (reconnect_tries env ((retry # retries) @ rest) err ws) =
      alone (reconnect_tries env (retries @ rest) (Some e) ?ws)"
    using Cons.prems(1,2) by (simp add: pre_reconnect_def connect_eq)
  have "alone (reconnect_tries env (retries @ rest) (Some e) ?ws) =
    alone (reconnect_tries env rest (if es = [] then Some e else Some (last es))
      (?ws\<lparr>sy_events := sy_events ?ws @ failed_tries (wc_reconnectInterval ?ws) es retries\<rparr>))"
  proof (rule Cons.IH)
    fix j assume "j < length es"
    with Cons.prems(4) [of "Suc j"] errs show
      "dial_now env ?ws d (sy_events ?ws @ failed_tries (wc_reconnectInterval ?ws) (take j es) (take j retries)) = Inl (es ! j)"
      by simp
  qed (use Cons.prems len in simp_all)
  with step errs show ?case by (simp add: event_upd)
qed

text \<open>An attempt that succeeds after others have failed.\<close>

lemma tries_succeed:
  assumes "wc_PreReconnectHook ws = None" and "ws_dialer env ws = Inr d" and "length errs = length retries"
    and "\<And>j. j < length errs \<Longrightarrow>
      dial_now env ws d (sy_events ws @ failed_tries (wc_reconnectInterval ws) (take j errs) (take j retries)) = Inl (errs ! j)"
    and "dial_now env ws d (sy_events ws @ failed_tries (wc_reconnectInterval ws) errs retries) = Inr c"
  shows "alone (reconnect_tries env (retries @ retry # rest) err ws) =
    Done None (ws\<lparr>sy_events := sy_events ws @ failed_tries (wc_reconnectInterval ws) errs retries @
      [Dialled c, ReadDeadline c (wc_readDeadLineTime ws)], ws_c := Some c\<rparr>)"
proof -
  let ?ws = "ws\<lparr>sy_events := sy_events ws @ failed_tries (wc_reconnectInterval ws) errs retries\<rparr>"
  have "ws_dialer env ?ws = Inr d" using assms(2) by (simp add: ws_dialer_eq split: if_splits)
  then have "alone (connect env ?ws) = Done None ((event (ReadDeadline c (wc_readDeadLineTime ?ws)) (event (Dialled c) ?ws))\<lparr>ws_c := Some c\<rparr>)"
    using assms(5) by (simp add: connect_eq dial_now_def)
  then show ?thesis
    using assms(1) by (simp add: tries_fail [OF assms(1-4)] pre_reconnect_def event_upd)
qed

text \<open>The errors of attempts that all fail.\<close>

fun dial_errors :: "('c ws_event list \<Rightarrow> string) \<Rightarrow> duration \<Rightarrow> nat list \<Rightarrow> 'c ws_event list \<Rightarrow> string list" where
  "dial_errors e pause [] ev = []"
| "dial_errors e pause (retry # retries) ev =
     e ev # dial_errors e pause retries (ev @ [DialFailed (e ev), Slept (pause * word_of_nat retry)])"

lemma length_dial_errors [simp]: "length (dial_errors e pause retries ev) = length retries"
  by (induction retries arbitrary: ev) auto

lemma dial_errors_nth:
  "j < length retries \<Longrightarrow> dial_errors e pause retries ev ! j =
     e (ev @ failed_tries pause (take j (dial_errors e pause retries ev)) (take j retries))"
proof (induction retries arbitrary: ev j)
  case (Cons r rs)
  then show ?case by (cases j) auto
qed simp

lemma tries_all_fail:
  assumes "wc_PreReconnectHook ws = None" and "ws_dialer env ws = Inr d" and "retries \<noteq> []"
    and "\<And>ev. \<exists>e. dial_now env ws d (sy_events ws @ ev) = Inl e"
  obtains errs where "length errs = length retries" and
    "alone (reconnect_tries env retries err ws) =
      Done (Some (last errs)) (ws\<lparr>sy_events := sy_events ws @ failed_tries (wc_reconnectInterval ws) errs retries\<rparr>)"
proof -
  define e where "e ev = (case dial_now env ws d ev of Inl x \<Rightarrow> x | Inr _ \<Rightarrow> [])" for ev
  have e: "dial_now env ws d (sy_events ws @ ev) = Inl (e (sy_events ws @ ev))" for ev
    using assms(4) [of ev] by (auto simp: e_def)
  let ?errs = "dial_errors e (wc_reconnectInterval ws) retries (sy_events ws)"
  have "alone (reconnect_tries env retries err ws) = Done (if ?errs = [] then err else Some (last ?errs))
      (ws\<lparr>sy_events := sy_events ws @ failed_tries (wc_reconnectInterval ws) ?errs retries\<rparr>)"
    using tries_fail [OF assms(1,2), of ?errs retries "[]" err] by (simp add: e dial_errors_nth)
  moreover have "?errs \<noteq> []" using assms(3) by (cases retries) auto
  ultimately show ?thesis using that [of ?errs] by simp
qed

text \<open>The pauses of all failed attempts.\<close>

lemma failed_tries_pauses:
  "length errs = length retries \<Longrightarrow>
    (\<Sum>e \<leftarrow> failed_tries pause errs retries. case e of Slept t \<Rightarrow> t | _ \<Rightarrow> 0) = pause * word_of_nat (sum_list retries)"
proof (induction errs retries rule: list_induct2)
  case (Cons e es r rs)
  then show ?case by (simp add: distrib_left)
qed simp

section \<open>\<open>Reconnect\<close>\<close>

text \<open>The state after the probe of the write channel: its first message is gone.\<close>

definition drop_write :: "('h, 'c, 'a) WsSys \<Rightarrow> ('h, 'c, 'a) WsSys" where
  "drop_write ws = ws\<lparr>ws_writeBufferChan := snd (isChanClose (ws_writeBufferChan ws))\<rparr>"

definition write_shut :: "('h, 'c, 'z) WsConn_scheme \<Rightarrow> bool" where
  "write_shut ws \<longleftrightarrow> ch_closed (ws_writeBufferChan ws) \<and> ch_queue (ws_writeBufferChan ws) = []"

lemma write_closed_eq: "write_closed ws = (write_shut ws, drop_write ws)"
  by (simp add: write_closed_def drop_write_def write_shut_def isChanClose_eq Let_def)

lemma drop_write_simps [simp]:
  "ws_lock (drop_write ws) = ws_lock ws"
  "ws_c (drop_write ws) = ws_c ws"
  "sy_events (drop_write ws) = sy_events ws"
  "ws_close (drop_write ws) = ws_close ws"
  "wc_reconnectInterval (drop_write ws) = wc_reconnectInterval ws"
  "wc_readDeadLineTime (drop_write ws) = wc_readDeadLineTime ws"
  "wc_CustomSub (drop_write ws) = wc_CustomSub ws"
  "wc_PostReconnectSuccessHook (drop_write ws) = wc_PostReconnectSuccessHook ws"
  "wc_PreReconnectHook (drop_write ws) = wc_PreReconnectHook ws"
  "ws_dialer env (drop_write ws) = ws_dialer env ws"
  by (simp_all add: drop_write_def ws_dialer_eq)

lemma drop_write_lock: "drop_write (ws\<lparr>ws_lock := b\<rparr>) = (drop_write ws)\<lparr>ws_lock := b\<rparr>"
  by (simp add: drop_write_def)

lemma drop_write_shut: "write_shut ws \<Longrightarrow> drop_write ws = ws"
  by (simp add: write_shut_def drop_write_def isChanClose_eq)

lemma drop_write_empty: "ch_queue (ws_writeBufferChan ws) = [] \<Longrightarrow> drop_write ws = ws"
  by (simp add: drop_write_def isChanClose_eq)

lemma drop_write_queue:
  "ch_queue (ws_writeBufferChan (drop_write ws)) = drop 1 (ch_queue (ws_writeBufferChan ws))"
  by (simp add: drop_write_def isChanClose_def ch.probe_queue)

lemma drop_write_closed:
  "ch_closed (ws_writeBufferChan (drop_write ws)) = ch_closed (ws_writeBufferChan ws)"
  by (simp add: drop_write_def isChanClose_def ch.probe_closed)

lemma length_attempts: "length attempts = 100" and attempts_not_Nil [simp]: "attempts \<noteq> []"
  by (simp_all add: attempts_def del: upt_rec_numeral)

text \<open>What \<open>Reconnect\<close> does under the mutex, and after the probe.\<close>

definition reconnect_rest ::
    "('h, 'c, 'a) ws_env \<Rightarrow> ('h, 'c, 'a) WsSys \<Rightarrow> ('h, 'c, 'a, unit) ws_run" where
  "reconnect_rest env ws =
     run_bind (c_Close ws) (\<lambda>_ ws.
       run_bind (reconnect_tries env attempts None ws) (\<lambda>err ws.
         if err \<noteq> None then run_bind (CloseWs ws) (\<lambda>_ ws. call_error env ''retry reconnect fail'' ws)
         else after_reconnect env ws))"

definition reconnect_body ::
    "('h, 'c, 'a) ws_env \<Rightarrow> ('h, 'c, 'a) WsSys \<Rightarrow> ('h, 'c, 'a, unit) ws_run" where
  "reconnect_body env ws = (if write_shut ws then Done () ws else reconnect_rest env (drop_write ws))"

lemma Reconnect_eq: "Reconnect env = with_lock (turn (reconnect_body env))"
  unfolding Reconnect_def reconnect_body_def reconnect_rest_def write_closed_eq Let_def prod.case
  by (intro arg_cong [where f = with_lock] arg_cong [where f = turn] ext) (simp add: drop_write_shut)

lemma with_lock_held: "ws_lock ws \<Longrightarrow> \<exists>k. alone (with_lock body ws) = Stuck On_Lock ws k"
  by (simp add: with_lock_def acquire_def del: solo_bind)

lemma with_lock_free:
  "\<not> ws_lock ws \<Longrightarrow> alone (with_lock body ws) = alone (run_bind (body (ws\<lparr>ws_lock := True\<rparr>)) release)"
  by (simp add: with_lock_def acquire_def)

text \<open>
  Giving up: \<open>CloseWs\<close> asks for the mutex \<open>Reconnect\<close> holds. The argument of the result is
  the rest of the run, which is never reached.
\<close>

lemma reconnect_gives_up:
  assumes "\<not> ws_lock ws" and "ws_c ws = Some c" and "\<not> write_shut ws" and "wc_PreReconnectHook ws = None"
    and "ws_dialer env ws = Inr d" and "\<And>ev. \<exists>e. dial_now env ws d (sy_events ws @ ev) = Inl e"
  obtains errs k where "length errs = 100" and
    "alone (Reconnect env ws) = Stuck On_Lock ((drop_write ws)\<lparr>ws_lock := True,
       sy_events := sy_events ws @ Closed c # failed_tries (wc_reconnectInterval ws) errs attempts\<rparr>) k"
proof -
  let ?ws = "event (Closed c) (drop_write (ws\<lparr>ws_lock := True\<rparr>))"
  have shut: "\<not> write_shut (ws\<lparr>ws_lock := True\<rparr>)" using assms(3) by (simp add: write_shut_def)
  have d: "ws_dialer env ?ws = Inr d" using assms(5) ws_dialer_cong [of "ws\<lparr>ws_lock := True\<rparr>" ws env] by simp
  have dn: "dial_now env (drop_write (ws\<lparr>ws_lock := True\<rparr>)) d ev = dial_now env ws d ev" for ev
    by (simp add: dial_now_def drop_write_def)
  have fails: "\<exists>e. dial_now env ?ws d (sy_events ?ws @ ev) = Inl e" for ev
    using assms(6) [of "[Closed c] @ ev"] by (simp add: dn)
  have hook: "wc_PreReconnectHook ?ws = None" using assms(4) by simp
  obtain errs where len: "length errs = length attempts" and
    run: "alone (reconnect_tries env attempts None ?ws) = Done (Some (last errs))
      (?ws\<lparr>sy_events := sy_events ?ws @ failed_tries (wc_reconnectInterval ?ws) errs attempts\<rparr>)"
    by (rule tries_all_fail [OF hook d attempts_not_Nil fails, where err = None])
  let ?fin = "?ws\<lparr>sy_events := sy_events ?ws @ failed_tries (wc_reconnectInterval ?ws) errs attempts\<rparr>"
  have "ws_lock ?fin" by simp
  then obtain k where k: "alone (CloseWs ?fin) = Stuck On_Lock ?fin k"
    unfolding CloseWs_def using with_lock_held by blast
  have "\<exists>k. alone (Reconnect env ws) = Stuck On_Lock ?fin k"
    using assms(2) shut run k by (simp add: Reconnect_eq with_lock_free assms(1) reconnect_body_def reconnect_rest_def)
  moreover have "?fin = (drop_write ws)\<lparr>ws_lock := True,
       sy_events := sy_events ws @ Closed c # failed_tries (wc_reconnectInterval ws) errs attempts\<rparr>"
    by (simp add: event_def drop_write_def)
  ultimately show ?thesis using that [of errs] len by (auto simp: length_attempts)
qed

text \<open>Success at attempt \<open>n + 1\<close>.\<close>

lemma reconnect_succeeds:
  assumes "\<not> ws_lock ws" and "ws_c ws = Some c" and "\<not> write_shut ws" and "wc_PreReconnectHook ws = None"
    and "ws_dialer env ws = Inr d" and "length errs < 100"
    and "\<And>j. j < length errs \<Longrightarrow> dial_now env ws d (sy_events ws @ Closed c #
        failed_tries (wc_reconnectInterval ws) (take j errs) (take j attempts)) = Inl (errs ! j)"
    and "dial_now env ws d (sy_events ws @ Closed c #
        failed_tries (wc_reconnectInterval ws) errs (take (length errs) attempts)) = Inr c'"
  shows "alone (Reconnect env ws) = alone (run_bind (after_reconnect env ((drop_write ws)\<lparr>ws_lock := True,
      sy_events := sy_events ws @ Closed c # failed_tries (wc_reconnectInterval ws) errs (take (length errs) attempts) @
        [Dialled c', ReadDeadline c' (wc_readDeadLineTime ws)], ws_c := Some c'\<rparr>)) release)"
proof -
  let ?ws = "event (Closed c) (drop_write (ws\<lparr>ws_lock := True\<rparr>))" and ?n = "length errs"
  let ?as = "take ?n attempts"
  have shut: "\<not> write_shut (ws\<lparr>ws_lock := True\<rparr>)" using assms(3) by (simp add: write_shut_def)
  have d: "ws_dialer env ?ws = Inr d"
    using assms(5) ws_dialer_cong [of "ws\<lparr>ws_lock := True\<rparr>" ws env] by simp
  have dn: "dial_now env (drop_write (ws\<lparr>ws_lock := True\<rparr>)) d ev = dial_now env ws d ev" for ev
    by (simp add: dial_now_def drop_write_def)
  have hook: "wc_PreReconnectHook ?ws = None" using assms(4) by simp
  have len: "length errs = length ?as" using assms(6) by (simp add: length_attempts)
  have "attempts = ?as @ attempts ! ?n # drop (Suc ?n) attempts"
    using assms(6) by (intro id_take_nth_drop) (simp add: length_attempts)
  moreover have "alone (reconnect_tries env (?as @ attempts ! ?n # drop (Suc ?n) attempts) None ?ws) =
    Done None (?ws\<lparr>sy_events := sy_events ?ws @ failed_tries (wc_reconnectInterval ?ws) errs ?as @
      [Dialled c', ReadDeadline c' (wc_readDeadLineTime ?ws)], ws_c := Some c'\<rparr>)"
  proof (rule tries_succeed [OF hook d len])
    fix j assume j: "j < length errs"
    then show "dial_now env ?ws d (sy_events ?ws @ failed_tries (wc_reconnectInterval ?ws) (take j errs) (take j ?as)) = Inl (errs ! j)"
      using assms(7) [OF j] by (simp add: dn min_def)
  next
    show "dial_now env ?ws d (sy_events ?ws @ failed_tries (wc_reconnectInterval ?ws) errs ?as) = Inr c'"
      using assms(8) by (simp add: dn)
  qed
  ultimately have run: "alone (reconnect_tries env attempts None ?ws) =
    Done None (?ws\<lparr>sy_events := sy_events ?ws @ failed_tries (wc_reconnectInterval ?ws) errs ?as @
      [Dialled c', ReadDeadline c' (wc_readDeadLineTime ?ws)], ws_c := Some c'\<rparr>)" by simp
  show ?thesis
    using assms(2) shut run
    by (simp add: Reconnect_eq with_lock_free assms(1) reconnect_body_def reconnect_rest_def)
      (simp add: event_def drop_write_lock)
qed

section \<open>\<open>CloseWs\<close>\<close>

definition all_closed :: "('h, 'c, 'z) WsConn_scheme \<Rightarrow> bool" where
  "all_closed ws \<longleftrightarrow> ch_closed (ws_close ws) \<and> (\<forall>q. ch_closed (queue_of q ws))"

definition all_open :: "('h, 'c, 'z) WsConn_scheme \<Rightarrow> bool" where
  "all_open ws \<longleftrightarrow> \<not> ch_closed (ws_close ws) \<and> (\<forall>q. \<not> ch_closed (queue_of q ws))"

definition close_chan :: "'x chan \<Rightarrow> 'x chan" where
  "close_chan ch = ch\<lparr>ch_closed := True\<rparr>"

text \<open>Closing open channels: a token for one goroutine, then all channels closed.\<close>

definition closed_ws :: "'c \<Rightarrow> ('h, 'c, 'a) WsSys \<Rightarrow> ('h, 'c, 'a) WsSys" where
  "closed_ws c ws = ws\<lparr>ws_close := \<lparr>ch_queue = [True], ch_room = 0, ch_closed = True\<rparr>,
     ws_writeBufferChan := close_chan (ws_writeBufferChan ws),
     ws_pingMessageBufferChan := close_chan (ws_pingMessageBufferChan ws),
     ws_pongMessageBufferChan := close_chan (ws_pongMessageBufferChan ws),
     ws_closeMessageBufferChan := close_chan (ws_closeMessageBufferChan ws),
     sy_events := sy_events ws @ [Closed c]\<rparr>"

lemma all_open_queues:
  "all_open ws \<longleftrightarrow> \<not> ch_closed (ws_close ws) \<and> \<not> ch_closed (ws_writeBufferChan ws) \<and>
     \<not> ch_closed (ws_pingMessageBufferChan ws) \<and> \<not> ch_closed (ws_pongMessageBufferChan ws) \<and>
     \<not> ch_closed (ws_closeMessageBufferChan ws)"
  unfolding all_open_def by (metis queue_of.simps ws_queue.exhaust)

lemma CloseWs_open:
  assumes "\<not> ws_lock ws" and "ws_c ws = Some c" and "all_open ws"
    and "ch_queue (ws_close ws) = []" and "ch_room (ws_close ws) = 1"
  shows "alone (CloseWs ws) = Done () (closed_ws c ws)"
  using assms
  by (simp add: CloseWs_def with_lock_free isChanClose_eq close_all_def send_close_def close_close_def
      close_queue_def chan_send_def chan_close_def event_def all_open_queues
      closed_ws_def close_chan_def)

lemma CloseWs_token:
  assumes "\<not> ws_lock ws" and "ch_closed (ws_close ws)" and "ch_queue (ws_close ws) \<noteq> []"
  shows "alone (CloseWs ws) = Crashed SendOnClosedChannel"
  using assms
  by (simp add: CloseWs_def with_lock_free isChanClose_eq close_all_def send_close_def chan_send_def
      split: list.splits)

lemma CloseWs_drained:
  assumes "\<not> ws_lock ws" and "ws_c ws = Some c" and "ch_closed (ws_close ws)" and "ch_queue (ws_close ws) = []"
  shows "alone (CloseWs ws) = Done () (ws\<lparr>sy_events := sy_events ws @ [Closed c]\<rparr>)"
  using assms
  by (simp add: CloseWs_def with_lock_free isChanClose_eq event_def)

end
