(* ===== verification/Ws_Lock.thy ===== *)
theory Ws_Lock
  imports Ws_Reconnect
begin

text \<open>
  The discipline of the mutex \<open>reConnectLock\<close>: which goroutine holds it is determined by
  where the goroutines stand, only its holder releases it, and while one holds it the others
  leave some things as they are. What these are is an observation of the state, the argument
  of the definitions and the interface of a locale; here it is the list of connections
  dialled, in \<open>Ws_Full\<close> whether the write channel is full. The hooks
  are assumed to leave the mutex alone.
\<close>

section \<open>Disciplined runs\<close>

text \<open>
  The view a goroutine without the mutex has of it: \<open>Some x\<close> is held by another one, with
  the observation \<open>x\<close>, and \<open>None\<close> is free.
\<close>

fun sees :: "('x \<Rightarrow> ('h, 'c, 'a) WsSys \<Rightarrow> bool) \<Rightarrow> 'x option \<Rightarrow> ('h, 'c, 'a) WsSys \<Rightarrow> bool" where
  "sees obs None ws = (\<not> ws_lock ws)"
| "sees obs (Some x) ws = (ws_lock ws \<and> obs x ws)"

primrec disciplined ::
    "('x \<Rightarrow> ('h, 'c, 'a) WsSys \<Rightarrow> bool) \<Rightarrow> ('h, 'c, 'a, 'r) ws_run \<Rightarrow> 'x option \<Rightarrow> bool" where
  "disciplined obs (Done r ws) v = sees obs v ws"
| "disciplined obs (Crashed p) v = True"
| "disciplined obs (Stuck wt ws k) v =
     (if v = None \<and> ws_lock ws
      then \<forall>ws'. ws_lock ws' \<longrightarrow> ready wt ws' \<longrightarrow> disciplined obs (k ws') None
      else sees obs v ws \<and> (\<forall>v' ws'. sees obs v' ws' \<longrightarrow> ready wt ws' \<longrightarrow> disciplined obs (k ws') v'))"

lemma disciplined_bind [intro]:
  assumes "disciplined obs r v" and "\<And>v a ws. sees obs v ws \<Longrightarrow> disciplined obs (f a ws) v"
  shows "disciplined obs (run_bind r f) v"
  using assms(1)
proof (induction r arbitrary: v)
  case (Done a ws)
  then show ?case using assms(2) by simp
next
  case (Stuck wt ws k)
  then show ?case by (auto split: if_splits)
qed simp

text \<open>A run without interruptions takes the mutex as the run itself does.\<close>

lemma disciplined_ready:
  "disciplined obs (Stuck wt ws k) v \<Longrightarrow> ready wt ws \<Longrightarrow> disciplined obs (k ws) v"
  by (auto split: if_splits)

lemma disciplined_alone: "disciplined obs r v \<Longrightarrow> disciplined obs (alone r) v"
proof (induction r)
  case (Stuck wt ws k)
  show ?case
  proof (cases "ready wt ws")
    case True
    with disciplined_ready [OF Stuck.prems] Stuck.IH show ?thesis by simp
  qed (use Stuck.prems in simp)
qed simp_all

lemma stays_lock_release: "stays ready ws_lock r \<Longrightarrow> disciplined obs (run_bind r release) None"
  by (induction r) (auto simp: release_def turn_def)

lemma disciplined_turn:
  "sees obs v ws \<Longrightarrow> (\<And>v ws. sees obs v ws \<Longrightarrow> disciplined obs (f ws) v) \<Longrightarrow> disciplined obs (turn f ws) v"
  by (auto simp: turn_def)

lemma disciplined_with_c:
  "sees obs v ws \<Longrightarrow> (\<And>c v ws. sees obs v ws \<Longrightarrow> disciplined obs (f c ws) v) \<Longrightarrow> disciplined obs (with_c f ws) v"
  unfolding with_c_def by (intro disciplined_turn) (auto split: option.splits intro: disciplined_turn)

lemma disciplined_with_lock:
  assumes "\<And>ws. ws_lock ws \<Longrightarrow> stays ready ws_lock (body ws)" and "sees obs v ws"
  shows "disciplined obs (with_lock body ws) v"
proof -
  have "disciplined obs (run_bind (body (ws'\<lparr>ws_lock := True\<rparr>)) release) v'" if "sees obs v' ws'" "\<not> ws_lock ws'" for v' ws'
    using that stays_lock_release [OF assms(1), of "ws'\<lparr>ws_lock := True\<rparr>"] by (cases v') auto
  with assms(2) show ?thesis by (cases v) (auto simp: with_lock_def acquire_def)
qed

section \<open>What holds the mutex keeps it\<close>

lemma locked_update [simp]:
  "ws_lock (set_queue k q ws) = ws_lock ws"
  by (cases k) simp_all

lemma locked_steps [simp, intro]:
  "ws_lock ws \<Longrightarrow> stays ready ws_lock (sleep d ws)"
  "ws_lock ws \<Longrightarrow> stays ready ws_lock (c_Close ws)"
  "ws_lock ws \<Longrightarrow> stays ready ws_lock (call_error env s ws)"
  "ws_lock ws \<Longrightarrow> stays ready ws_lock (connect env ws)"
  by (auto simp: sleep_def c_Close_def call_error_def connect_def
      split: option.splits sum.splits intro!: stays_with_c)

lemma locked_send [simp, intro]: "ws_lock ws \<Longrightarrow> stays ready ws_lock (send_on q msg ws)"
  by (rule stays_send) simp_all

lemma locked_with_lock: "ws_lock ws \<Longrightarrow> stays ready ws_lock (with_lock body ws)"
  by (simp add: with_lock_def acquire_def)

lemma locked_close_queue: "ws_lock ws \<Longrightarrow> stays ready ws_lock (close_queue q ws)"
  by (auto simp: close_queue_def split: sum.splits)

lemma locked_close_all: "ws_lock ws \<Longrightarrow> stays ready ws_lock (close_all ws)"
  unfolding close_all_def
  by (intro stays_bind locked_close_queue)
    (auto simp: send_close_def close_close_def split: sum.splits option.splits)

section \<open>The contract of the hooks\<close>

locale ws_hooks =
  fixes env :: "('h, 'c, 'a) ws_env"
  assumes pre_keeps_lock: "ws_lock ws \<Longrightarrow> stays ready ws_lock (we_pre env h n ws)"
    and post_keeps_lock: "ws_lock ws \<Longrightarrow> stays ready ws_lock (we_post env h ws)"
begin

lemma locked_tries: "ws_lock ws \<Longrightarrow> stays ready ws_lock (reconnect_tries env retries err ws)"
proof (induction retries arbitrary: err ws)
  case (Cons retry retries)
  have "stays ready ws_lock (pre_reconnect env retry ws)"
    using Cons.prems pre_keeps_lock by (auto simp: pre_reconnect_def split: option.splits)
  then show ?case
    by (auto intro!: stays_bind Cons.IH)
qed simp

lemma locked_after_reconnect: "ws_lock ws \<Longrightarrow> stays ready ws_lock (after_reconnect env ws)"
  using post_keeps_lock by (auto simp: after_reconnect_def SendMessage_def split: option.splits)

lemma locked_reconnect_body: "ws_lock ws \<Longrightarrow> stays ready ws_lock (reconnect_body env ws)"
  by (auto simp: reconnect_body_def reconnect_rest_def CloseWs_def intro!: stays_bind locked_tries locked_with_lock locked_after_reconnect)

end

section \<open>Observations\<close>

definition is_dial :: "'c ws_event \<Rightarrow> bool" where
  "is_dial e = (case e of Dialled _ \<Rightarrow> True | DialFailed _ \<Rightarrow> True | _ \<Rightarrow> False)"

lemma is_dial_simps [simp]:
  "\<not> is_dial (Closed c)" "\<not> is_dial (ReadDeadline c t)" "\<not> is_dial (SetHandler c kd)"
  "\<not> is_dial (Slept t)" "\<not> is_dial (Wrote c kd d err)" "\<not> is_dial (ErrorCalled s)"
  "is_dial (Dialled c)" "is_dial (DialFailed s)"
  by (simp_all add: is_dial_def)

text \<open>
  What an observation may depend on: the mutex protects it, but for messages taken from the
  write channel.
\<close>

locale lock_watch =
  fixes obs :: "'x \<Rightarrow> ('h, 'c, 'a) WsSys \<Rightarrow> bool"
  assumes watch_event [simp]: "\<not> is_dial e \<Longrightarrow> obs x (event e ws) = obs x ws"
    and watch_app [simp]: "obs x (ws\<lparr>sy_app := a\<rparr>) = obs x ws"
    and watch_close [simp]: "obs x (ws\<lparr>ws_close := ch\<rparr>) = obs x ws"
    and watch_queue: "q \<noteq> WriteQ \<Longrightarrow> obs x (set_queue q qch ws) = obs x ws"
    and watch_send: "obs x ws \<Longrightarrow> chan_send msg (queue_of q ws) = Inr (Some qch) \<Longrightarrow> obs x (set_queue q qch ws)"
begin

lemma sees_update [simp]:
  "\<not> is_dial e \<Longrightarrow> sees obs v (event e ws) = sees obs v ws"
  "sees obs v (ws\<lparr>sy_app := a\<rparr>) = sees obs v ws"
  "sees obs v (ws\<lparr>ws_close := ch\<rparr>) = sees obs v ws"
  "q \<noteq> WriteQ \<Longrightarrow> sees obs v (set_queue q qch ws) = sees obs v ws"
  by (cases v; simp add: watch_queue)+

lemma disciplined_steps [simp, intro]:
  "sees obs v ws \<Longrightarrow> disciplined obs (sleep d ws) v"
  "sees obs v ws \<Longrightarrow> disciplined obs (c_Close ws) v"
  "sees obs v ws \<Longrightarrow> disciplined obs (c_SetReadDeadline ws) v"
  "sees obs v ws \<Longrightarrow> disciplined obs (c_WriteMessage env kd msg ws) v"
  "sees obs v ws \<Longrightarrow> disciplined obs (call_error env s ws) v"
  "sees obs v ws \<Longrightarrow> disciplined obs (call_proto env msg ws) v"
  "sees obs v ws \<Longrightarrow> disciplined obs (c_SetHandler kd ws) v"
  by (auto simp: sleep_def c_Close_def c_SetReadDeadline_def c_SetHandler_def c_WriteMessage_def call_error_def
      call_proto_def Let_def split: option.splits intro!: disciplined_turn disciplined_with_c)

lemma disciplined_send [simp, intro]: "sees obs v ws \<Longrightarrow> disciplined obs (send_on q msg ws) v"
proof -
  have "sees obs v (set_queue q qch ws)" if "sees obs v ws" "chan_send msg (queue_of q ws) = Inr (Some qch)" for v ws qch
    using that by (cases v) (auto intro: watch_send)
  then show "sees obs v ws \<Longrightarrow> disciplined obs (send_on q msg ws) v"
    by (auto simp: send_on_def send_now_def split: sum.splits option.splits)
qed

end

text \<open>The goroutines of a client whose hooks leave the mutex alone.\<close>

locale watched_client = ws_hooks env + lock_watch obs
  for env :: "('h, 'c, 'a) ws_env" and obs :: "'x \<Rightarrow> ('h, 'c, 'a) WsSys \<Rightarrow> bool"
begin

lemma disciplined_Reconnect: "sees obs v ws \<Longrightarrow> disciplined obs (Reconnect env ws) v"
  unfolding Reconnect_eq by (intro disciplined_with_lock stays_turn locked_reconnect_body)

lemma disciplined_CloseWs: "sees obs v ws \<Longrightarrow> disciplined obs (CloseWs ws) v"
  unfolding CloseWs_def
  by (rule disciplined_with_lock) (auto simp: Let_def split: prod.splits intro!: stays_bind locked_close_all)

lemma disciplined_after_write: "sees obs v ws \<Longrightarrow> disciplined obs (after_write env armed err ws) v"
  unfolding after_write_def
  by (cases err) (auto intro!: disciplined_bind disciplined_Reconnect)

lemma disciplined_stream: "sees obs v ws \<Longrightarrow> disciplined obs (write_stream env data err ws) v"
  by (induction data arbitrary: v err ws) (auto intro!: disciplined_bind)

lemma disciplined_write:
  assumes "sees obs v ws" and "write_iteration env sel err armed ws = Some r"
    and "\<And>qch. sel = Case_Queue WriteQ \<Longrightarrow> sees obs v (set_queue WriteQ qch ws)"
  shows "disciplined obs r v"
proof (cases sel)
  case Case_Close
  with assms show ?thesis by (auto simp: write_iteration_def)
next
  case (Case_Queue q)
  then have "sees obs v (set_queue q qch ws)" for qch
    using assms(1,3) by (cases "q = WriteQ") simp_all
  with assms(2) Case_Queue show ?thesis
    by (auto simp: write_iteration_def intro!: disciplined_bind disciplined_after_write)
next
  case Case_Timer
  with assms show ?thesis
    by (auto simp: write_iteration_def write_heartbeat_def split: if_splits option.splits
        intro!: disciplined_bind disciplined_after_write disciplined_stream)
qed

lemma disciplined_frames: "sees obs v ws \<Longrightarrow> disciplined obs (control_frames handled fs ws) v"
  by (induction handled fs ws arbitrary: v rule: control_frames.induct)
    (auto simp: SendPongMessage_def intro!: disciplined_bind)

lemma disciplined_handle: "sees obs v ws \<Longrightarrow> disciplined obs (handle_message env t msg ws) v"
  by (auto simp: handle_message_def split: ws_kind.splits option.splits sum.splits)

lemma disciplined_failed: "sees obs v ws \<Longrightarrow> disciplined obs (read_failed env err ws) v"
  by (auto simp: read_failed_def intro!: disciplined_bind disciplined_Reconnect)

lemma disciplined_receive: "sees obs v ws \<Longrightarrow> disciplined obs (receive_iteration env started ws) v"
  by (auto simp: receive_iteration_def read_next_def install_handlers_def split: option.splits prod.splits sum.splits
      intro!: disciplined_with_c disciplined_bind disciplined_frames disciplined_handle disciplined_failed)

lemma disciplined_call: "sees obs v ws \<Longrightarrow> c \<noteq> Call_Close \<Longrightarrow> disciplined obs (call_run env c ws) v"
  by (cases c)
    (auto simp: Subscribe_def split: sum.splits intro!: disciplined_bind disciplined_CloseWs disciplined_Reconnect)

lemma disciplined_iteration:
  assumes "sees obs v ws" and "iteration env act l ws = Some r" and "act \<noteq> Call Call_Close"
    and "\<And>qch. act = Write_Case (Case_Queue WriteQ) \<Longrightarrow> sees obs v (set_queue WriteQ qch ws)"
  shows "disciplined obs r v"
  using assms
  by (cases "(env, act, l, ws)" rule: iteration.cases)
    (auto intro: disciplined_write intro!: disciplined_receive disciplined_bind [OF disciplined_call])

end

text \<open>Observations that do not depend on the write channel either.\<close>

locale watched_client_all = watched_client +
  assumes watch_write: "obs x (set_queue WriteQ qch ws) = obs x ws"
begin

lemma sees_set_queue: "sees obs v (set_queue q qch ws) = sees obs v ws"
  using watch_write [of _ qch ws] by (cases "q = WriteQ"; cases v) (simp_all add: watch_queue)

lemma disciplined_close: "sees obs v ws \<Longrightarrow> disciplined obs (WsClose ws) v"
proof -
  have "sees obs v (drop_write ws)" if "sees obs v ws" for v ws
    using that sees_set_queue [of v WriteQ _ ws] by (simp add: drop_write_def)
  then show "sees obs v ws \<Longrightarrow> disciplined obs (WsClose ws) v"
    unfolding WsClose_def by (intro disciplined_turn) (auto simp: write_closed_eq)
qed

lemma disciplined_any:
  assumes "sees obs v ws" and "iteration env act l ws = Some r"
  shows "disciplined obs r v"
proof (cases "act = Call Call_Close")
  case True
  with assms show ?thesis by (cases l) (auto intro!: disciplined_bind disciplined_close)
next
  case False
  with assms disciplined_iteration show ?thesis by (simp add: sees_set_queue del: set_queue.simps)
qed

end

text \<open>The dials.\<close>

definition dials :: "('h, 'c, 'a) WsSys \<Rightarrow> 'c ws_event list" where
  "dials ws = filter is_dial (sy_events ws)"

lemma dials_simps [simp]:
  "\<not> is_dial e \<Longrightarrow> dials (event e ws) = dials ws"
  "dials (ws\<lparr>sy_app := a\<rparr>) = dials ws"
  "dials (ws\<lparr>ws_close := ch\<rparr>) = dials ws"
  "dials (set_queue q qch ws) = dials ws"
  by (cases q; simp add: dials_def event_def)+

sublocale ws_hooks \<subseteq> dialling: watched_client_all env "\<lambda>ds ws. dials ws = ds"
  by unfold_locales (simp_all del: set_queue.simps)

section \<open>The invariant of the system\<close>

definition inside ::
    "('x \<Rightarrow> ('h, 'c, 'a) WsSys \<Rightarrow> bool) \<Rightarrow> wait \<Rightarrow> (('h, 'c, 'a) WsSys \<Rightarrow> ('h, 'c, 'a) iteration) \<Rightarrow> bool" where
  "inside obs wt k \<longleftrightarrow> (\<forall>ws. ws_lock ws \<longrightarrow> ready wt ws \<longrightarrow> disciplined obs (k ws) None)"

definition outside ::
    "('x \<Rightarrow> ('h, 'c, 'a) WsSys \<Rightarrow> bool) \<Rightarrow> wait \<Rightarrow> (('h, 'c, 'a) WsSys \<Rightarrow> ('h, 'c, 'a) iteration) \<Rightarrow> bool" where
  "outside obs wt k \<longleftrightarrow> (\<forall>v ws. sees obs v ws \<longrightarrow> ready wt ws \<longrightarrow> disciplined obs (k ws) v)"

text \<open>
  The mutex is locked exactly when a goroutine holds it, which then waits inside its
  critical section; the others wait outside theirs.
\<close>

definition mutex :: "('x \<Rightarrow> ('h, 'c, 'a) WsSys \<Rightarrow> bool) \<Rightarrow> thread option \<Rightarrow> ('h, 'c, 'a) ws_world \<Rightarrow> bool" where
  "mutex obs holder w \<longleftrightarrow>
     (ws_lock (wd_ws w) \<longleftrightarrow> holder \<noteq> None) \<and>
     (\<forall>t wt k. wd_threads w t = Blocked wt k \<longrightarrow> (if holder = Some t then inside obs wt k else outside obs wt k)) \<and>
     (\<forall>t. holder = Some t \<longrightarrow> (\<exists>wt k. wd_threads w t = Blocked wt k))"

lemma mutex_start: "\<not> ws_lock ws \<Longrightarrow> mutex obs None (start_world ws)"
  by (simp add: mutex_def start_world_def)

text \<open>A view of the state of a system.\<close>

definition view_of ::
    "('x \<Rightarrow> ('h, 'c, 'a) WsSys \<Rightarrow> bool) \<Rightarrow> thread option \<Rightarrow> ('h, 'c, 'a) ws_world \<Rightarrow> 'x option \<Rightarrow> bool" where
  "view_of obs holder w v \<longleftrightarrow> (v = None \<longleftrightarrow> holder = None) \<and> sees obs v (wd_ws w)"

text \<open>A goroutine that does not hold the mutex.\<close>

lemma settle_outside:
  assumes "mutex obs holder w" and "holder \<noteq> Some t" and "view_of obs holder w v" and "disciplined obs r v"
  shows "\<exists>holder'. mutex obs holder' (settle t r w) \<and>
    (holder \<noteq> None \<longrightarrow> holder' = holder \<and> sees obs v (wd_ws (settle t r w)))"
proof -
  note v = assms(3) [unfolded view_of_def]
  have locks: "sees obs v ws \<Longrightarrow> ws_lock ws \<longleftrightarrow> holder \<noteq> None" for ws
    using v by (cases v) auto
  show ?thesis
  proof (cases r)
    case (Done l ws)
    with assms(4) have "sees obs v ws" by simp
    then have "mutex obs holder (settle t r w)"
      using assms(1,2) Done locks by (auto simp: mutex_def settle_def split: option.splits if_splits)
    with Done \<open>sees obs v ws\<close> show ?thesis by (auto simp: settle_def)
  next
    case (Crashed p)
    then have "mutex obs holder (settle t r w)" using assms(1) by (simp add: mutex_def settle_def)
    with Crashed v show ?thesis by (auto simp: settle_def)
  next
    case (Stuck wt ws k)
    show ?thesis
    proof (cases "v = None \<and> ws_lock ws")
      case True
      then have "holder = None" using v by simp
      moreover have "inside obs wt k" using True Stuck assms(4) by (simp add: inside_def)
      ultimately have "mutex obs (Some t) (settle t r w)"
        using assms(1) Stuck True by (auto simp: mutex_def settle_def)
      with \<open>holder = None\<close> show ?thesis by blast
    next
      case False
      then have o: "sees obs v ws" "outside obs wt k"
        using Stuck assms(4) by (auto simp: outside_def split: if_splits)
      then have "mutex obs holder (settle t r w)"
        using assms(1,2) Stuck locks by (auto simp: mutex_def settle_def split: if_splits)
      with Stuck o(1) show ?thesis by (auto simp: settle_def)
    qed
  qed
qed

text \<open>The goroutine that holds it.\<close>

lemma settle_inside:
  assumes "mutex obs (Some t) w" and "disciplined obs r None"
  shows "\<exists>holder'. mutex obs holder' (settle t r w)"
proof (cases r)
  case (Done l ws)
  then have "mutex obs None (settle t r w)"
    using assms by (auto simp: mutex_def settle_def split: option.splits if_splits)
  then show ?thesis ..
next
  case (Crashed p)
  then have "mutex obs (Some t) (settle t r w)" using assms(1) by (simp add: mutex_def settle_def)
  then show ?thesis ..
next
  case (Stuck wt ws k)
  show ?thesis
  proof (cases "ws_lock ws")
    case True
    then have "mutex obs (Some t) (settle t r w)"
      using assms Stuck by (auto simp: mutex_def settle_def inside_def split: if_splits)
    then show ?thesis ..
  next
    case False
    then have "outside obs wt k" using assms(2) Stuck by (simp add: outside_def)
    with False have "mutex obs None (settle t r w)"
      using assms(1) Stuck by (auto simp: mutex_def settle_def split: if_splits)
    then show ?thesis ..
  qed
qed

lemma settle_takes:
  assumes "mutex obs None w" and "disciplined obs (Stuck wt ws k) None" and "ws_lock ws"
  shows "mutex obs (Some t) (settle t (Stuck wt ws k) w)"
  using assms by (auto simp: mutex_def settle_def inside_def)

lemma resume_inside:
  assumes "mutex obs (Some t) w" and "wd_threads w t = Blocked wt k" and "ready wt (wd_ws w)"
  shows "disciplined obs (k (wd_ws w)) None"
proof -
  have "inside obs wt k" "ws_lock (wd_ws w)" using assms(1,2) by (simp_all add: mutex_def)
  with assms(3) show ?thesis by (simp add: inside_def)
qed

lemma resume_outside:
  assumes "mutex obs holder w" and "holder \<noteq> Some t" and "wd_threads w t = Blocked wt k" and "ready wt (wd_ws w)"
    and "view_of obs holder w v"
  shows "disciplined obs (k (wd_ws w)) v"
proof -
  have "outside obs wt k" using assms(1-3) by (auto simp: mutex_def split: if_splits)
  with assms(4,5) show ?thesis by (auto simp: outside_def view_of_def)
qed

text \<open>A step, whatever its beginning: that a new iteration is disciplined is the premise.\<close>

lemma mutex_goes_on:
  assumes "mutex obs holder w" and "goes_on env w t r" and "view_of obs holder w v"
    and "\<And>l act. wd_threads w t = At l \<Longrightarrow> iteration env act l (wd_ws w) = Some r \<Longrightarrow> disciplined obs r v"
  shows "\<exists>holder'. mutex obs holder' (settle t r w)"
proof (cases "wd_threads w t")
  case (At l)
  then have "holder \<noteq> Some t" using assms(1) by (auto simp: mutex_def)
  moreover have "disciplined obs r v" using assms(2,4) At by (auto simp: goes_on_def)
  ultimately show ?thesis using settle_outside [OF assms(1) _ assms(3)] by blast
next
  case (Blocked wt k)
  then have k: "ready wt (wd_ws w)" "r = k (wd_ws w)" using assms(2) by (simp_all add: goes_on_def)
  show ?thesis
  proof (cases "holder = Some t")
    case True
    from resume_inside [OF assms(1) [unfolded True] Blocked k(1)]
      settle_inside [OF assms(1) [unfolded True]] show ?thesis unfolding k(2) by blast
  next
    case False
    from resume_outside [OF assms(1) False Blocked k(1) assms(3)]
      settle_outside [OF assms(1) False assms(3)] show ?thesis unfolding k(2) by blast
  qed
qed (use assms(2) in \<open>simp add: goes_on_def\<close>)

lemma outside_goes_on:
  assumes "mutex obs (Some t) w" and "t' \<noteq> t" and "goes_on env w t' r" and "view_of obs (Some t) w v"
    and "\<And>l act. wd_threads w t' = At l \<Longrightarrow> iteration env act l (wd_ws w) = Some r \<Longrightarrow> disciplined obs r v"
  shows "mutex obs (Some t) (settle t' r w) \<and> sees obs v (wd_ws (settle t' r w))"
proof -
  have ne: "Some t \<noteq> Some t'" using assms(2) by simp
  have "disciplined obs r v"
  proof (cases "wd_threads w t'")
    case (At l)
    then show ?thesis using assms(3,5) by (auto simp: goes_on_def)
  next
    case (Blocked wt k)
    then show ?thesis using assms(3) resume_outside [OF assms(1) ne Blocked _ assms(4)] by (simp add: goes_on_def)
  qed (use assms(3) in \<open>simp add: goes_on_def\<close>)
  from settle_outside [OF assms(1) ne assms(4) this] show ?thesis by auto
qed

section \<open>Dialling under the mutex\<close>

abbreviation dial_mutex :: "thread option \<Rightarrow> ('h, 'c, 'a) ws_world \<Rightarrow> bool" where
  "dial_mutex \<equiv> mutex (\<lambda>ds ws. dials ws = ds)"

lemma view_dials:
  "mutex obs holder w \<Longrightarrow> view_of (\<lambda>ds ws. dials ws = ds) holder w (if holder = None then None else Some (dials (wd_ws w)))"
  by (auto simp: view_of_def mutex_def)

context ws_hooks
begin

lemma mutex_step:
  assumes "ws_step env w w'" and "dial_mutex holder w"
  shows "\<exists>holder'. dial_mutex holder' w'"
proof -
  note v = view_dials [OF assms(2)]
  obtain t r where go: "goes_on env w t r" and w': "w' = settle t r w"
    using assms(1) by (auto simp: ws_step_iff)
  show ?thesis
    unfolding w'
    by (rule mutex_goes_on [OF assms(2) go v]) (use dialling.disciplined_any v in \<open>auto simp: view_of_def\<close>)
qed

lemma mutex_reachable:
  assumes "(ws_step env)\<^sup>*\<^sup>* (start_world ws) w" and "\<not> ws_lock ws"
  shows "\<exists>holder. dial_mutex holder w"
  using assms(1)
proof (induction rule: rtranclp_induct)
  case base
  show ?case using mutex_start [OF assms(2)] by blast
next
  case (step w w')
  then show ?case using mutex_step by blast
qed

text \<open>While a goroutine holds the mutex, no other one takes or releases it, or dials.\<close>

lemma others_outside:
  assumes "dial_mutex (Some t) w" and "t' \<noteq> t" and "goes_on env w t' r"
  shows "dial_mutex (Some t) (settle t' r w) \<and> dials (wd_ws (settle t' r w)) = dials (wd_ws w)"
proof -
  have v: "view_of (\<lambda>ds ws. dials ws = ds) (Some t) w (Some (dials (wd_ws w)))"
    using view_dials [OF assms(1)] by simp
  have "dial_mutex (Some t) (settle t' r w) \<and> sees (\<lambda>ds ws. dials ws = ds) (Some (dials (wd_ws w))) (wd_ws (settle t' r w))"
    by (rule outside_goes_on [OF assms v]) (use dialling.disciplined_any v in \<open>auto simp: view_of_def\<close>)
  then show ?thesis by simp
qed

text \<open>
  A goroutine that waits for the mutex it holds waits for ever, and with it everything
  that needs the mutex.
\<close>

lemma self_deadlock_step:
  assumes "ws_step env w w'" and "dial_mutex (Some t) w" and "wd_threads w t = Blocked On_Lock k"
  shows "dial_mutex (Some t) w' \<and> wd_threads w' t = Blocked On_Lock k \<and> dials (wd_ws w') = dials (wd_ws w)"
proof -
  obtain t' r where go: "goes_on env w t' r" and w': "w' = settle t' r w"
    using assms(1) by (auto simp: ws_step_iff)
  have "t' \<noteq> t"
    using go assms(2,3) by (auto simp: goes_on_def mutex_def)
  from others_outside [OF assms(2) this go] have "dial_mutex (Some t) w' \<and> dials (wd_ws w') = dials (wd_ws w)"
    unfolding w' .
  moreover have "wd_threads w' t = wd_threads w t"
    using \<open>t' \<noteq> t\<close> unfolding w' by (cases r) (auto simp: settle_def)
  ultimately show ?thesis using assms(3) by simp
qed

lemma self_deadlock:
  assumes "(ws_step env)\<^sup>*\<^sup>* w w'" and "dial_mutex (Some t) w" and "wd_threads w t = Blocked On_Lock k"
  shows "dial_mutex (Some t) w' \<and> wd_threads w' t = Blocked On_Lock k \<and> dials (wd_ws w') = dials (wd_ws w)"
  using assms(1)
proof (induction rule: rtranclp_induct)
  case base
  then show ?case using assms(2,3) by simp
next
  case (step w1 w2)
  with self_deadlock_step [of w1 w2 t k] show ?case by simp
qed

end

end
