(* ===== verification/Ws_Invariants.thy ===== *)
theory Ws_Invariants
  imports Ws_Lock
begin

text \<open>
  What every goroutine keeps of a connection object: its configuration, a connection, and
  the capacities of its channels.
\<close>

definition capacity :: "'a chan \<Rightarrow> nat" where
  "capacity ch = ch_room ch + length (ch_queue ch)"

definition ws_ok :: "'h WsConfig \<Rightarrow> ('h, 'c, 'a) WsSys \<Rightarrow> bool" where
  "ws_ok cfg ws \<longleftrightarrow> WsConfig.truncate ws = cfg \<and> ws_c ws \<noteq> None \<and>
     (\<forall>q. capacity (queue_of q ws) = 10) \<and> capacity (ws_close ws) = 1"

lemma capacity_send: "chan_send x ch = Inr (Some ch') \<Longrightarrow> capacity ch' = capacity ch"
  unfolding capacity_def by (rule ch.send_capacity)

lemma capacity_recv: "chan_recv ch = Some (x, ch') \<Longrightarrow> capacity ch' = capacity ch"
  by (auto simp: capacity_def chan_recv_def split: list.splits if_splits)

lemma capacity_close: "chan_close ch = Inr ch' \<Longrightarrow> capacity ch' = capacity ch"
  by (auto simp: capacity_def chan_close_def split: if_splits)

lemma capacity_probe: "isChanClose ch = (b, ch') \<Longrightarrow> capacity ch' = capacity ch"
  unfolding capacity_def isChanClose_def by (metis ch.probe_capacity snd_conv)

lemma queue_of_set_queue: "queue_of q (set_queue q' ch ws) = (if q = q' then ch else queue_of q ws)"
  by (cases q; cases q') simp_all

lemma set_queue_simps [simp]:
  "WsConfig.truncate (set_queue q ch ws) = WsConfig.truncate ws"
  "ws_c (set_queue q ch ws) = ws_c ws"
  "ws_close (set_queue q ch ws) = ws_close ws"
  by (cases q; simp add: WsConfig.truncate_def)+

lemma queue_of_update [simp]:
  "queue_of q (ws\<lparr>ws_lock := b\<rparr>) = queue_of q ws"
  "queue_of q (ws\<lparr>ws_c := c\<rparr>) = queue_of q ws"
  "queue_of q (ws\<lparr>ws_close := ch\<rparr>) = queue_of q ws"
  "queue_of q (ws\<lparr>sy_app := a\<rparr>) = queue_of q ws"
  by (cases q; simp)+

lemma truncate_update [simp]:
  "WsConfig.truncate (event e ws) = WsConfig.truncate ws"
  "WsConfig.truncate (ws\<lparr>ws_lock := b\<rparr>) = WsConfig.truncate ws"
  "WsConfig.truncate (ws\<lparr>sy_app := a\<rparr>) = WsConfig.truncate ws"
  "WsConfig.truncate (ws\<lparr>ws_c := c\<rparr>) = WsConfig.truncate ws"
  "WsConfig.truncate (ws\<lparr>ws_close := cch\<rparr>) = WsConfig.truncate ws"
  by (simp_all add: WsConfig.truncate_def event_def)

lemma ws_ok_update [simp]:
  "ws_ok cfg (event e ws) = ws_ok cfg ws"
  "ws_ok cfg (ws\<lparr>ws_lock := b\<rparr>) = ws_ok cfg ws"
  "ws_ok cfg (ws\<lparr>sy_app := a\<rparr>) = ws_ok cfg ws"
  "ws_ok cfg ws \<Longrightarrow> ws_ok cfg (ws\<lparr>ws_c := Some c\<rparr>)"
  "ws_ok cfg ws \<Longrightarrow> capacity ch = 10 \<Longrightarrow> ws_ok cfg (set_queue q ch ws)"
  "ws_ok cfg ws \<Longrightarrow> capacity cch = 1 \<Longrightarrow> ws_ok cfg (ws\<lparr>ws_close := cch\<rparr>)"
  by (simp_all add: ws_ok_def queue_of_set_queue)

lemma ws_ok_queue: "ws_ok cfg ws \<Longrightarrow> capacity (queue_of q ws) = 10"
  by (simp add: ws_ok_def)

lemma ws_ok_close: "ws_ok cfg ws \<Longrightarrow> capacity (ws_close ws) = 1"
  by (simp add: ws_ok_def)

lemma set_write: "set_queue WriteQ ch ws = ws\<lparr>ws_writeBufferChan := ch\<rparr>"
  by simp

lemma ws_ok_drop_write: "ws_ok cfg ws \<Longrightarrow> ws_ok cfg (drop_write ws)"
  unfolding drop_write_def set_write [symmetric]
  by (rule ws_ok_update) (simp_all del: set_queue.simps, metis capacity_probe prod.collapse queue_of.simps(1) ws_ok_queue)

lemma ok_steps [simp, intro]:
  "ws_ok cfg ws \<Longrightarrow> stays ready (ws_ok cfg) (sleep d ws)"
  "ws_ok cfg ws \<Longrightarrow> stays ready (ws_ok cfg) (c_Close ws)"
  "ws_ok cfg ws \<Longrightarrow> stays ready (ws_ok cfg) (c_SetReadDeadline ws)"
  "ws_ok cfg ws \<Longrightarrow> stays ready (ws_ok cfg) (c_WriteMessage env kd msg ws)"
  "ws_ok cfg ws \<Longrightarrow> stays ready (ws_ok cfg) (call_error env s ws)"
  "ws_ok cfg ws \<Longrightarrow> stays ready (ws_ok cfg) (call_proto env msg ws)"
  "ws_ok cfg ws \<Longrightarrow> stays ready (ws_ok cfg) (connect env ws)"
  "ws_ok cfg ws \<Longrightarrow> stays ready (ws_ok cfg) (c_SetHandler kd ws)"
  by (auto simp: sleep_def c_Close_def c_SetReadDeadline_def c_SetHandler_def c_WriteMessage_def call_error_def
      call_proto_def connect_def Let_def split: option.splits sum.splits intro!: stays_with_c)

lemma ok_send [simp, intro]: "ws_ok cfg ws \<Longrightarrow> stays ready (ws_ok cfg) (send_on q msg ws)"
  by (rule stays_send) (auto simp: ws_ok_queue dest!: capacity_send)

lemma ok_with_lock:
  "ws_ok cfg ws \<Longrightarrow> (\<And>ws. ws_ok cfg ws \<Longrightarrow> stays ready (ws_ok cfg) (body ws)) \<Longrightarrow>
    stays ready (ws_ok cfg) (with_lock body ws)"
  by (rule stays_with_lock) simp_all

lemma ok_close_queue: "ws_ok cfg ws \<Longrightarrow> stays ready (ws_ok cfg) (close_queue q ws)"
  by (auto simp: close_queue_def ws_ok_queue split: sum.splits dest!: capacity_close)

lemma ok_close_all: "ws_ok cfg ws \<Longrightarrow> stays ready (ws_ok cfg) (close_all ws)"
  unfolding close_all_def
  by (intro stays_bind ok_close_queue)
    (auto simp: send_close_def close_close_def ws_ok_close split: sum.splits option.splits
      dest!: capacity_send capacity_close)

lemma ok_CloseWs: "ws_ok cfg ws \<Longrightarrow> stays ready (ws_ok cfg) (CloseWs ws)"
  unfolding CloseWs_def
  by (rule ok_with_lock)
    (auto simp: Let_def ws_ok_close split: prod.splits intro!: stays_bind ok_close_all dest!: capacity_probe)

section \<open>Hooks that leave the configuration alone\<close>

locale ws_frozen_hooks = ws_hooks +
  assumes pre_ok: "ws_ok cfg ws \<Longrightarrow> stays ready (ws_ok cfg) (we_pre env h n ws)"
    and post_ok: "ws_ok cfg ws \<Longrightarrow> stays ready (ws_ok cfg) (we_post env h ws)"
begin

lemma ok_tries: "ws_ok cfg ws \<Longrightarrow> stays ready (ws_ok cfg) (reconnect_tries env retries err ws)"
proof (induction retries arbitrary: err ws)
  case (Cons retry retries)
  have "stays ready (ws_ok cfg) (pre_reconnect env retry ws)"
    using Cons.prems pre_ok by (auto simp: pre_reconnect_def split: option.splits)
  then show ?case by (auto intro!: stays_bind Cons.IH)
qed simp

lemma ok_Reconnect: "ws_ok cfg ws \<Longrightarrow> stays ready (ws_ok cfg) (Reconnect env ws)"
  unfolding Reconnect_eq
  by (rule ok_with_lock)
    (auto simp: reconnect_body_def reconnect_rest_def after_reconnect_def SendMessage_def ws_ok_drop_write split: option.splits
      intro!: stays_bind ok_tries ok_CloseWs post_ok)

lemma ok_after_write: "ws_ok cfg ws \<Longrightarrow> stays ready (ws_ok cfg) (after_write env armed err ws)"
  by (auto simp: after_write_def split: option.splits intro!: stays_bind ok_Reconnect)

lemma ok_stream: "ws_ok cfg ws \<Longrightarrow> stays ready (ws_ok cfg) (write_stream env data err ws)"
  by (induction data arbitrary: err ws) (auto intro!: stays_bind)

lemma ok_write:
  assumes "ws_ok cfg ws" and "write_iteration env sel err armed ws = Some r"
  shows "stays ready (ws_ok cfg) r"
proof (cases sel)
  case Case_Close
  with assms show ?thesis by (auto simp: write_iteration_def ws_ok_close dest!: capacity_recv)
next
  case (Case_Queue q)
  with assms show ?thesis
    by (auto simp: write_iteration_def ws_ok_queue intro!: stays_bind ok_after_write dest!: capacity_recv)
next
  case Case_Timer
  with assms show ?thesis
    by (auto simp: write_iteration_def write_heartbeat_def split: if_splits option.splits
        intro!: stays_bind ok_after_write ok_stream)
qed

lemma ok_frames: "ws_ok cfg ws \<Longrightarrow> stays ready (ws_ok cfg) (control_frames handled fs ws)"
  by (induction handled fs ws rule: control_frames.induct)
    (auto simp: SendPongMessage_def intro!: stays_bind)

lemma ok_handle: "ws_ok cfg ws \<Longrightarrow> stays ready (ws_ok cfg) (handle_message env t msg ws)"
  by (auto simp: handle_message_def split: ws_kind.splits option.splits sum.splits)

lemma ok_receive: "ws_ok cfg ws \<Longrightarrow> stays ready (ws_ok cfg) (receive_iteration env started ws)"
  by (auto simp: receive_iteration_def read_next_def install_handlers_def read_failed_def ws_ok_close split: option.splits prod.splits sum.splits
      intro!: stays_with_c stays_bind ok_frames ok_handle ok_Reconnect dest!: capacity_recv)

lemma ok_call: "ws_ok cfg ws \<Longrightarrow> stays ready (ws_ok cfg) (call_run env c ws)"
  by (cases c)
    (auto simp: Subscribe_def WsClose_def write_closed_eq ws_ok_drop_write split: sum.splits
      intro!: stays_bind ok_CloseWs ok_Reconnect)

lemma ok_iteration:
  "ws_ok cfg ws \<Longrightarrow> iteration env act l ws = Some r \<Longrightarrow> stays ready (ws_ok cfg) r"
  by (cases "(env, act, l, ws)" rule: iteration.cases)
    (auto intro: ok_write intro!: ok_receive stays_bind [OF ok_call])

end

sublocale ws_frozen_hooks \<subseteq> ok: ws_invariant env "ws_ok cfg" for cfg
  by unfold_locales (rule ok_iteration)

end
