(* ===== verification/Ws_Calm.thy ===== *)
theory Ws_Calm
  imports Ws_Invariants
begin

text \<open>
  Executions in which no caller closes the client: no goroutine panics and every channel
  stays open. \<open>Reconnect\<close> also closes the client when it gives up, but it never gets to it:
  it waits for the mutex it holds, and a run that waits inside its critical section is only
  resumed in states in which the mutex is locked.
\<close>

section \<open>Runs that do not panic\<close>

definition good :: "'h WsConfig \<Rightarrow> ('h, 'c, 'a) WsSys \<Rightarrow> bool" where
  "good cfg ws \<longleftrightarrow> ws_ok cfg ws \<and> all_open ws"

text \<open>\<open>stays\<close>, without panics.\<close>

primrec survives :: "(('h, 'c, 'a) WsSys \<Rightarrow> bool) \<Rightarrow> ('h, 'c, 'a, 'r) ws_run \<Rightarrow> bool" where
  "survives P (Done r ws) = P ws"
| "survives P (Crashed p) = False"
| "survives P (Stuck wt ws k) = (P ws \<and> (\<forall>ws'. P ws' \<longrightarrow> ready wt ws' \<longrightarrow> survives P (k ws')))"

text \<open>
  A whole iteration, of a goroutine that does not hold the mutex when it starts; \<open>other\<close>
  says whether another one does.
\<close>

primrec calm :: "'h WsConfig \<Rightarrow> ('h, 'c, 'a, 'r) ws_run \<Rightarrow> bool \<Rightarrow> bool" where
  "calm cfg (Done r ws) other = (good cfg ws \<and> ws_lock ws = other)"
| "calm cfg (Crashed p) other = False"
| "calm cfg (Stuck wt ws k) other =
     (good cfg ws \<and>
      (if \<not> other \<and> ws_lock ws
       then \<forall>ws'. good cfg ws' \<longrightarrow> ws_lock ws' \<longrightarrow> ready wt ws' \<longrightarrow> calm cfg (k ws') False
       else ws_lock ws = other \<and> (\<forall>ws'. good cfg ws' \<longrightarrow> ready wt ws' \<longrightarrow> calm cfg (k ws') (ws_lock ws'))))"

lemma survives_bind:
  "survives P r \<Longrightarrow> (\<And>a ws. P ws \<Longrightarrow> survives P (f a ws)) \<Longrightarrow> survives P (run_bind r f)"
  by (induction r) auto

lemma calm_bind:
  assumes "calm cfg r other" and "\<And>a ws. good cfg ws \<Longrightarrow> calm cfg (f a ws) (ws_lock ws)"
  shows "calm cfg (run_bind r f) other"
  using assms(1)
proof (induction r arbitrary: other)
  case (Done a ws)
  then show ?case using assms(2) [of ws a] by auto
next
  case (Stuck wt ws k)
  then show ?case by (auto split: if_splits)
qed simp

section \<open>Single operations\<close>

lemma good_update [simp]:
  "good cfg (event e ws) = good cfg ws"
  "good cfg (ws\<lparr>ws_lock := b\<rparr>) = good cfg ws"
  "good cfg (ws\<lparr>sy_app := a\<rparr>) = good cfg ws"
  "good cfg ws \<Longrightarrow> good cfg (ws\<lparr>ws_c := Some c\<rparr>)"
  by (auto simp: good_def all_open_def)

lemma good_queue:
  "good cfg ws \<Longrightarrow> capacity ch = 10 \<Longrightarrow> \<not> ch_closed ch \<Longrightarrow> good cfg (set_queue q ch ws)"
  by (auto simp: good_def all_open_def queue_of_set_queue)

lemma good_chan: "good cfg ws \<Longrightarrow> capacity (queue_of q ws) = 10 \<and> \<not> ch_closed (queue_of q ws)"
  using ws_ok_queue [of cfg ws q] by (simp add: good_def all_open_def)

lemma good_c: "good cfg ws \<Longrightarrow> \<exists>c. ws_c ws = Some c"
  by (auto simp: good_def ws_ok_def)

lemma good_drop: "good cfg ws \<Longrightarrow> good cfg (drop_write ws)"
  using ws_ok_drop_write [of cfg ws]
  by (auto simp: good_def all_open_queues drop_write_def isChanClose_eq split: list.splits)

lemma recv_open: "chan_recv ch = Some (d, ch') \<Longrightarrow> \<not> ch_closed ch \<Longrightarrow> \<not> ch_closed ch'"
  by (auto simp: chan_recv_def split: list.splits)

lemma good_recv: "good cfg ws \<Longrightarrow> chan_recv (queue_of q ws) = Some (d, ch) \<Longrightarrow> good cfg (set_queue q ch ws)"
  using good_chan [of cfg ws q] capacity_recv [of "queue_of q ws" d ch] recv_open [of "queue_of q ws" d ch]
  by (intro good_queue) auto

lemma good_recv_close: "good cfg ws \<Longrightarrow> chan_recv (ws_close ws) = Some (d, ch) \<Longrightarrow> good cfg (ws\<lparr>ws_close := ch\<rparr>)"
  using capacity_recv [of "ws_close ws" d ch] recv_open [of "ws_close ws" d ch]
  by (auto simp: good_def all_open_def ws_ok_close)

lemma good_send:
  assumes "good cfg ws"
  shows "chan_send msg (queue_of q ws) = Inr None \<or>
    (\<exists>ch. chan_send msg (queue_of q ws) = Inr (Some ch) \<and> good cfg (set_queue q ch ws))"
proof -
  note c = good_chan [OF assms, of q]
  show ?thesis
  proof (cases "ch_room (queue_of q ws)")
    case 0
    then show ?thesis using c by (simp add: ch.send_full)
  next
    case (Suc n)
    have open_q: "\<not> ch_closed (queue_of q ws)" using c by simp
    from ch.send_ready [OF open_q Suc, of msg] obtain ch
      where ch: "chan_send msg (queue_of q ws) = Inr (Some ch)" "\<not> ch_closed ch" by blast
    from capacity_send [OF ch(1)] c have "capacity ch = 10" by simp
    from ch(1) good_queue [OF assms this ch(2), of q] show ?thesis by blast
  qed
qed

text \<open>Both kinds of run: what holds of every operation that leaves the mutex alone.\<close>

definition holding :: "'h WsConfig \<Rightarrow> ('h, 'c, 'a) WsSys \<Rightarrow> bool" where
  "holding cfg ws \<longleftrightarrow> good cfg ws \<and> ws_lock ws"

lemma holding_c: "holding cfg ws \<Longrightarrow> ws_c ws \<noteq> None"
  by (auto simp: holding_def dest: good_c)

lemma calm_turn:
  "good cfg ws \<Longrightarrow> (\<And>ws. good cfg ws \<Longrightarrow> calm cfg (f ws) (ws_lock ws)) \<Longrightarrow> calm cfg (turn f ws) (ws_lock ws)"
  by (auto simp: turn_def)

lemma calm_with_c:
  "good cfg ws \<Longrightarrow> (\<And>c ws. good cfg ws \<Longrightarrow> calm cfg (f c ws) (ws_lock ws)) \<Longrightarrow> calm cfg (with_c f ws) (ws_lock ws)"
  unfolding with_c_def by (intro calm_turn) (auto dest: good_c intro!: calm_turn split: option.splits)

lemma survives_turn:
  "P ws \<Longrightarrow> (\<And>ws. P ws \<Longrightarrow> survives P (f ws)) \<Longrightarrow> survives P (turn f ws)"
  by (auto simp: turn_def)

lemma holding_with_c:
  "holding cfg ws \<Longrightarrow> (\<And>c ws. holding cfg ws \<Longrightarrow> survives (holding cfg) (f c ws)) \<Longrightarrow>
    survives (holding cfg) (with_c f ws)"
  unfolding with_c_def by (intro survives_turn) (auto dest: holding_c intro!: survives_turn split: option.splits)

lemma calm_steps:
  assumes "good cfg ws"
  shows "calm cfg (sleep d ws) (ws_lock ws)" "calm cfg (c_Close ws) (ws_lock ws)"
    "calm cfg (c_SetReadDeadline ws) (ws_lock ws)" "calm cfg (c_WriteMessage env kd msg ws) (ws_lock ws)"
    "calm cfg (call_error env s ws) (ws_lock ws)" "calm cfg (c_SetHandler kd ws) (ws_lock ws)"
  unfolding sleep_def c_Close_def c_SetReadDeadline_def c_SetHandler_def c_WriteMessage_def call_error_def Let_def
  using assms by (auto split: option.splits intro!: calm_turn calm_with_c)

lemma holding_steps:
  assumes "holding cfg ws"
  shows "survives (holding cfg) (sleep d ws)" "survives (holding cfg) (c_Close ws)" "survives (holding cfg) (call_error env s ws)"
  using assms
  by (auto simp: holding_def sleep_def c_Close_def call_error_def split: option.splits
      intro!: survives_turn holding_with_c)

lemma calm_send_now: "good cfg ws \<Longrightarrow> calm cfg (send_now q msg ws) (ws_lock ws)"
  using good_send [of cfg ws msg q] by (auto simp: send_now_def)

lemma calm_send: "good cfg ws \<Longrightarrow> calm cfg (send_on q msg ws) (ws_lock ws)"
  using calm_send_now by (auto simp: send_on_def)

lemma holding_send: "holding cfg ws \<Longrightarrow> survives (holding cfg) (send_on q msg ws)"
proof -
  have "survives (holding cfg) (send_now q msg ws)" if "holding cfg ws" for ws
    using that good_send [of cfg ws msg q] by (auto simp: send_now_def holding_def)
  then show "holding cfg ws \<Longrightarrow> survives (holding cfg) (send_on q msg ws)" by (auto simp: send_on_def)
qed

section \<open>The mutex\<close>

lemma calm_release:
  "survives (holding cfg) r \<Longrightarrow> calm cfg (run_bind r release) False"
  by (induction r) (auto simp: holding_def release_def turn_def)

lemma calm_with_lock:
  assumes "\<And>ws. holding cfg ws \<Longrightarrow> survives (holding cfg) (body ws)" and "good cfg ws"
  shows "calm cfg (with_lock body ws) (ws_lock ws)"
proof -
  have "calm cfg (run_bind (body (ws\<lparr>ws_lock := True\<rparr>)) release) False" if "good cfg ws" for ws
    using that by (intro calm_release assms(1)) (simp add: holding_def)
  then show ?thesis using assms(2) by (auto simp: with_lock_def acquire_def)
qed

text \<open>Asking again for the mutex one holds: a wait that does not end.\<close>

lemma holding_with_lock: "holding cfg ws \<Longrightarrow> survives (holding cfg) (with_lock body ws)"
  by (auto simp: with_lock_def acquire_def holding_def)

section \<open>Reconnecting\<close>

text \<open>What the configuration and the hooks contribute.\<close>

locale ws_calm_hooks = ws_frozen_hooks env for env :: "('h, 'c, 'a) ws_env" +
  fixes cfg :: "'h WsConfig"
  assumes no_bind_addr: "wc_BindAddr cfg = []"
    and has_handler: "wc_ProtoHandleFunc cfg \<noteq> None"
    and pre_calm: "holding cfg ws \<Longrightarrow> survives (holding cfg) (we_pre env h n ws)"
    and post_calm: "holding cfg ws \<Longrightarrow> survives (holding cfg) (we_post env h ws)"
begin

lemma good_config:
  assumes "good cfg ws"
  shows "wc_BindAddr ws = []" and "wc_ProtoHandleFunc ws \<noteq> None"
proof -
  have "WsConfig.truncate ws = cfg" using assms by (simp add: good_def ws_ok_def)
  then show "wc_BindAddr ws = []" and "wc_ProtoHandleFunc ws \<noteq> None"
    using no_bind_addr has_handler by (auto simp: WsConfig.truncate_def)
qed

lemma holding_connect:
  assumes "holding cfg ws"
  shows "survives (holding cfg) (connect env ws)"
proof -
  have "wc_BindAddr ws = []" if "holding cfg ws" for ws
    using that good_config(1) [of ws] by (simp add: holding_def)
  then show ?thesis
    unfolding connect_def using assms
    by (intro survives_turn) (auto simp: ws_dialer_eq holding_def split: sum.split intro!: survives_turn)
qed

lemma holding_tries: "holding cfg ws \<Longrightarrow> survives (holding cfg) (reconnect_tries env retries err ws)"
proof (induction retries arbitrary: err ws)
  case (Cons retry retries)
  have "survives (holding cfg) (pre_reconnect env retry ws)"
    using Cons.prems pre_calm by (auto simp: pre_reconnect_def split: option.splits intro!: survives_bind)
  then show ?case
    by (auto intro!: survives_bind holding_connect holding_steps Cons.IH)
qed simp

lemma holding_after: "holding cfg ws \<Longrightarrow> survives (holding cfg) (after_reconnect env ws)"
  using post_calm by (auto simp: after_reconnect_def SendMessage_def split: option.splits intro!: survives_bind holding_send)

lemma holding_drop: "holding cfg ws \<Longrightarrow> holding cfg (drop_write ws)"
  by (simp add: holding_def good_drop)

lemma holding_body: "holding cfg ws \<Longrightarrow> survives (holding cfg) (reconnect_body env ws)"
  by (auto simp: reconnect_body_def reconnect_rest_def CloseWs_def holding_drop
      intro!: survives_bind holding_tries holding_steps holding_with_lock holding_after)

lemma calm_Reconnect: "good cfg ws \<Longrightarrow> calm cfg (Reconnect env ws) (ws_lock ws)"
  unfolding Reconnect_eq by (intro calm_with_lock survives_turn holding_body)

section \<open>Iterations\<close>

lemma calm_after_write: "good cfg ws \<Longrightarrow> calm cfg (after_write env armed err ws) (ws_lock ws)"
  by (auto simp: after_write_def split: option.splits intro!: calm_bind calm_steps calm_Reconnect)

lemma calm_stream: "good cfg ws \<Longrightarrow> calm cfg (write_stream env data err ws) (ws_lock ws)"
  by (induction data arbitrary: err ws) (auto intro!: calm_bind calm_steps)

lemma lock_set_queue: "ws_lock (set_queue q ch ws) = ws_lock ws"
  by (cases q) simp_all

lemma calm_write:
  assumes "good cfg ws" and "write_iteration env sel err armed ws = Some r"
  shows "calm cfg r (ws_lock ws)"
proof (cases sel)
  case Case_Close
  with assms show ?thesis by (auto simp: write_iteration_def intro: good_recv_close)
next
  case (Case_Queue q)
  then obtain d ch where ch: "chan_recv (queue_of q ws) = Some (d, ch)" and
    r: "r = run_bind (c_WriteMessage env (kind_of q) (case d of None \<Rightarrow> [] | Some d \<Rightarrow> d) (set_queue q ch ws))
        (\<lambda>err ws. after_write env armed err ws)"
    using assms(2) by (auto simp: write_iteration_def)
  from good_recv [OF assms(1) ch] have g: "good cfg (set_queue q ch ws)" .
  show ?thesis
    unfolding r using calm_steps(4) [OF g] by (intro calm_bind calm_after_write) (simp_all add: lock_set_queue)
next
  case Case_Timer
  with assms show ?thesis
    by (auto simp: write_iteration_def write_heartbeat_def split: if_splits option.splits
        intro!: calm_bind calm_after_write calm_stream calm_steps)
qed

lemma calm_frames: "good cfg ws \<Longrightarrow> calm cfg (control_frames handled fs ws) (ws_lock ws)"
  by (induction handled fs ws rule: control_frames.induct)
    (auto simp: SendPongMessage_def intro!: calm_bind calm_send calm_steps)

lemma calm_proto: "good cfg ws \<Longrightarrow> calm cfg (call_proto env msg ws) (ws_lock ws)"
  using good_config(2) [of ws] by (auto simp: call_proto_def intro!: calm_turn)

lemma calm_handle: "good cfg ws \<Longrightarrow> calm cfg (handle_message env t msg ws) (ws_lock ws)"
  by (auto simp: handle_message_def split: ws_kind.splits option.splits sum.splits intro!: calm_proto)

lemma calm_failed: "good cfg ws \<Longrightarrow> calm cfg (read_failed env err ws) (ws_lock ws)"
  by (auto simp: read_failed_def intro!: calm_bind calm_Reconnect calm_steps)

lemma calm_receive: "good cfg ws \<Longrightarrow> calm cfg (receive_iteration env started ws) (ws_lock ws)"
  by (auto simp: receive_iteration_def read_next_def install_handlers_def split: option.splits prod.splits sum.splits
      intro: good_recv_close intro!: calm_with_c calm_bind calm_frames calm_handle calm_failed calm_steps)

lemma calm_close_drop: "good cfg ws \<Longrightarrow> calm cfg (c_Close (drop_write ws)) (ws_lock ws)"
  using calm_steps(2) [OF good_drop] by simp

lemma calm_close: "good cfg ws \<Longrightarrow> calm cfg (WsClose ws) (ws_lock ws)"
  unfolding WsClose_def by (intro calm_turn) (auto simp: write_closed_eq good_drop calm_close_drop)

lemma calm_call: "good cfg ws \<Longrightarrow> c \<noteq> Call_CloseWs \<Longrightarrow> calm cfg (call_run env c ws) (ws_lock ws)"
  by (cases c)
    (auto simp: Subscribe_def calm_close split: sum.splits intro!: calm_bind calm_send calm_Reconnect)

lemma calm_iteration:
  assumes "good cfg ws" and "iteration env act l ws = Some r" and "act \<noteq> Call Call_CloseWs"
  shows "calm cfg r (ws_lock ws)"
  using assms
  by (cases "(env, act, l, ws)" rule: iteration.cases)
    (auto intro: calm_write intro!: calm_receive calm_bind [OF calm_call])

end

section \<open>The system\<close>

definition calm_wait :: "'h WsConfig \<Rightarrow> bool \<Rightarrow> wait \<Rightarrow> (('h, 'c, 'a) WsSys \<Rightarrow> ('h, 'c, 'a) iteration) \<Rightarrow> bool" where
  "calm_wait cfg holds wt k \<longleftrightarrow>
     (\<forall>ws. good cfg ws \<longrightarrow> ready wt ws \<longrightarrow> holds \<longrightarrow> ws_lock ws \<longrightarrow> calm cfg (k ws) False) \<and>
     (\<forall>ws. good cfg ws \<longrightarrow> ready wt ws \<longrightarrow> \<not> holds \<longrightarrow> calm cfg (k ws) (ws_lock ws))"

text \<open>The goroutines other than \<open>t\<close>, of which \<open>holder\<close> has the mutex.\<close>

definition calm_others :: "'h WsConfig \<Rightarrow> thread option \<Rightarrow> thread \<Rightarrow> ('h, 'c, 'a) ws_world \<Rightarrow> bool" where
  "calm_others cfg holder t w \<longleftrightarrow> \<not> wd_crashed w \<and> holder \<noteq> Some t \<and>
     (\<forall>t' wt k. t' \<noteq> t \<longrightarrow> wd_threads w t' = Blocked wt k \<longrightarrow> calm_wait cfg (holder = Some t') wt k) \<and>
     (\<forall>t'. holder = Some t' \<longrightarrow> (\<exists>wt k. wd_threads w t' = Blocked wt k))"

definition calm_world :: "'h WsConfig \<Rightarrow> thread option \<Rightarrow> ('h, 'c, 'a) ws_world \<Rightarrow> bool" where
  "calm_world cfg holder w \<longleftrightarrow> good cfg (wd_ws w) \<and> \<not> wd_crashed w \<and>
     (ws_lock (wd_ws w) \<longleftrightarrow> holder \<noteq> None) \<and>
     (\<forall>t wt k. wd_threads w t = Blocked wt k \<longrightarrow> calm_wait cfg (holder = Some t) wt k) \<and>
     (\<forall>t. holder = Some t \<longrightarrow> (\<exists>wt k. wd_threads w t = Blocked wt k))"

lemma calm_start: "good cfg ws \<Longrightarrow> \<not> ws_lock ws \<Longrightarrow> calm_world cfg None (start_world ws)"
  by (simp add: calm_world_def start_world_def)

lemma settle_calm:
  assumes "calm_others cfg holder t w" and "calm cfg r (holder \<noteq> None)"
  shows "\<exists>holder'. calm_world cfg holder' (settle t r w)"
proof (cases r)
  case (Done l ws)
  with assms have "calm_world cfg holder (settle t r w)"
    by (auto simp: calm_others_def calm_world_def settle_def split: option.splits)
  then show ?thesis ..
next
  case (Crashed p)
  with assms(2) show ?thesis by simp
next
  case (Stuck wt ws k)
  show ?thesis
  proof (cases "holder = None \<and> ws_lock ws")
    case True
    with Stuck assms have "calm_world cfg (Some t) (settle t r w)"
      by (auto simp: calm_others_def calm_world_def calm_wait_def settle_def)
    then show ?thesis ..
  next
    case False
    with Stuck assms have "calm_world cfg holder (settle t r w)"
      by (auto simp: calm_others_def calm_world_def calm_wait_def settle_def split: if_splits)
    then show ?thesis ..
  qed
qed

lemma world_wait:
  "calm_world cfg holder w \<Longrightarrow> wd_threads w t = Blocked wt k \<Longrightarrow> calm_wait cfg (holder = Some t) wt k"
  by (simp add: calm_world_def)

lemma others_of_world:
  assumes "calm_world cfg holder w"
  shows "holder \<noteq> Some t \<Longrightarrow> calm_others cfg holder t w"
    and "holder = Some t \<Longrightarrow> calm_others cfg None t w"
  using assms world_wait [OF assms] by (simp_all add: calm_world_def calm_others_def) metis

text \<open>A waiting goroutine goes on.\<close>

lemma resume_calm:
  assumes "calm_world cfg holder w" and "wd_threads w t = Blocked wt k" and "ready wt (wd_ws w)"
  shows "\<exists>holder'. calm_world cfg holder' (settle t (k (wd_ws w)) w)"
proof -
  note wait = world_wait [OF assms(1,2)]
  have g: "good cfg (wd_ws w)" and l: "ws_lock (wd_ws w) \<longleftrightarrow> holder \<noteq> None"
    using assms(1) by (simp_all add: calm_world_def)
  show ?thesis
  proof (cases "holder = Some t")
    case True
    then have "calm cfg (k (wd_ws w)) False" using wait g l assms(3) by (simp add: calm_wait_def)
    with settle_calm [OF others_of_world(2) [OF assms(1) True]] show ?thesis by simp
  next
    case False
    then have "calm cfg (k (wd_ws w)) (ws_lock (wd_ws w))" using wait g assms(3) by (simp add: calm_wait_def)
    with l settle_calm [OF others_of_world(1) [OF assms(1) False]] show ?thesis by simp
  qed
qed

context ws_calm_hooks
begin

lemma calm_step:
  assumes "quiet_step env w w'" and "calm_world cfg holder w"
  shows "\<exists>holder'. calm_world cfg holder' w'"
  using assms(1)
proof (cases rule: limited_step.cases)
  case (limited_iterate t l act r)
  have "act \<noteq> Call Call_CloseWs" using limited_iterate(4) by auto
  have "holder \<noteq> Some t" using assms(2) limited_iterate(3) by (auto simp: calm_world_def)
  moreover have "calm cfg r (holder \<noteq> None)"
    using calm_iteration [OF _ limited_iterate(5)] \<open>act \<noteq> Call Call_CloseWs\<close> assms(2) by (simp add: calm_world_def)
  ultimately show ?thesis
    unfolding limited_iterate(1) using assms(2) by (intro settle_calm others_of_world)
next
  case (limited_resume t wt k)
  show ?thesis unfolding limited_resume(1) by (rule resume_calm [OF assms(2) limited_resume(3,4)])
qed

lemma calm_reachable:
  assumes "(quiet_step env)\<^sup>*\<^sup>* (start_world ws) w" and "good cfg ws" and "\<not> ws_lock ws"
  shows "\<exists>holder. calm_world cfg holder w"
  using assms(1)
proof (induction rule: rtranclp_induct)
  case base
  show ?case using calm_start [OF assms(2,3)] by blast
next
  case (step w w')
  then show ?case using calm_step by blast
qed

end

end
