(* ===== verification/Ws_Handlers.thy ===== *)
theory Ws_Handlers
  imports Ws_Reconnect
begin

text \<open>
  Which handlers for control frames are installed. Only the start of \<open>receiveMessage\<close>
  installs any; a run is described by the handlers it adds, whatever the other goroutines
  do in between.
\<close>

section \<open>Runs that add handlers\<close>

definition handler_kinds :: "('h, 'c, 'a) WsSys \<Rightarrow> ws_kind list" where
  "handler_kinds ws = concat (map (\<lambda>e. case e of SetHandler c kind \<Rightarrow> [kind] | _ \<Rightarrow> []) (sy_events ws))"

text \<open>
  \<open>adds Q r hs new\<close>: a run that goes on in a state with the handlers \<open>hs\<close> adds \<open>new\<close>, in that
  order, and ends with a result in \<open>Q\<close>.
\<close>

primrec adds :: "('r \<Rightarrow> bool) \<Rightarrow> ('h, 'c, 'a, 'r) ws_run \<Rightarrow> ws_kind list \<Rightarrow> ws_kind list \<Rightarrow> bool" where
  "adds Q (Done r ws) hs new = (Q r \<and> handler_kinds ws = hs @ new)"
| "adds Q (Crashed p) hs new = True"
| "adds Q (Stuck wt ws k) hs new =
     (\<exists>now later. new = now @ later \<and> handler_kinds ws = hs @ now \<and>
       (\<forall>ws'. ready wt ws' \<longrightarrow> adds Q (k ws') (handler_kinds ws') later))"

abbreviation adds_none :: "('h, 'c, 'a, 'r) ws_run \<Rightarrow> ws_kind list \<Rightarrow> bool" where
  "adds_none r hs \<equiv> adds (\<lambda>_. True) r hs []"

lemma adds_later: "adds Q r (hs @ xs) ys \<Longrightarrow> adds Q r hs (xs @ ys)"
proof (cases r)
  case (Stuck wt ws k)
  assume "adds Q r (hs @ xs) ys"
  with Stuck obtain now later where "ys = now @ later" "handler_kinds ws = (hs @ xs) @ now"
    "\<And>ws'. ready wt ws' \<Longrightarrow> adds Q (k ws') (handler_kinds ws') later" by auto
  with Stuck show ?thesis by (auto intro!: exI [of _ "xs @ now"])
qed simp_all

lemma adds_bind:
  assumes "adds (\<lambda>_. True) r hs xs" and "\<And>a ws. adds Q (f a ws) (handler_kinds ws) ys"
  shows "adds Q (run_bind r f) hs (xs @ ys)"
  using assms(1)
proof (induction r arbitrary: hs xs)
  case (Done a ws)
  then show ?case using assms(2) [of a ws] by (simp add: adds_later)
next
  case (Stuck wt ws k)
  then obtain now later where "xs = now @ later" "handler_kinds ws = hs @ now"
    "\<And>ws'. ready wt ws' \<Longrightarrow> adds (\<lambda>_. True) (k ws') (handler_kinds ws') later" by auto
  with Stuck.IH show ?case by (auto intro!: exI [of _ now] exI [of _ "later @ ys"])
qed simp

lemma adds_none_bind:
  "adds_none r hs \<Longrightarrow> (\<And>a ws. adds Q (f a ws) (handler_kinds ws) ys) \<Longrightarrow> adds Q (run_bind r f) hs ys"
  using adds_bind [where xs = "[]"] by fastforce

lemma adds_turn:
  "handler_kinds ws = hs \<Longrightarrow> (\<And>ws. adds Q (f ws) (handler_kinds ws) xs) \<Longrightarrow> adds Q (turn f ws) hs xs"
  by (simp add: turn_def)

lemma adds_with_c:
  "handler_kinds ws = hs \<Longrightarrow> (\<And>c ws. adds Q (f c ws) (handler_kinds ws) xs) \<Longrightarrow> adds Q (with_c f ws) hs xs"
  unfolding with_c_def by (intro adds_turn) (auto split: option.split intro!: adds_turn)

section \<open>Operations\<close>

lemma handler_kinds_event:
  "handler_kinds (event e ws) = handler_kinds ws @ (case e of SetHandler c kind \<Rightarrow> [kind] | _ \<Rightarrow> [])"
  by (simp add: handler_kinds_def event_def)

lemma handler_kinds_cong: "sy_events ws' = sy_events ws \<Longrightarrow> handler_kinds ws' = handler_kinds ws"
  by (simp add: handler_kinds_def)

lemma events_set_queue [simp]: "sy_events (set_queue q ch ws) = sy_events ws"
  by (cases q) simp_all

lemma handler_kinds_simps [simp]:
  "handler_kinds (ws\<lparr>ws_lock := b\<rparr>) = handler_kinds ws"
  "handler_kinds (ws\<lparr>ws_close := cch\<rparr>) = handler_kinds ws"
  "handler_kinds (ws\<lparr>ws_c := c\<rparr>) = handler_kinds ws"
  "handler_kinds (ws\<lparr>sy_app := a\<rparr>) = handler_kinds ws"
  "handler_kinds (set_queue q ch ws) = handler_kinds ws"
  "handler_kinds (ws\<lparr>ws_writeBufferChan := qch\<rparr>) = handler_kinds ws"
  "handler_kinds (ws\<lparr>ws_pingMessageBufferChan := qch\<rparr>) = handler_kinds ws"
  "handler_kinds (ws\<lparr>ws_pongMessageBufferChan := qch\<rparr>) = handler_kinds ws"
  "handler_kinds (ws\<lparr>ws_closeMessageBufferChan := qch\<rparr>) = handler_kinds ws"
  "handler_kinds (drop_write ws) = handler_kinds ws"
  by (rule handler_kinds_cong, simp)+

lemma adds_steps:
  "handler_kinds ws = hs \<Longrightarrow> adds_none (sleep d ws) hs"
  "handler_kinds ws = hs \<Longrightarrow> adds_none (c_Close ws) hs"
  "handler_kinds ws = hs \<Longrightarrow> adds_none (c_SetReadDeadline ws) hs"
  "handler_kinds ws = hs \<Longrightarrow> adds_none (c_WriteMessage env kd msg ws) hs"
  "handler_kinds ws = hs \<Longrightarrow> adds_none (call_error env s ws) hs"
  "handler_kinds ws = hs \<Longrightarrow> adds_none (call_proto env msg ws) hs"
  "handler_kinds ws = hs \<Longrightarrow> adds_none (connect env ws) hs"
  "handler_kinds ws = hs \<Longrightarrow> adds_none (release r ws) hs"
  unfolding sleep_def c_Close_def c_SetReadDeadline_def c_WriteMessage_def call_error_def call_proto_def
    connect_def release_def Let_def
  by (auto simp: handler_kinds_event split: option.split sum.split intro!: adds_turn adds_with_c)

lemma adds_handler: "adds (\<lambda>_. True) (c_SetHandler kind ws) (handler_kinds ws) [kind]"
  unfolding c_SetHandler_def by (intro adds_with_c) (simp_all add: handler_kinds_event)

lemma adds_send: "handler_kinds ws = hs \<Longrightarrow> adds_none (send_on q msg ws) hs"
  by (auto simp: send_on_def send_now_def split: sum.split option.split)

lemma adds_with_lock:
  "(\<And>ws. adds_none (body ws) (handler_kinds ws)) \<Longrightarrow> handler_kinds ws = hs \<Longrightarrow> adds_none (with_lock body ws) hs"
  unfolding with_lock_def acquire_def
proof (rule adds_none_bind)
  fix ws :: "('a, 'b, 'c) WsSys"
  assume "\<And>ws. adds_none (body ws) (handler_kinds ws)"
  then show "adds_none (run_bind (body ws) release) (handler_kinds ws)"
    by (rule adds_none_bind) (simp add: adds_steps)
qed simp

lemma adds_close_all: "handler_kinds ws = hs \<Longrightarrow> adds_none (close_all ws) hs"
  unfolding close_all_def send_close_def close_close_def close_queue_def
  by (auto split: sum.split option.split intro!: adds_none_bind adds_turn adds_steps)

lemma adds_CloseWs: "handler_kinds ws = hs \<Longrightarrow> adds_none (CloseWs ws) hs"
  unfolding CloseWs_def
  by (auto simp: Let_def split: prod.split intro!: adds_with_lock adds_turn adds_none_bind adds_close_all adds_steps)

text \<open>The three handlers, in their order.\<close>

definition frame_handlers :: "ws_kind list" where
  "frame_handlers = [CloseMessage, PongMessage, PingMessage]"

lemma adds_handler_bind:
  "(\<And>a ws. adds Q (f a ws) (handler_kinds ws) ys) \<Longrightarrow>
    adds Q (run_bind (c_SetHandler kind ws) f) (handler_kinds ws) (kind # ys)"
  using adds_bind [OF adds_handler, of Q f ys kind] by simp

lemma adds_install: "adds (\<lambda>l. l \<noteq> Some (Receiving False)) (install_handlers ws) (handler_kinds ws) frame_handlers"
  unfolding install_handlers_def frame_handlers_def by (intro adds_handler_bind) simp

section \<open>Iterations\<close>

text \<open>The hooks install no handlers.\<close>

locale ws_no_handlers =
  fixes env :: "('h, 'c, 'a) ws_env"
  assumes pre_adds: "handler_kinds ws = hs \<Longrightarrow> adds_none (we_pre env h n ws) hs"
    and post_adds: "handler_kinds ws = hs \<Longrightarrow> adds_none (we_post env h ws) hs"
begin

lemma adds_tries: "handler_kinds ws = hs \<Longrightarrow> adds_none (reconnect_tries env retries err ws) hs"
proof (induction retries arbitrary: err ws hs)
  case (Cons retry retries)
  show ?case
    using Cons pre_adds
    by (auto simp: pre_reconnect_def split: option.split intro!: adds_none_bind adds_steps)
qed simp

lemma adds_Reconnect: "handler_kinds ws = hs \<Longrightarrow> adds_none (Reconnect env ws) hs"
  unfolding Reconnect_eq reconnect_body_def reconnect_rest_def after_reconnect_def SendMessage_def
  using post_adds
  by (auto split: option.split intro!: adds_with_lock adds_turn adds_none_bind adds_tries adds_CloseWs adds_send adds_steps)

lemma adds_after_write:
  "handler_kinds ws = hs \<Longrightarrow> adds (\<lambda>l. l \<noteq> Some (Receiving False)) (after_write env armed err ws) hs []"
  by (auto simp: after_write_def split: option.split intro!: adds_none_bind adds_steps adds_Reconnect)

lemma adds_stream: "handler_kinds ws = hs \<Longrightarrow> adds_none (write_stream env data err ws) hs"
  by (induction data arbitrary: err ws hs) (auto intro!: adds_none_bind adds_steps)

lemma adds_write:
  assumes "write_iteration env sel err armed ws = Some r"
  shows "adds (\<lambda>l. l \<noteq> Some (Receiving False)) r (handler_kinds ws) []"
proof (cases sel)
  case Case_Close
  with assms show ?thesis by (auto simp: write_iteration_def)
next
  case (Case_Queue q)
  with assms show ?thesis
    by (auto simp: write_iteration_def intro!: adds_none_bind adds_after_write adds_steps)
next
  case Case_Timer
  with assms show ?thesis
    by (auto simp: write_iteration_def write_heartbeat_def split: if_splits option.split
        intro!: adds_none_bind adds_after_write adds_stream adds_steps)
qed

lemma adds_frames: "handler_kinds ws = hs \<Longrightarrow> adds_none (control_frames handled fs ws) hs"
  by (induction handled fs ws arbitrary: hs rule: control_frames.induct)
    (auto simp: SendPongMessage_def intro!: adds_none_bind adds_send adds_steps)

lemma adds_receive:
  "handler_kinds ws = hs \<Longrightarrow> adds (\<lambda>l. l \<noteq> Some (Receiving False)) (receive_iteration env True ws) hs []"
  by (auto simp: receive_iteration_def read_next_def read_failed_def handle_message_def
      split: option.split prod.split sum.split ws_kind.split
      intro!: adds_with_c adds_none_bind adds_frames adds_Reconnect adds_steps)

lemma adds_call: "handler_kinds ws = hs \<Longrightarrow> adds_none (call_run env c ws) hs"
  by (cases c)
    (auto simp: Subscribe_def WsClose_def write_closed_eq split: sum.split
      intro!: adds_turn adds_none_bind adds_send adds_CloseWs adds_Reconnect adds_steps)

lemma adds_iteration:
  assumes "iteration env act l ws = Some r"
  shows "adds (\<lambda>l. l \<noteq> Some (Receiving False)) r (handler_kinds ws) (if l = Receiving False then frame_handlers else [])"
  using assms
  by (cases "(env, act, l, ws)" rule: iteration.cases)
    (auto intro: adds_write intro!: adds_receive adds_none_bind adds_call
      simp: receive_iteration_def [of _ False] adds_install)

end

section \<open>The system\<close>

text \<open>\<open>owes hs g\<close>: the handlers \<open>hs\<close> are what goroutine \<open>g\<close> has still to install.\<close>

fun owes :: "ws_kind list \<Rightarrow> ('h, 'c, 'a) goroutine \<Rightarrow> bool" where
  "owes hs (At l) = (hs = (if l = Receiving False then frame_handlers else []))"
| "owes hs (Blocked wt k) =
     (\<forall>ws. ready wt ws \<longrightarrow> adds (\<lambda>l. l \<noteq> Some (Receiving False)) (k ws) (handler_kinds ws) hs)"
| "owes hs Gone = (hs = [])"

definition handlers_world :: "ws_kind list \<Rightarrow> ('h, 'c, 'a) ws_world \<Rightarrow> bool" where
  "handlers_world owed w \<longleftrightarrow>
     handler_kinds (wd_ws w) @ owed = frame_handlers \<and>
     owes owed (wd_threads w Reader) \<and> (\<forall>t. t \<noteq> Reader \<longrightarrow> owes [] (wd_threads w t))"

lemma handlers_owes: "handlers_world owed w \<Longrightarrow> owes (if t = Reader then owed else []) (wd_threads w t)"
  by (auto simp: handlers_world_def)

lemma handlers_start: "handler_kinds ws = [] \<Longrightarrow> handlers_world frame_handlers (start_world ws)"
  by (auto simp: handlers_world_def start_world_def split: thread.split)

lemma handlers_update:
  assumes "handlers_world owed w" and "handler_kinds ws @ hs = handler_kinds (wd_ws w) @ (if t = Reader then owed else [])"
    and "owes hs g" and "t \<noteq> Reader \<Longrightarrow> hs = []"
  shows "\<exists>owed. handlers_world owed (w\<lparr>wd_ws := ws, wd_threads := (wd_threads w)(t := g)\<rparr>)"
  using assms by (intro exI [of _ "if t = Reader then hs else owed"]) (auto simp: handlers_world_def)

lemma settle_handlers:
  assumes "handlers_world owed w"
    and "adds (\<lambda>l. l \<noteq> Some (Receiving False)) r (handler_kinds (wd_ws w)) (if t = Reader then owed else [])"
  shows "\<exists>owed. handlers_world owed (settle t r w)"
proof (cases r)
  case (Done l ws)
  with assms(2) show ?thesis
    unfolding settle_def Done run.case
    by (intro handlers_update [OF assms(1), where hs = "[]"]) (auto split: option.split)
next
  case (Crashed p)
  with assms(1) have "handlers_world owed (settle t r w)" by (simp add: handlers_world_def settle_def)
  then show ?thesis ..
next
  case (Stuck wt ws k)
  with assms(2) obtain now later where new: "(if t = Reader then owed else []) = now @ later"
    "handler_kinds ws = handler_kinds (wd_ws w) @ now"
    and k: "\<And>ws'. ready wt ws' \<Longrightarrow> adds (\<lambda>l. l \<noteq> Some (Receiving False)) (k ws') (handler_kinds ws') later"
    by auto
  show ?thesis
    unfolding settle_def Stuck run.case
    by (rule handlers_update [OF assms(1), where hs = later]) (use new k in \<open>auto split: if_splits\<close>)
qed

context ws_no_handlers
begin

lemma handlers_step:
  assumes "ws_step env w w'" and "handlers_world owed w"
  shows "\<exists>owed. handlers_world owed w'"
  using assms(1)
proof (cases rule: ws_step.cases)
  case (step_iterate t l act r)
  from handlers_owes [OF assms(2), of t]
  have "(if l = Receiving False then frame_handlers else []) = (if t = Reader then owed else [])"
    unfolding step_iterate(3) by simp
  with adds_iteration [OF step_iterate(4)] show ?thesis
    unfolding step_iterate(1) by (intro settle_handlers [OF assms(2)]) simp
next
  case (step_resume t wt k)
  from handlers_owes [OF assms(2), of t] step_resume(4) have
    "adds (\<lambda>l. l \<noteq> Some (Receiving False)) (k (wd_ws w)) (handler_kinds (wd_ws w)) (if t = Reader then owed else [])"
    unfolding step_resume(3) by (simp del: if_split)
  then show ?thesis
    unfolding step_resume(1) by (rule settle_handlers [OF assms(2)])
qed

lemma handlers_reachable:
  assumes "(ws_step env)\<^sup>*\<^sup>* (start_world ws) w" and "handler_kinds ws = []"
  shows "\<exists>owed. handlers_world owed w"
  using assms(1)
proof (induction rule: rtranclp_induct)
  case base
  show ?case using handlers_start [OF assms(2)] by blast
next
  case (step w w')
  then show ?case using handlers_step by blast
qed

end

text \<open>No handler is installed twice.\<close>

lemma handler_kinds_once:
  assumes "distinct (handler_kinds ws)" and "SetHandler c kind \<in> set (sy_events ws)"
    and "SetHandler c' kind \<in> set (sy_events ws)"
  shows "c = c'"
proof -
  have "distinct (concat (map (\<lambda>e. case e of SetHandler c kind \<Rightarrow> [kind] | _ \<Rightarrow> []) es)) \<Longrightarrow>
    SetHandler c kind \<in> set es \<Longrightarrow> SetHandler c' kind \<in> set es \<Longrightarrow> c = c'" for es
  proof (induction es)
    case (Cons e es)
    then show ?case by (auto split: ws_event.splits)
  qed simp
  with assms show ?thesis unfolding handler_kinds_def by blast
qed

end
