(* ===== verification/Ws_Full.thy ===== *)
theory Ws_Full
  imports Ws_Invariants
begin

text \<open>
  A full write channel. Its only reader is \<open>writeRequest\<close>, but for the probes of \<open>Close\<close> and
  \<open>Reconnect\<close>: when a goroutine that holds the mutex waits for room in it, and the writer
  waits for the mutex, nothing goes on.
\<close>

section \<open>Which goroutine does what\<close>

text \<open>\<open>ends Q r\<close>: however a run is resumed, its result is in \<open>Q\<close>.\<close>

primrec ends :: "('r \<Rightarrow> bool) \<Rightarrow> ('h, 'c, 'a, 'r) ws_run \<Rightarrow> bool" where
  "ends Q (Done r ws) = Q r"
| "ends Q (Crashed p) = True"
| "ends Q (Stuck wt ws k) = (\<forall>ws'. ends Q (k ws'))"

lemma ends_bind: "(\<And>a ws. ends Q (f a ws)) \<Longrightarrow> ends Q (run_bind r f)"
  by (induction r) auto

lemma ends_with_c: "(\<And>c ws. ends Q (f c ws)) \<Longrightarrow> ends Q (with_c f ws)"
  by (simp add: with_c_def turn_def split: option.split)

fun fits :: "thread \<Rightarrow> local \<Rightarrow> bool" where
  "fits Writer (Writing err armed) = True"
| "fits Reader (Receiving started) = True"
| "fits (Client i) Calling = True"
| "fits _ _ = False"

fun fits_goroutine :: "thread \<Rightarrow> ('h, 'c, 'a) goroutine \<Rightarrow> bool" where
  "fits_goroutine t (At l) = fits t l"
| "fits_goroutine t (Blocked wt k) = (\<forall>ws. ends (\<lambda>l. case l of None \<Rightarrow> True | Some l \<Rightarrow> fits t l) (k ws))"
| "fits_goroutine t Gone = True"

lemma iteration_fits:
  assumes "iteration env act l ws = Some r" and "fits t l"
  shows "ends (\<lambda>l. case l of None \<Rightarrow> True | Some l \<Rightarrow> fits t l) r"
  using assms
  by (cases "(env, act, l, ws)" rule: iteration.cases; cases t)
    (auto simp: write_iteration_def after_write_def receive_iteration_def install_handlers_def read_next_def
      read_failed_def split: write_select.splits if_splits option.split prod.split sum.split
      intro!: ends_bind ends_with_c)

lemma fits_reachable:
  assumes "(ws_step env)\<^sup>*\<^sup>* (start_world ws) w"
  shows "fits_goroutine t (wd_threads w t)"
  using assms
proof (induction arbitrary: t rule: rtranclp_induct)
  case base
  show ?case by (cases t) simp_all
next
  case (step w w')
  from step(2) obtain u r where go: "goes_on env w u r" and w': "w' = settle u r w" by (auto simp: ws_step_iff)
  have "ends (\<lambda>l. case l of None \<Rightarrow> True | Some l \<Rightarrow> fits u l) r"
    using go step.IH [of u] by (auto simp: goes_on_def split: goroutine.splits intro: iteration_fits)
  then have "wd_threads w' u = wd_threads w u \<or> fits_goroutine u (wd_threads w' u)"
    unfolding w' by (cases r) (auto simp: settle_def split: option.splits)
  moreover have "wd_threads w' t = wd_threads w t" if "t \<noteq> u"
    using that unfolding w' by (cases r) (auto simp: settle_def)
  ultimately show ?case using step.IH by metis
qed

section \<open>The full channel\<close>

definition write_full :: "('h, 'c, 'a) WsSys \<Rightarrow> bool" where
  "write_full ws \<longleftrightarrow> \<not> ch_closed (ws_writeBufferChan ws) \<and> ch_room (ws_writeBufferChan ws) = 0"

lemma write_full_queue: "q \<noteq> WriteQ \<Longrightarrow> write_full (set_queue q ch ws) = write_full ws"
  by (cases q) (simp_all add: write_full_def)

lemma full_send: "write_full ws \<Longrightarrow> chan_send msg (queue_of q ws) = Inr (Some ch) \<Longrightarrow> write_full (set_queue q ch ws)"
  by (cases "q = WriteQ") (auto simp: write_full_queue, simp add: write_full_def chan_send_def)

abbreviation full_mutex :: "thread option \<Rightarrow> ('h, 'c, 'a) ws_world \<Rightarrow> bool" where
  "full_mutex \<equiv> mutex (\<lambda>b ws. b \<longrightarrow> write_full ws)"

sublocale ws_hooks \<subseteq> filling: watched_client env "\<lambda>b ws. b \<longrightarrow> write_full ws"
  by unfold_locales (auto simp: write_full_queue full_send, (simp add: write_full_def event_def)+)

text \<open>No caller calls \<open>Close\<close>, whose probe takes a message from the channel.\<close>

abbreviation no_probe_step :: "('h, 'c, 'a) ws_env \<Rightarrow> ('h, 'c, 'a) ws_world \<Rightarrow> ('h, 'c, 'a) ws_world \<Rightarrow> bool" where
  "no_probe_step \<equiv> limited_step (\<lambda>c. c \<noteq> Call_Close)"

lemma limited_goes_on:
  assumes "limited_step allowed env w w'"
  obtains t r where "goes_on env w t r" and "w' = settle t r w"
    and "\<And>l. wd_threads w t = At l \<Longrightarrow> \<exists>act. permits allowed act \<and> iteration env act l (wd_ws w) = Some r"
  using assms
proof (cases rule: limited_step.cases)
  case (limited_iterate t l act r)
  then show ?thesis by (intro that [of t r]) (auto simp: goes_on_def)
next
  case (limited_resume t wt k)
  then show ?thesis by (intro that [of t "k (wd_ws w)"]) (auto simp: goes_on_def)
qed

context ws_hooks
begin

lemma full_mutex_step:
  assumes "no_probe_step env w w'" and "full_mutex holder w"
  shows "\<exists>holder'. full_mutex holder' w'"
proof -
  obtain t r where go: "goes_on env w t r" and w': "w' = settle t r w"
    and act: "\<And>l. wd_threads w t = At l \<Longrightarrow> \<exists>act. permits (\<lambda>c. c \<noteq> Call_Close) act \<and> iteration env act l (wd_ws w) = Some r"
    using limited_goes_on [OF assms(1)] by metis
  let ?v = "if holder = None then None else Some False"
  have v: "view_of (\<lambda>b ws. b \<longrightarrow> write_full ws) holder w ?v"
    using assms(2) by (auto simp: view_of_def mutex_def)
  show ?thesis
    unfolding w'
  proof (rule mutex_goes_on [OF assms(2) go v])
    fix l assume "wd_threads w t = At l"
    from act [OF this] obtain act where "permits (\<lambda>c. c \<noteq> Call_Close) act" "iteration env act l (wd_ws w) = Some r" by blast
    then show "disciplined (\<lambda>b ws. b \<longrightarrow> write_full ws) r ?v"
      using v by (intro filling.disciplined_iteration) (auto simp: view_of_def)
  qed
qed

lemma full_mutex_reachable:
  assumes "(no_probe_step env)\<^sup>*\<^sup>* (start_world ws) w" and "\<not> ws_lock ws"
  shows "\<exists>holder. full_mutex holder w"
  using assms(1)
proof (induction rule: rtranclp_induct)
  case base
  show ?case using mutex_start [OF assms(2)] by blast
next
  case (step w w')
  then show ?case using full_mutex_step by blast
qed

text \<open>The holder waits for room, the writer for the mutex.\<close>

lemma full_deadlock_step:
  assumes "no_probe_step env w w'" and "full_mutex (Some t) w" and "write_full (wd_ws w)"
    and "\<And>u. fits_goroutine u (wd_threads w u)"
    and "wd_threads w t = Blocked (On_Send WriteQ) k" and "wd_threads w Writer = Blocked On_Lock k'"
  shows "full_mutex (Some t) w' \<and> write_full (wd_ws w') \<and>
    wd_threads w' t = Blocked (On_Send WriteQ) k \<and> wd_threads w' Writer = Blocked On_Lock k'"
proof -
  obtain u r where go: "goes_on env w u r" and w': "w' = settle u r w"
    and act: "\<And>l. wd_threads w u = At l \<Longrightarrow> \<exists>act. permits (\<lambda>c. c \<noteq> Call_Close) act \<and> iteration env act l (wd_ws w) = Some r"
    using limited_goes_on [OF assms(1)] by metis
  have "u \<noteq> t" using go assms(3,5) by (auto simp: goes_on_def write_full_def)
  have "u \<noteq> Writer" using go assms(2,6) by (auto simp: goes_on_def mutex_def)
  have v: "view_of (\<lambda>b ws. b \<longrightarrow> write_full ws) (Some t) w (Some True)"
    using assms(2,3) by (simp add: view_of_def mutex_def)
  have "full_mutex (Some t) w' \<and> sees (\<lambda>b ws. b \<longrightarrow> write_full ws) (Some True) (wd_ws w')"
    unfolding w'
  proof (rule outside_goes_on [OF assms(2) \<open>u \<noteq> t\<close> go v])
    fix l assume l: "wd_threads w u = At l"
    from act [OF this] obtain act where act: "permits (\<lambda>c. c \<noteq> Call_Close) act" "iteration env act l (wd_ws w) = Some r" by blast
    have "fits u l" using assms(4) [of u] l by simp
    then have "act \<noteq> Write_Case sel" for sel
      using act(2) \<open>u \<noteq> Writer\<close> by (cases u; cases l) auto
    with act v show "disciplined (\<lambda>b ws. b \<longrightarrow> write_full ws) r (Some True)"
      by (intro filling.disciplined_iteration) (auto simp: view_of_def)
  qed
  moreover have "wd_threads w' t = wd_threads w t" "wd_threads w' Writer = wd_threads w Writer"
    using \<open>u \<noteq> t\<close> \<open>u \<noteq> Writer\<close> unfolding w' by (cases r; simp add: settle_def)+
  ultimately show ?thesis using assms(5,6) by simp
qed

lemma full_deadlock:
  assumes "(no_probe_step env)\<^sup>*\<^sup>* (start_world ws0) w" and "(no_probe_step env)\<^sup>*\<^sup>* w w'"
    and "full_mutex (Some t) w" and "write_full (wd_ws w)"
    and "wd_threads w t = Blocked (On_Send WriteQ) k" and "wd_threads w Writer = Blocked On_Lock k'"
  shows "full_mutex (Some t) w' \<and> write_full (wd_ws w') \<and>
    wd_threads w' t = Blocked (On_Send WriteQ) k \<and> wd_threads w' Writer = Blocked On_Lock k'"
  using assms(2)
proof (induction rule: rtranclp_induct)
  case base
  then show ?case using assms(3-6) by simp
next
  case (step w1 w2)
  have "fits_goroutine u (wd_threads w1 u)" for u
    using limited_are_steps [OF assms(1)] limited_are_steps [OF step(1)]
    by (intro fits_reachable [of env ws0]) (rule rtranclp_trans)
  with step.IH full_deadlock_step [OF step(2)] show ?case by blast
qed

end

end
