(* ===== verification/Node_Ws.thy ===== *)
theory Node_Ws
  imports Ws_Calm Ws_Handlers Ws_Full Node_Client Json_Print
begin

text \<open>
  \<open>EstablishConn\<close>, \<open>SubPendingTx\<close> and \<open>SubBlockHeader\<close> of \<open>core/node_ws.go\<close>: the raw
  websocket subscriptions of a node client. The function values \<open>EstablishConn\<close> passes to
  the builder are the two message handlers and the closure that subscribes again after a
  reconnect; the application state of the connection is the node client.
\<close>

section \<open>\<open>json.Marshal\<close> of a request\<close>

text \<open>
  An integral number is printed without a fraction; \<open>fmt\<close> is the decimal format of the
  other finite numbers.
\<close>

fun number_json :: "(f64 \<Rightarrow> string) \<Rightarrow> f64 \<Rightarrow> string + string" where
  "number_json fmt (Fin s m e) =
     (if \<not> (s \<and> m = 0) \<and> (0 \<le> e \<or> 2 ^ nat (- e) dvd m) \<and> e \<le> 0
      then (case f64_trunc (Fin s m e) of Some v \<Rightarrow> Inr (go_itoa v) | None \<Rightarrow> Inr (fmt (Fin s m e)))
      else Inr (fmt (Fin s m e)))"
| "number_json fmt _ = Inl ''json: unsupported value''"

definition wsRequest_json :: "string \<Rightarrow> wsRequest \<Rightarrow> json" where
  "wsRequest_json num r =
     JObj [(''id'', JNum (go_itoa (sint (wr_Id r)))), (''jsonrpc'', JNum num),
       (''method'', JStr (wr_Method r)), (''params'', JArr (map JStr (wr_Params r)))]"

definition marshal_wsRequest :: "(f64 \<Rightarrow> string) \<Rightarrow> wsRequest \<Rightarrow> string + bytes" where
  "marshal_wsRequest fmt r =
     (case number_json fmt (wr_JsonRpc r) of
        Inl err \<Rightarrow> Inl err
      | Inr num \<Rightarrow> Inr (json_print (wsRequest_json num r)))"

section \<open>The environment of the node's connections\<close>

datatype ws_closure = HeadsHandler_of | PendingTxHandler_of | Resubscribe wsRequest

fun node_proto ::
    "ws_closure \<Rightarrow> bytes \<Rightarrow> 'n NodeClient \<Rightarrow> 'n NodeClient \<times> string option" where
  "node_proto HeadsHandler_of msg n =
     (let (n', err) = HeadsHandler msg n in (n', if err then Some (''json unmarshal data err: '' @ msg) else None))"
| "node_proto PendingTxHandler_of msg n =
     (let (n', err) = PendingTxHandler msg n in (n', if err then Some ''json unmarshal data err'' else None))"
| "node_proto (Resubscribe req) msg n = (n, None)"

fun node_post ::
    "(f64 \<Rightarrow> string) \<Rightarrow> ws_closure \<Rightarrow> (ws_closure, 'c, 'a) WsSys \<Rightarrow> (ws_closure, 'c, 'a, string option) ws_run" where
  "node_post fmt (Resubscribe subScribe) ws = Subscribe (marshal_wsRequest fmt subScribe) ws"
| "node_post fmt _ ws = Done None ws"

text \<open>
  What is not under the program's control: the number format, the resolver,
  the URL parser and the network. The fields no connection of the node uses are inert.
\<close>

record 'c network =
  nw_fmt :: "f64 \<Rightarrow> string"
  nw_resolve :: "string \<Rightarrow> string option"
  nw_parse :: "string \<Rightarrow> string option"
  nw_dial :: "'c ws_event list \<Rightarrow> Dialer \<Rightarrow> string \<Rightarrow> (string \<rightharpoonup> string list) \<Rightarrow> string + 'c"
  nw_write :: "'c ws_event list \<Rightarrow> 'c \<Rightarrow> ws_kind \<Rightarrow> bytes \<Rightarrow> string option"
  nw_read :: "'c ws_event list \<Rightarrow> 'c \<Rightarrow> control_frame list \<times> (string + ws_kind \<times> bytes)"

definition node_env :: "'c network \<Rightarrow> (ws_closure, 'c, 'n NodeClient) ws_env" where
  "node_env nw = \<lparr> we_resolve = nw_resolve nw, we_parse = nw_parse nw, we_dial = nw_dial nw,
     we_write = nw_write nw, we_read = nw_read nw, we_data = (\<lambda>_ _. []), we_stream = (\<lambda>_ _. []),
     we_proto = node_proto, we_decompress = (\<lambda>_. Inr), we_error = (\<lambda>_ _ a. a),
     we_pre = (\<lambda>_ _. Done None), we_post = node_post (nw_fmt nw) \<rparr>"

section \<open>\<open>EstablishConn\<close>\<close>

definition establish_builder :: "string \<Rightarrow> string \<Rightarrow> wsRequest \<Rightarrow> ws_closure \<Rightarrow> ws_closure WsConfig" where
  "establish_builder proxyUrl wsUrl subScribe handler =
     PostReconnectSuccess (Some (Resubscribe subScribe))
       (AutoReconnect
         (ProtoHandleFunc (Some handler)
           (WsUrl wsUrl
             (ProxyUrl proxyUrl
               (NewWsBuilderWithReadTimeout (5000 * Millisecond))))))"

text \<open>The returned error; the state is the connection, also when it is dropped.\<close>

definition EstablishConn ::
    "'c network \<Rightarrow> string \<Rightarrow> 'n NodeClient \<Rightarrow> wsRequest \<Rightarrow> ws_closure
      \<Rightarrow> (ws_closure, 'c, 'n NodeClient, string option) ws_run" where
  "EstablishConn nw proxyUrl n subScribe handler =
     run_bind (Build (node_env nw) (establish_builder proxyUrl (nc_WsUrl n) subScribe handler) [] n) (\<lambda>built ws.
       if \<not> built then Done (Some ''build websocket connection error'') ws
       else run_bind (Subscribe (marshal_wsRequest (nw_fmt nw) subScribe) ws) (\<lambda>err ws. Done err ws))"

definition pending_request :: wsRequest where
  "pending_request = \<lparr> wr_Id = 1, wr_JsonRpc = f64_of_nat 2, wr_Method = ''eth_subscribe'',
     wr_Params = [''newPendingTransactions'', ''true''] \<rparr>"

definition heads_request :: wsRequest where
  "heads_request = \<lparr> wr_Id = 2, wr_JsonRpc = f64_of_nat 2, wr_Method = ''eth_subscribe'',
     wr_Params = [''newHeads''] \<rparr>"

text \<open>Both only log the error.\<close>

definition SubPendingTx ::
    "'c network \<Rightarrow> string \<Rightarrow> 'n NodeClient \<Rightarrow> (ws_closure, 'c, 'n NodeClient, unit) ws_run" where
  "SubPendingTx nw proxyUrl n =
     run_bind (EstablishConn nw proxyUrl n pending_request PendingTxHandler_of) (\<lambda>_ ws. Done () ws)"

definition SubBlockHeader ::
    "'c network \<Rightarrow> string \<Rightarrow> 'n NodeClient \<Rightarrow> (ws_closure, 'c, 'n NodeClient, unit) ws_run" where
  "SubBlockHeader nw proxyUrl n =
     run_bind (EstablishConn nw proxyUrl n heads_request HeadsHandler_of) (\<lambda>_ ws. Done () ws)"

text \<open>The text of the two requests.\<close>

lemma two_f64: "f64_of_nat 2 = Fin False (2 ^ 52) (-51)"
  by (simp add: f64_of_nat_def f64_eval)

lemma json_two: "number_json fmt (f64_of_nat 2) = Inr ''2''"
  by (simp add: two_f64 go_itoa_def nat_digits.simps digit_char_def char_of_eq_iff)

lemma itoa_small: "go_itoa 1 = ''1''" "go_itoa 2 = ''2''"
  by (simp_all add: go_itoa_def nat_digits.simps digit_char_def char_of_eq_iff)

lemma marshal_pending:
  "marshal_wsRequest fmt pending_request =
     Inr ''{\"id\":1,\"jsonrpc\":2,\"method\":\"eth_subscribe\",\"params\":[\"newPendingTransactions\",\"true\"]}''"
  by (simp add: marshal_wsRequest_def pending_request_def json_two itoa_small wsRequest_json_def quote_json_def quote_body.simps json_char_def code_def)

lemma marshal_heads:
  "marshal_wsRequest fmt heads_request =
     Inr ''{\"id\":2,\"jsonrpc\":2,\"method\":\"eth_subscribe\",\"params\":[\"newHeads\"]}''"
  by (simp add: marshal_wsRequest_def heads_request_def json_two itoa_small wsRequest_json_def quote_json_def quote_body.simps json_char_def code_def)

text \<open>A request's document is one the reader takes, and it decodes to the request.\<close>

lemma wsRequest_printable:
  assumes "valid_number num" and "to_valid (wr_Method r) = wr_Method r"
    and "list_all (\<lambda>p. to_valid p = p) (wr_Params r)"
  shows "printable max_depth (wsRequest_json num r)"
proof (rule printable_mono(1))
  have "list_all (\<lambda>p. to_valid p = p) ps \<Longrightarrow> printable_list d (map JStr ps)" for d ps
    by (induction ps) auto
  with assms show "printable (Suc (Suc 0)) (wsRequest_json num r)"
    by (simp add: wsRequest_json_def valid_itoa to_valid_ascii code_def)
  show "Suc (Suc 0) \<le> max_depth" by (simp add: max_depth_def)
qed

lemma wsRequest_decodes:
  assumes "parse_f64 num = Some (wr_JsonRpc r)"
  shows "unmarshal_wsRequest (wsRequest_json num r) = Some r"
proof -
  have f: "find_field wsRequest_fields ''id'' = Some (dec_int64 wr_Id_update)"
    "find_field wsRequest_fields ''jsonrpc'' = Some (dec_f64 wr_JsonRpc_update)"
    "find_field wsRequest_fields ''method'' = Some (dec_string wr_Method_update)"
    "find_field wsRequest_fields ''params'' = Some (dec_slice (elem_or_zero [] json_string) wr_Params_update)"
    by (rule find_field_exact, simp add: wsRequest_fields_def)+
  have id: "parse_int64 (go_itoa (sint (wr_Id r))) = Some (wr_Id r)"
    using sint_ge [of "wr_Id r"] sint_lt [of "wr_Id r"]
    by (subst parse_int64_itoa) (simp_all add: int64_range_def)
  have ps: "those (map (elem_or_zero [] json_string) (map JStr ps)) = Some ps" for ps
    by (induction ps) (simp_all add: elem_or_zero_def)
  show ?thesis
    by (simp add: unmarshal_wsRequest_def wsRequest_json_def f dec_prim_def dec_slice_def id assms ps
        zero_wsRequest_def del: map_map)
qed

lemma parse_two: "parse_f64 ''2'' = Some (f64_of_nat 2)"
proof -
  have "parse_float_text ''2'' = Some (False, 2, 0)"
    by (simp add: parse_float_text_def parse_exp_def is_digit_def digits_value_def Let_def)
  moreover have "f64_of_decimal False 2 0 = f64_of_nat 2"
    by (simp add: f64_of_decimal_def f64_of_nat_def)
  ultimately show ?thesis by (simp add: parse_f64_def Let_def two_f64)
qed

section \<open>The node's hooks\<close>

interpretation node: ws_frozen_hooks "node_env nw" for nw
proof unfold_locales
  fix h n and ws :: "(ws_closure, 'a, 'b NodeClient) WsSys" and cfg
  show "ws_lock ws \<Longrightarrow> stays ready ws_lock (we_pre (node_env nw) h n ws)"
    by (simp add: node_env_def)
  show "ws_ok cfg ws \<Longrightarrow> stays ready (ws_ok cfg) (we_pre (node_env nw) h n ws)"
    by (simp add: node_env_def)
  show "ws_lock ws \<Longrightarrow> stays ready ws_lock (we_post (node_env nw) h ws)"
    by (cases h) (auto simp: node_env_def Subscribe_def split: sum.splits intro!: stays_bind)
  show "ws_ok cfg ws \<Longrightarrow> stays ready (ws_ok cfg) (we_post (node_env nw) h ws)"
    by (cases h) (auto simp: node_env_def Subscribe_def split: sum.splits intro!: stays_bind)
qed

text \<open>The hooks of a connection of the node neither panic nor close a channel.\<close>

interpretation calm_node: ws_calm_hooks "node_env nw" "establish_builder proxyUrl wsUrl subScribe (handler :: ws_closure)"
  for nw proxyUrl wsUrl subScribe handler
proof unfold_locales
  let ?cfg = "establish_builder proxyUrl wsUrl subScribe handler"
  show "wc_BindAddr ?cfg = []" "wc_ProtoHandleFunc ?cfg \<noteq> None"
    by (simp_all add: establish_builder_def ws_builder_defs)
  fix h n and ws :: "(ws_closure, 'a, 'b NodeClient) WsSys"
  show "holding ?cfg ws \<Longrightarrow> survives (holding ?cfg) (we_pre (node_env nw) h n ws)"
    by (simp add: node_env_def)
  show "holding ?cfg ws \<Longrightarrow> survives (holding ?cfg) (we_post (node_env nw) h ws)"
    by (cases h) (auto simp: node_env_def Subscribe_def split: sum.splits intro!: survives_bind holding_send)
qed

text \<open>Nor do they install handlers.\<close>

interpretation handlers_node: ws_no_handlers "node_env nw" for nw
proof unfold_locales
  fix h n hs and ws :: "(ws_closure, 'a, 'b NodeClient) WsSys"
  show "handler_kinds ws = hs \<Longrightarrow> adds_none (we_pre (node_env nw) h n ws) hs"
    by (simp add: node_env_def)
  show "handler_kinds ws = hs \<Longrightarrow> adds_none (we_post (node_env nw) h ws) hs"
    by (cases h) (auto simp: node_env_def Subscribe_def split: sum.split intro!: adds_none_bind adds_send)
qed

end
