(* ===== verification/Ws_Properties.thy ===== *)
theory Ws_Properties
  imports Node_Ws
begin

text \<open>The properties of the raw websocket client.\<close>

section \<open>Establishing a connection\<close>

definition node_dialer :: "'c network \<Rightarrow> string \<Rightarrow> Dialer" where
  "node_dialer nw proxyUrl =
     \<lparr> dl_Proxy = (case if proxyUrl = [] then None else nw_parse nw proxyUrl of
          None \<Rightarrow> ProxyFromEnvironment | Some p \<Rightarrow> ProxyURL p),
       dl_HandshakeTimeout = 30 * Second, dl_LocalAddr = None, dl_EnableCompression = False \<rparr>"

lemma node_env_simps [simp]:
  "we_resolve (node_env nw) = nw_resolve nw" "we_parse (node_env nw) = nw_parse nw"
  "we_dial (node_env nw) = nw_dial nw" "we_write (node_env nw) = nw_write nw"
  "we_read (node_env nw) = nw_read nw" "we_post (node_env nw) = node_post (nw_fmt nw)"
  by (simp_all add: node_env_def)

lemma establish_builder_simps [simp]:
  "wc_WsUrl (establish_builder p u r h) = u" "wc_ProxyUrl (establish_builder p u r h) = p"
  "wc_BindAddr (establish_builder p u r h) = []" "wc_ReqHeaders (establish_builder p u r h) = Map.empty"
  "wc_IsAutoReconnect (establish_builder p u r h)" "wc_PreReconnectHook (establish_builder p u r h) = None"
  "wc_CustomSub (establish_builder p u r h) = None"
  "wc_PostReconnectSuccessHook (establish_builder p u r h) = Some (Resubscribe r)"
  "wc_readDeadLineTime (establish_builder p u r h) = 5 * Second"
  "wc_reconnectInterval (establish_builder p u r h) = 10 * Second"
  "wc_HeartbeatIntervalTime (establish_builder p u r h) = 0"
  "wc_ProtoHandleFunc (establish_builder p u r h) = Some h" "wc_DecompressFunc (establish_builder p u r h) = None"
  "wc_errMsg (establish_builder p u r h) = []"
  by (simp_all add: establish_builder_def ws_builder_defs Second_def Millisecond_def)

lemma truncate_bare: "WsConfig.truncate (bare_conn cfg ev app) = cfg"
  by (simp add: WsConfig.truncate_def bare_conn_def)

text \<open>The fields of the configuration, read off a connection that has it.\<close>

lemma truncate_fields:
  assumes "WsConfig.truncate ws = cfg"
  shows "wc_WsUrl ws = wc_WsUrl cfg" "wc_ProxyUrl ws = wc_ProxyUrl cfg" "wc_BindAddr ws = wc_BindAddr cfg"
    "wc_ReqHeaders ws = wc_ReqHeaders cfg" "wc_IsAutoReconnect ws = wc_IsAutoReconnect cfg"
    "wc_PreReconnectHook ws = wc_PreReconnectHook cfg" "wc_CustomSub ws = wc_CustomSub cfg"
    "wc_PostReconnectSuccessHook ws = wc_PostReconnectSuccessHook cfg"
    "wc_readDeadLineTime ws = wc_readDeadLineTime cfg" "wc_reconnectInterval ws = wc_reconnectInterval cfg"
    "wc_HeartbeatIntervalTime ws = wc_HeartbeatIntervalTime cfg"
    "wc_ProtoHandleFunc ws = wc_ProtoHandleFunc cfg" "wc_DecompressFunc ws = wc_DecompressFunc cfg"
    "wc_errMsg ws = wc_errMsg cfg"
  using assms by (auto simp: WsConfig.truncate_def)

lemma all_ws_queue: "(\<forall>q. P q) \<longleftrightarrow> P WriteQ \<and> P PingQ \<and> P PongQ \<and> P CloseQ"
  by (metis ws_queue.exhaust)

definition node_ws :: "string \<Rightarrow> 'n NodeClient \<Rightarrow> wsRequest \<Rightarrow> ws_closure \<Rightarrow> (ws_closure, 'c, 'n NodeClient) WsSys \<Rightarrow> bool" where
  "node_ws proxyUrl n req handler = ws_ok (establish_builder proxyUrl (nc_WsUrl n) req handler)"

lemma node_ws_config:
  assumes "node_ws proxyUrl n req handler ws"
  shows "ws_dialer (node_env nw) ws = Inr (node_dialer nw proxyUrl)"
    "wc_PreReconnectHook ws = None" "wc_CustomSub ws = None" "wc_PostReconnectSuccessHook ws = Some (Resubscribe req)"
    "wc_IsAutoReconnect ws" "wc_reconnectInterval ws = 10 * Second" "wc_readDeadLineTime ws = 5 * Second"
    "wc_WsUrl ws = nc_WsUrl n" "wc_ReqHeaders ws = Map.empty"
    "wc_ProtoHandleFunc ws = Some handler" "wc_DecompressFunc ws = None" "wc_errMsg ws = []"
proof -
  have "WsConfig.truncate ws = establish_builder proxyUrl (nc_WsUrl n) req handler"
    using assms by (simp add: node_ws_def ws_ok_def)
  note f = truncate_fields [OF this]
  show "ws_dialer (node_env nw) ws = Inr (node_dialer nw proxyUrl)"
    by (simp add: ws_dialer_eq f node_dialer_def)
  show "wc_PreReconnectHook ws = None" "wc_CustomSub ws = None"
    "wc_PostReconnectSuccessHook ws = Some (Resubscribe req)" "wc_IsAutoReconnect ws"
    "wc_reconnectInterval ws = 10 * Second" "wc_readDeadLineTime ws = 5 * Second"
    "wc_WsUrl ws = nc_WsUrl n" "wc_ReqHeaders ws = Map.empty"
    "wc_ProtoHandleFunc ws = Some handler" "wc_DecompressFunc ws = None" "wc_errMsg ws = []"
    by (simp_all add: f)
qed

text \<open>
  Building a connection of the node. Nobody else has the object before \<open>NewWs\<close> starts the
  goroutines, so it runs alone; \<open>start_world\<close> of the connection is then where the goroutines
  and the rest of \<open>EstablishConn\<close>, which is a caller of \<open>Subscribe\<close>, begin.
\<close>

abbreviation build_node ::
    "'c network \<Rightarrow> string \<Rightarrow> 'n NodeClient \<Rightarrow> wsRequest \<Rightarrow> ws_closure \<Rightarrow> (ws_closure, 'c, 'n NodeClient, bool) ws_run" where
  "build_node nw proxyUrl n req handler \<equiv>
     Build (node_env nw) (establish_builder proxyUrl (nc_WsUrl n) req handler) [] n"

lemma build_node_cases:
  "case nw_dial nw [] (node_dialer nw proxyUrl) (nc_WsUrl n) Map.empty of
      Inl err \<Rightarrow> \<exists>ws. alone (build_node nw proxyUrl n req handler) = Done False ws \<and> ws_c ws = None \<and> sy_app ws = n
    | Inr c \<Rightarrow> \<exists>ws. alone (build_node nw proxyUrl n req handler) = Done True ws \<and> ws_c ws = Some c \<and>
        node_ws proxyUrl n req handler ws \<and> \<not> ws_lock ws \<and> all_open ws \<and> sy_app ws = n \<and>
        (\<forall>q. ch_queue (queue_of q ws) = [] \<and> ch_room (queue_of q ws) = 10) \<and>
        ch_queue (ws_close ws) = [] \<and> ch_room (ws_close ws) = 1 \<and>
        sy_events ws = [Dialled c, ReadDeadline c (5 * Second)]"
proof -
  let ?b = "bare_conn (establish_builder proxyUrl (nc_WsUrl n) req handler) [] n :: (ws_closure, 'a, 'b NodeClient) WsSys"
  note f = truncate_fields [OF truncate_bare, of "establish_builder proxyUrl (nc_WsUrl n) req handler" "[]" n]
  have adjust: "adjust_deadline ?b = ?b"
    by (simp add: adjust_deadline_def f Second_def word_sless_alt)
  have dialer: "ws_dialer (node_env nw) ?b = Inr (node_dialer nw proxyUrl)"
    by (simp add: ws_dialer_eq f node_dialer_def)
  have e: "sy_events ?b = []" "sy_app ?b = n" "ws_c ?b = None" by (simp_all add: bare_conn_def)
  show ?thesis
  proof (cases "nw_dial nw [] (node_dialer nw proxyUrl) (nc_WsUrl n) Map.empty")
    case (Inl err)
    then show ?thesis
      using e by (simp add: Build_def NewWs_def adjust connect_def dialer f event_def)
  next
    case (Inr c)
    then show ?thesis
      using e
      by (simp add: Build_def NewWs_def adjust connect_def dialer f event_def make_chan_def all_open_queues node_ws_def
          all_ws_queue)
        (simp add: ws_ok_def all_ws_queue capacity_def bare_conn_def WsConfig.truncate_def establish_builder_def ws_builder_defs)
  qed
qed

lemma build_node_success:
  assumes "alone (build_node nw proxyUrl n req handler) = Done True ws"
  shows "node_ws proxyUrl n req handler ws" "\<not> ws_lock ws" "all_open ws"
  using build_node_cases [of nw proxyUrl n req handler] assms by (auto split: sum.splits)

text \<open>
  \<open>EstablishConn\<close> dials once, with the configured proxy and without compression, and
  queues the request on the new connection.
\<close>

lemma establish_conn_cases:
  assumes "marshal_wsRequest (nw_fmt nw) req = Inr text"
  shows "case nw_dial nw [] (node_dialer nw proxyUrl) (nc_WsUrl n) Map.empty of
      Inl err \<Rightarrow> \<exists>ws. alone (EstablishConn nw proxyUrl n req handler) = Done (Some ''build websocket connection error'') ws \<and>
        ws_c ws = None \<and> sy_app ws = n
    | Inr c \<Rightarrow> \<exists>ws. alone (EstablishConn nw proxyUrl n req handler) = Done None ws \<and> ws_c ws = Some c \<and>
        node_ws proxyUrl n req handler ws \<and> \<not> ws_lock ws \<and> all_open ws \<and> sy_app ws = n \<and>
        ch_queue (ws_writeBufferChan ws) = [text] \<and> ch_queue (ws_close ws) = [] \<and> ch_room (ws_close ws) = 1 \<and>
        sy_events ws = [Dialled c, ReadDeadline c (5 * Second)]"
proof (cases "nw_dial nw [] (node_dialer nw proxyUrl) (nc_WsUrl n) Map.empty")
  case (Inl err)
  with build_node_cases [of nw proxyUrl n req handler] show ?thesis by (auto simp: EstablishConn_def)
next
  case (Inr c)
  with build_node_cases [of nw proxyUrl n req handler] obtain ws where
    b: "alone (build_node nw proxyUrl n req handler) = Done True ws" and
    ws: "ws_c ws = Some c" "node_ws proxyUrl n req handler ws" "\<not> ws_lock ws" "all_open ws" "sy_app ws = n"
      "\<forall>q. ch_queue (queue_of q ws) = [] \<and> ch_room (queue_of q ws) = 10" "ch_queue (ws_close ws) = []"
      "ch_room (ws_close ws) = 1" "sy_events ws = [Dialled c, ReadDeadline c (5 * Second)]" by auto
  let ?q = "\<lparr>ch_queue = [text], ch_room = 9, ch_closed = False\<rparr>"
  have "alone (send_on WriteQ text ws) = Done () (set_queue WriteQ ?q ws)"
    using alone_send_room [of WriteQ ws 9 "text"] ws(4,6) by (simp add: all_ws_queue all_open_queues)
  then have "alone (EstablishConn nw proxyUrl n req handler) = Done None (ws\<lparr>ws_writeBufferChan := ?q\<rparr>)"
    using b assms by (simp add: EstablishConn_def Subscribe_def)
  moreover have "node_ws proxyUrl n req handler (set_queue WriteQ ?q ws)"
    using ws(2) unfolding node_ws_def by (rule ws_ok_update) (simp add: capacity_def)
  ultimately show ?thesis using Inr ws by (simp add: all_open_queues)
qed

text \<open>The configuration of a connection never changes, and its channels keep their bounds.\<close>

lemma node_ws_reachable:
  assumes "alone (build_node nw proxyUrl n req handler) = Done True ws0"
    and "(ws_step (node_env nw))\<^sup>*\<^sup>* (start_world ws0) w"
  shows "node_ws proxyUrl n req handler (wd_ws w)"
  using node.ok.reachable [OF assms(2)] build_node_success(1) [OF assms(1)] unfolding node_ws_def by blast

text \<open>
  A network for the concrete runs below: it accepts a dial after the histories \<open>ok\<close>, accepts
  every write, and every read times out.
\<close>

definition sample_network :: "(nat ws_event list \<Rightarrow> bool) \<Rightarrow> nat network" where
  "sample_network ok = \<lparr> nw_fmt = (\<lambda>_. []), nw_resolve = (\<lambda>_. None), nw_parse = (\<lambda>_. None),
     nw_dial = (\<lambda>ev _ _ _. if ok ev then Inr (length ev) else Inl ''refused''),
     nw_write = (\<lambda>_ _ _ _. None), nw_read = (\<lambda>_ _. ([], Inl ''timeout'')) \<rparr>"

lemma sample_network_simps [simp]:
  "nw_dial (sample_network ok) ev d u hs = (if ok ev then Inr (length ev) else Inl ''refused'')"
  "nw_read (sample_network ok) ev c = ([], Inl ''timeout'')"
  by (simp_all add: sample_network_def)

definition heads_text :: string where
  "heads_text = ''{\"id\":2,\"jsonrpc\":2,\"method\":\"eth_subscribe\",\"params\":[\"newHeads\"]}''"

lemma sample_established:
  assumes "ok []"
  obtains ws where "alone (EstablishConn (sample_network ok) [] sample_client heads_request HeadsHandler_of) = Done None ws"
    and "ws_c ws = Some 0" and "node_ws [] sample_client heads_request HeadsHandler_of ws" and "\<not> ws_lock ws"
    and "all_open ws" and "ch_queue (ws_writeBufferChan ws) = [heads_text]" and "ch_queue (ws_close ws) = []"
    and "ch_room (ws_close ws) = 1" and "sy_events ws = [Dialled 0, ReadDeadline 0 (5 * Second)]"
proof -
  have "nw_dial (sample_network ok) [] d u hs = Inr 0" for d u hs
    using assms by simp
  with establish_conn_cases [OF marshal_heads, of "sample_network ok" "[]" sample_client HeadsHandler_of]
  show ?thesis using that by (auto simp: heads_text_def)
qed

text \<open>The built connection, when the goroutines start.\<close>

lemma sample_built:
  assumes "\<And>d u hs. nw_dial nw [] d u hs = Inr 0"
  obtains ws where "alone (build_node nw [] sample_client heads_request HeadsHandler_of) = Done True ws"
    and "ws_c ws = Some 0" and "node_ws [] sample_client heads_request HeadsHandler_of ws" and "\<not> ws_lock ws"
    and "all_open ws" and "\<forall>q. ch_queue (queue_of q ws) = [] \<and> ch_room (queue_of q ws) = 10" and "ch_queue (ws_close ws) = []"
    and "sy_events ws = [Dialled 0, ReadDeadline 0 (5 * Second)]"
  using assms build_node_cases [of nw "[]" sample_client heads_request HeadsHandler_of] by auto

text \<open>
  The encoder of requests against the decoder: for a request whose method and parameters
  are UTF-8 and whose version number's text reads as that number, the text \<open>Subscribe\<close> sends
  decodes to the request itself.
\<close>

lemma request_text_decodes:
  assumes "number_json fmt (wr_JsonRpc r) = Inr num" and "valid_number num"
    and "parse_f64 num = Some (wr_JsonRpc r)"
    and "to_valid (wr_Method r) = wr_Method r" and "list_all (\<lambda>p. to_valid p = p) (wr_Params r)"
  shows "\<exists>bytes. marshal_wsRequest fmt r = Inr bytes \<and> Option.bind (json_parse bytes) unmarshal_wsRequest = Some r"
proof -
  have "json_parse (json_print (wsRequest_json num r)) = Some (wsRequest_json num r)"
    by (rule json_parse_print) (rule wsRequest_printable [OF assms(2,4,5)])
  with assms(1) show ?thesis
    by (simp add: marshal_wsRequest_def wsRequest_decodes [OF assms(3)])
qed

text \<open>
  C26: subscribing to pending transactions and to block headers dials once, with the
  configured proxy and without compression. When the dial fails there is no connection and
  the caller is not told; otherwise the request is the only message queued on the new
  connection, whose read deadline is five seconds. Its \<open>jsonrpc\<close> member is the number 2.
\<close>

theorem subscriptions_outcome:
  "case nw_dial nw [] (node_dialer nw proxyUrl) (nc_WsUrl n) Map.empty of
      Inl err \<Rightarrow> (\<exists>ws. alone (SubPendingTx nw proxyUrl n) = Done () ws \<and> ws_c ws = None \<and> sy_app ws = n) \<and>
        (\<exists>ws. alone (SubBlockHeader nw proxyUrl n) = Done () ws \<and> ws_c ws = None \<and> sy_app ws = n)
    | Inr c \<Rightarrow>
        (\<exists>ws. alone (SubPendingTx nw proxyUrl n) = Done () ws \<and> ws_c ws = Some c \<and> sy_app ws = n \<and> all_open ws \<and>
          ch_queue (ws_writeBufferChan ws) = [''{\"id\":1,\"jsonrpc\":2,\"method\":\"eth_subscribe\",\"params\":[\"newPendingTransactions\",\"true\"]}''] \<and>
          sy_events ws = [Dialled c, ReadDeadline c (5 * Second)]) \<and>
        (\<exists>ws. alone (SubBlockHeader nw proxyUrl n) = Done () ws \<and> ws_c ws = Some c \<and> sy_app ws = n \<and> all_open ws \<and>
          ch_queue (ws_writeBufferChan ws) = [''{\"id\":2,\"jsonrpc\":2,\"method\":\"eth_subscribe\",\"params\":[\"newHeads\"]}''] \<and>
          sy_events ws = [Dialled c, ReadDeadline c (5 * Second)])"
  using establish_conn_cases [OF marshal_pending, of nw proxyUrl n PendingTxHandler_of]
    establish_conn_cases [OF marshal_heads, of nw proxyUrl n HeadsHandler_of]
  by (auto simp: SubPendingTx_def SubBlockHeader_def split: sum.splits)

text \<open>
  In every state the goroutines of a client and its callers can reach, the message
  channels hold at most ten messages each and \<open>close\<close> at most one, and the configuration is
  the one \<open>EstablishConn\<close> built.
\<close>

lemma channels_bounded:
  assumes "alone (build_node nw proxyUrl n req handler) = Done True ws0"
    and "(ws_step (node_env nw))\<^sup>*\<^sup>* (start_world ws0) w"
  shows "length (ch_queue (queue_of q (wd_ws w))) \<le> 10 \<and> length (ch_queue (ws_close (wd_ws w))) \<le> 1 \<and>
    WsConfig.truncate (wd_ws w) = establish_builder proxyUrl (nc_WsUrl n) req handler"
proof -
  note ok = node_ws_reachable [OF assms, unfolded node_ws_def]
  have "WsConfig.truncate (wd_ws w) = establish_builder proxyUrl (nc_WsUrl n) req handler"
    using ok by (simp add: ws_ok_def)
  with ws_ok_queue [OF ok, of q] ws_ok_close [OF ok] show ?thesis by (simp add: capacity_def)
qed

text \<open>
  C10: as long as none of its callers closes the client, nothing the server sends, no failing
  read or write, no number of reconnects and no order of the goroutines makes it panic or
  closes one of its channels.
\<close>

theorem open_client_never_panics:
  assumes "alone (build_node nw proxyUrl n req handler) = Done True ws0"
    and "(quiet_step (node_env nw))\<^sup>*\<^sup>* (start_world ws0) w"
  shows "\<not> wd_crashed w \<and> all_open (wd_ws w)"
proof -
  note e = build_node_success [OF assms(1)]
  from e(1,3) have "good (establish_builder proxyUrl (nc_WsUrl n) req handler) ws0"
    by (simp add: good_def node_ws_def)
  from calm_node.calm_reachable [OF assms(2) this e(2)] show ?thesis
    by (auto simp: calm_world_def good_def)
qed

text \<open>The reader's first iteration, run alone.\<close>

definition handlers_on :: "'c \<Rightarrow> 'c ws_event list" where
  "handlers_on c = [SetHandler c CloseMessage, SetHandler c PongMessage, SetHandler c PingMessage]"

lemma install_handlers_alone:
  "ws_c ws = Some c \<Longrightarrow> alone (install_handlers ws) =
     Done (Some (Receiving True)) (ws\<lparr>sy_events := sy_events ws @ handlers_on c\<rparr>)"
  by (simp add: install_handlers_def c_SetHandler_def event_def handlers_on_def)

text \<open>The system after the reader has started.\<close>

definition reader_started :: "'c \<Rightarrow> (ws_closure, 'c, 'a) ws_world \<Rightarrow> (ws_closure, 'c, 'a) ws_world" where
  "reader_started c w = settle Reader (Done (Some (Receiving True))
     ((wd_ws w)\<lparr>sy_events := sy_events (wd_ws w) @ handlers_on c\<rparr>)) w"

lemma reader_starts:
  assumes "ws_c ws = Some c"
  shows "(limited_step allowed env)\<^sup>*\<^sup>* (start_world ws) (reader_started c (start_world ws))"
  unfolding reader_started_def using assms
  by (intro reader_alone [where started = False]) (simp_all add: receive_iteration_def install_handlers_alone)

lemma reader_started_simps [simp]:
  "wd_ws (reader_started c w) = (wd_ws w)\<lparr>sy_events := sy_events (wd_ws w) @ handlers_on c\<rparr>"
  "wd_threads (reader_started c w) Reader = At (Receiving True)"
  "t \<noteq> Reader \<Longrightarrow> wd_threads (reader_started c w) t = wd_threads w t"
  "wd_crashed (reader_started c w) = wd_crashed w"
  by (simp_all add: reader_started_def settle_def)

text \<open>Here the reader starts and begins to read.\<close>

theorem open_client_never_panics_witness:
  "\<exists>ws0. alone (build_node (sample_network (\<lambda>_. True)) [] sample_client heads_request HeadsHandler_of) = Done True ws0 \<and>
     \<not> wd_crashed (reader_started 0 (start_world ws0)) \<and> all_open (wd_ws (reader_started 0 (start_world ws0)))"
proof -
  let ?nw = "sample_network (\<lambda>_. True)"
  obtain ws where ws: "alone (build_node ?nw [] sample_client heads_request HeadsHandler_of) = Done True ws"
    "ws_c ws = Some 0"
    by (rule sample_built [of "sample_network (\<lambda>_. True)"]) simp_all
  from open_client_never_panics [OF ws(1) reader_starts [OF ws(2)]] ws(1) show ?thesis by blast
qed

section \<open>Reconnecting\<close>

text \<open>The iteration of the reader that gives up.\<close>

lemma reader_gives_up:
  assumes "node_ws proxyUrl n req handler ws" and "\<not> ws_lock ws" and "all_open ws"
    and "ch_queue (ws_close ws) = []" and "ws_c ws = Some c" and "nw_read nw (sy_events ws) c = ([], Inl err)"
    and "\<And>ev. \<exists>e. nw_dial nw (sy_events ws @ ev) (node_dialer nw proxyUrl) (nc_WsUrl n) Map.empty = Inl e"
  obtains errs k where "length errs = 100" and
    "alone (receive_iteration (node_env nw) True ws) = Stuck On_Lock ((drop_write ws)\<lparr>ws_lock := True,
       sy_events := sy_events ws @ Closed c # failed_tries (10 * Second) errs attempts\<rparr>) k"
proof -
  note cfg = node_ws_config [OF assms(1)]
  have shut: "\<not> write_shut ws" using assms(3) by (simp add: all_open_queues write_shut_def)
  have fails: "\<exists>e. dial_now (node_env nw) ws (node_dialer nw proxyUrl) (sy_events ws @ ev) = Inl e" for ev
    using assms(7) [of ev] by (simp add: dial_now_def cfg)
  obtain errs k where errs: "length errs = 100" and
    rec: "alone (Reconnect (node_env nw) ws) = Stuck On_Lock ((drop_write ws)\<lparr>ws_lock := True,
       sy_events := sy_events ws @ Closed c # failed_tries (wc_reconnectInterval ws) errs attempts\<rparr>) k"
    by (rule reconnect_gives_up [OF assms(2,5) shut cfg(2,1) fails])
  have "chan_recv (ws_close ws) = None"
    using assms(3,4) by (simp add: chan_recv_def all_open_queues)
  then show ?thesis
    using assms(5,6) rec that [OF errs] by (simp add: receive_iteration_def read_next_def read_failed_def cfg)
qed

text \<open>
  C9: after a hundred failed attempts, with pauses of ten, twenty, ... seconds, the
  reconnecting goroutine asks for the mutex it holds; it gets there when the others do not
  come in between. From then on, whatever the other goroutines and the callers of the client
  do, it waits, the mutex stays locked and nobody dials again.
\<close>

theorem giving_up_deadlocks:
  assumes "alone (build_node nw proxyUrl n req handler) = Done True ws0"
    and "(ws_step (node_env nw))\<^sup>*\<^sup>* (start_world ws0) w" and "\<not> wd_crashed w"
    and "wd_threads w Reader = At (Receiving True)" and "\<not> ws_lock (wd_ws w)"
    and "all_open (wd_ws w)" and "ch_queue (ws_close (wd_ws w)) = []" and "ws_c (wd_ws w) = Some c"
    and "nw_read nw (sy_events (wd_ws w)) c = ([], Inl err)"
    and "\<And>ev. \<exists>e. nw_dial nw (sy_events (wd_ws w) @ ev) (node_dialer nw proxyUrl) (nc_WsUrl n) Map.empty = Inl e"
  shows "\<exists>w'. (ws_step (node_env nw))\<^sup>*\<^sup>* w w' \<and>
    (\<exists>errs. length errs = 100 \<and>
       sy_events (wd_ws w') = sy_events (wd_ws w) @ Closed c # failed_tries (10 * Second) errs [1..<101]) \<and>
    (\<forall>w''. (ws_step (node_env nw))\<^sup>*\<^sup>* w' w'' \<longrightarrow>
       ws_lock (wd_ws w'') \<and> (\<exists>k. wd_threads w'' Reader = Blocked On_Lock k) \<and>
       dials (wd_ws w'') = dials (wd_ws w'))"
proof -
  let ?env = "node_env nw" and ?ws = "wd_ws w"
  let ?r = "receive_iteration ?env True ?ws"
  obtain errs k where errs: "length errs = 100" and
    iter: "alone ?r = Stuck On_Lock ((drop_write ?ws)\<lparr>ws_lock := True,
       sy_events := sy_events ?ws @ Closed c # failed_tries (10 * Second) errs attempts\<rparr>) k"
    by (rule reader_gives_up [OF node_ws_reachable [OF assms(1,2)] assms(5-10)])
  let ?w = "settle Reader (alone ?r) w"
  have it: "iteration ?env Receive (Receiving True) ?ws = Some ?r" by simp
  obtain holder where "dial_mutex holder w"
    using node.mutex_reachable [OF assms(2) build_node_success(2) [OF assms(1)]] by blast
  then have m: "dial_mutex None w" using assms(5) by (simp add: mutex_def)
  have "disciplined (\<lambda>ds ws. dials ws = ds) (alone ?r) None"
    using node.dialling.disciplined_any [OF _ it, of None] assms(5) by (intro disciplined_alone) simp
  then have m': "dial_mutex (Some Reader) ?w"
    unfolding iter by (intro settle_takes m) simp_all
  have b: "wd_threads ?w Reader = Blocked On_Lock k"
    by (simp add: iter settle_def)
  show ?thesis
  proof (intro exI conjI allI impI)
    show "(ws_step ?env)\<^sup>*\<^sup>* w ?w"
      by (rule limited_are_steps [OF reader_alone [OF assms(3,4) refl]]) (simp add: iter)
    show "length errs = 100" by (fact errs)
    show "sy_events (wd_ws ?w) = sy_events ?ws @ Closed c # failed_tries (10 * Second) errs [1..<101]"
      by (simp add: iter settle_def attempts_def del: upt_rec_numeral)
    fix w'' assume steps: "(ws_step ?env)\<^sup>*\<^sup>* ?w w''"
    note d = node.self_deadlock [OF steps m' b]
    show "ws_lock (wd_ws w'')" using d by (simp add: mutex_def)
    show "wd_threads w'' Reader = Blocked On_Lock k" using d by simp
    show "dials (wd_ws w'') = dials (wd_ws ?w)" using d by simp
  qed
qed

theorem giving_up_deadlocks_witness:
  "\<exists>ws0 w. alone (build_node (sample_network (\<lambda>ev. ev = [])) [] sample_client heads_request HeadsHandler_of) = Done True ws0 \<and>
     (ws_step (node_env (sample_network (\<lambda>ev. ev = []))))\<^sup>*\<^sup>* (start_world ws0) w \<and>
     ws_lock (wd_ws w) \<and> (\<exists>k. wd_threads w Reader = Blocked On_Lock k)"
proof -
  let ?nw = "sample_network (\<lambda>ev. ev = [])"
  obtain ws where ws: "alone (build_node ?nw [] sample_client heads_request HeadsHandler_of) = Done True ws"
    "ws_c ws = Some 0" "\<not> ws_lock ws" "all_open ws" "ch_queue (ws_close ws) = []"
    "sy_events ws = [Dialled 0, ReadDeadline 0 (5 * Second)]"
    by (rule sample_built [of "sample_network (\<lambda>ev. ev = [])"]) simp_all
  let ?w = "reader_started 0 (start_world ws)"
  have steps: "(ws_step (node_env ?nw))\<^sup>*\<^sup>* (start_world ws) ?w"
    by (rule limited_are_steps [OF reader_starts [OF ws(2)]])
  have start: "wd_ws (start_world ws) = ws" "\<not> wd_crashed (start_world ws)"
    by (simp_all add: start_world_def)
  have "\<exists>w'. (ws_step (node_env ?nw))\<^sup>*\<^sup>* ?w w' \<and>
    (\<exists>errs. length errs = 100 \<and>
       sy_events (wd_ws w') = sy_events (wd_ws ?w) @ Closed 0 # failed_tries (10 * Second) errs [1..<101]) \<and>
    (\<forall>w''. (ws_step (node_env ?nw))\<^sup>*\<^sup>* w' w'' \<longrightarrow>
       ws_lock (wd_ws w'') \<and> (\<exists>k. wd_threads w'' Reader = Blocked On_Lock k) \<and>
       dials (wd_ws w'') = dials (wd_ws w'))"
    by (rule giving_up_deadlocks [OF ws(1) steps])
      (use ws in \<open>simp_all add: start all_open_queues\<close>)
  then obtain w' where w': "(ws_step (node_env ?nw))\<^sup>*\<^sup>* ?w w'" and
    stuck: "\<And>w''. (ws_step (node_env ?nw))\<^sup>*\<^sup>* w' w'' \<Longrightarrow>
       ws_lock (wd_ws w'') \<and> (\<exists>k. wd_threads w'' Reader = Blocked On_Lock k)" by blast
  from rtranclp_trans [OF steps w'] stuck [OF rtranclp.rtrancl_refl] ws(1) show ?thesis by blast
qed

text \<open>A reconnect of a client of the node that succeeds.\<close>

lemma node_reconnect:
  assumes "node_ws proxyUrl n req handler ws" and "\<not> ws_lock ws" and "all_open ws" and "ws_c ws = Some c"
    and "marshal_wsRequest (nw_fmt nw) req = Inr text" and "length errs < 100"
    and "\<And>j. j < length errs \<Longrightarrow> nw_dial nw (sy_events ws @ Closed c #
        failed_tries (10 * Second) (take j errs) (take j [1..<101])) (node_dialer nw proxyUrl) (nc_WsUrl n) Map.empty = Inl (errs ! j)"
    and "nw_dial nw (sy_events ws @ Closed c #
        failed_tries (10 * Second) errs (take (length errs) [1..<101])) (node_dialer nw proxyUrl) (nc_WsUrl n) Map.empty = Inr c'"
  shows "\<exists>ws'. alone (Reconnect (node_env nw) ws) = Done () ws' \<and> ws_c ws' = Some c' \<and> \<not> ws_lock ws' \<and>
    node_ws proxyUrl n req handler ws' \<and> all_open ws' \<and> ws_close ws' = ws_close ws \<and>
    ch_queue (ws_writeBufferChan ws') = drop 1 (ch_queue (ws_writeBufferChan ws)) @ [text] \<and>
    sy_app ws' = sy_app ws \<and>
    sy_events ws' = sy_events ws @ Closed c # failed_tries (10 * Second) errs (take (length errs) [1..<101]) @
      [Dialled c', ReadDeadline c' (5 * Second)]"
proof -
  note cfg = node_ws_config [OF assms(1)]
  have shut: "\<not> write_shut ws" using assms(3) by (simp add: all_open_queues write_shut_def)
  have "wc_reconnectInterval ws = 10 * Second" "wc_readDeadLineTime ws = 5 * Second" by (fact cfg)+
  note rec = reconnect_succeeds [OF assms(2,4) shut cfg(2,1) assms(6), unfolded dial_now_def cfg attempts_def node_env_simps, OF assms(7,8)]
  let ?ch = "ws_writeBufferChan (drop_write ws)"
  have "capacity ?ch = 10" and not_shut: "\<not> ch_closed ?ch"
    using ws_ok_queue [OF ws_ok_drop_write [OF assms(1) [unfolded node_ws_def]], of WriteQ] assms(3)
    by (auto simp: drop_write_def all_open_queues isChanClose_def ch.probe_closed)
  moreover have "length (ch_queue ?ch) \<le> 9"
    using ws_ok_queue [OF assms(1) [unfolded node_ws_def], of WriteQ] by (simp add: drop_write_queue capacity_def)
  ultimately obtain m where room: "ch_room ?ch = Suc m" by (cases "ch_room ?ch") (auto simp: capacity_def)
  have q: "ch_queue ?ch = drop 1 (ch_queue (ws_writeBufferChan ws))" by (rule drop_write_queue)
  have app: "sy_app (drop_write ws) = sy_app ws" by (simp add: drop_write_def)
  define evs where "evs = sy_events ws @ Closed c # failed_tries (10 * Second) errs (take (length errs) [1..<101]) @
      [Dialled c', ReadDeadline c' (5 * Second)]"
  define ws1 where "ws1 = (drop_write ws)\<lparr>ws_lock := False, sy_events := evs, ws_c := Some c',
      ws_writeBufferChan := \<lparr>ch_queue = drop 1 (ch_queue (ws_writeBufferChan ws)) @ [text], ch_room = m, ch_closed = False\<rparr>\<rparr>"
  have run: "alone (Reconnect (node_env nw) ws) = Done () ws1"
    by (subst rec, assumption)
      (simp add: after_reconnect_def cfg Subscribe_def assms(5) send_on_def send_now_def chan_send_def not_shut room q
        evs_def ws1_def del: upt_rec_numeral)
  have "ws_ok cfg ws1" if "ws_ok cfg ws" for cfg
    using that \<open>capacity ?ch = 10\<close> room q
    by (auto simp: ws1_def ws_ok_def all_ws_queue capacity_def WsConfig.truncate_def drop_write_def)
  with assms(1) have "node_ws proxyUrl n req handler ws1" by (simp add: node_ws_def)
  moreover have "all_open ws1" "ws_close ws1 = ws_close ws"
    using assms(3) by (simp_all add: ws1_def all_open_queues drop_write_def)
  ultimately show ?thesis
    using run by (simp add: app evs_def ws1_def del: upt_rec_numeral)
qed

text \<open>
  C18: a reconnect whose first attempts fail and whose next one succeeds takes the new
  connection, with a fresh read deadline, releases the mutex and subscribes again. The first
  message that was waiting to be written is lost.
\<close>

theorem reconnect_subscribes_again:
  assumes "node_ws proxyUrl n req handler ws" and "\<not> ws_lock ws" and "all_open ws" and "ws_c ws = Some c"
    and "marshal_wsRequest (nw_fmt nw) req = Inr text" and "length errs < 100"
    and "\<And>j. j < length errs \<Longrightarrow> nw_dial nw (sy_events ws @ Closed c #
        failed_tries (10 * Second) (take j errs) (take j [1..<101])) (node_dialer nw proxyUrl) (nc_WsUrl n) Map.empty = Inl (errs ! j)"
    and "nw_dial nw (sy_events ws @ Closed c #
        failed_tries (10 * Second) errs (take (length errs) [1..<101])) (node_dialer nw proxyUrl) (nc_WsUrl n) Map.empty = Inr c'"
  shows "\<exists>ws'. alone (Reconnect (node_env nw) ws) = Done () ws' \<and> ws_c ws' = Some c' \<and> \<not> ws_lock ws' \<and>
    ch_queue (ws_writeBufferChan ws') = drop 1 (ch_queue (ws_writeBufferChan ws)) @ [text] \<and>
    sy_app ws' = sy_app ws \<and>
    sy_events ws' = sy_events ws @ Closed c # failed_tries (10 * Second) errs (take (length errs) [1..<101]) @
      [Dialled c', ReadDeadline c' (5 * Second)]"
  using node_reconnect [OF assms] by blast

theorem reconnect_subscribes_again_witness:
  "\<exists>ws ws'. alone (EstablishConn (sample_network (\<lambda>ev. length ev \<noteq> 3)) [] sample_client heads_request HeadsHandler_of) = Done None ws \<and>
     alone (Reconnect (node_env (sample_network (\<lambda>ev. length ev \<noteq> 3))) ws) = Done () ws' \<and> ws_c ws' = Some 5 \<and>
     ch_queue (ws_writeBufferChan ws') = [heads_text]"
proof -
  let ?nw = "sample_network (\<lambda>ev. length ev \<noteq> 3)"
  obtain ws where ws: "alone (EstablishConn ?nw [] sample_client heads_request HeadsHandler_of) = Done None ws"
    "ws_c ws = Some 0" "node_ws [] sample_client heads_request HeadsHandler_of ws" "\<not> ws_lock ws" "all_open ws"
    "ch_queue (ws_writeBufferChan ws) = [heads_text]" "sy_events ws = [Dialled 0, ReadDeadline 0 (5 * Second)]"
    by (rule sample_established [of "\<lambda>ev. length ev \<noteq> 3"]) simp_all
  have one: "take (Suc 0) [1..<101] = [1]" by (simp add: upt_conv_Cons del: upt_rec_numeral)
  have "\<exists>ws'. alone (Reconnect (node_env ?nw) ws) = Done () ws' \<and> ws_c ws' = Some 5 \<and> \<not> ws_lock ws' \<and>
    ch_queue (ws_writeBufferChan ws') = drop 1 (ch_queue (ws_writeBufferChan ws)) @ [heads_text] \<and>
    sy_app ws' = sy_app ws \<and>
    sy_events ws' = sy_events ws @ Closed 0 # failed_tries (10 * Second) [''refused''] (take (length [''refused'']) [1..<101]) @
      [Dialled 5, ReadDeadline 5 (5 * Second)]"
    by (rule reconnect_subscribes_again [OF ws(3,4,5,2)])
      (use ws one in \<open>simp_all add: marshal_heads heads_text_def del: upt_rec_numeral\<close>)
  with ws(1,6) show ?thesis by auto
qed

section \<open>Closing\<close>

text \<open>
  C32: \<open>CloseWs\<close> closes the five channels and leaves one token for the two goroutines. Called
  again before one of them has taken it, \<open>CloseWs\<close> panics with a send on a closed channel;
  after that it only closes the connection again.
\<close>

theorem closing_twice_panics:
  assumes "\<not> ws_lock ws" and "ws_c ws = Some c" and "all_open ws"
    and "ch_queue (ws_close ws) = []" and "ch_room (ws_close ws) = 1"
  shows "\<exists>ws'. alone (CloseWs ws) = Done () ws' \<and> all_closed ws' \<and> alone (CloseWs ws') = Crashed SendOnClosedChannel \<and>
    (\<exists>ch. chan_recv (ws_close ws') = Some (Some True, ch) \<and>
      alone (CloseWs (ws'\<lparr>ws_close := ch\<rparr>)) = Done () (ws'\<lparr>ws_close := ch, sy_events := sy_events ws' @ [Closed c]\<rparr>))"
proof (intro exI conjI)
  let ?ws = "closed_ws c ws" and ?ch = "\<lparr>ch_queue = [], ch_room = 1, ch_closed = True\<rparr> :: bool chan"
  show "alone (CloseWs ws) = Done () ?ws" by (rule CloseWs_open [OF assms])
  show "all_closed ?ws" by (auto simp: all_closed_def closed_ws_def close_chan_def all_ws_queue)
  have l: "\<not> ws_lock ?ws" "ws_c ?ws = Some c" using assms(1,2) by (simp_all add: closed_ws_def)
  then show "alone (CloseWs ?ws) = Crashed SendOnClosedChannel"
    by (intro CloseWs_token) (simp_all add: closed_ws_def)
  show "chan_recv (ws_close ?ws) = Some (Some True, ?ch)"
    by (simp add: closed_ws_def chan_recv_def)
  show "alone (CloseWs (?ws\<lparr>ws_close := ?ch\<rparr>)) = Done () (?ws\<lparr>ws_close := ?ch, sy_events := sy_events ?ws @ [Closed c]\<rparr>)"
    using CloseWs_drained [of "?ws\<lparr>ws_close := ?ch\<rparr>" c] l by simp
qed

theorem closing_twice_panics_witness:
  "\<exists>ws ws'. alone (EstablishConn (sample_network (\<lambda>_. True)) [] sample_client heads_request HeadsHandler_of) = Done None ws \<and>
     alone (CloseWs ws) = Done () ws' \<and> alone (CloseWs ws') = Crashed SendOnClosedChannel"
proof -
  obtain ws where ws: "alone (EstablishConn (sample_network (\<lambda>_. True)) [] sample_client heads_request HeadsHandler_of) = Done None ws"
    "ws_c ws = Some 0" "\<not> ws_lock ws" "all_open ws" "ch_queue (ws_close ws) = []" "ch_room (ws_close ws) = 1"
    by (rule sample_established [of "\<lambda>_. True"]) simp_all
  from closing_twice_panics [OF ws(3,2,4-6)] ws(1) show ?thesis by blast
qed

text \<open>
  C33: a goroutine that tries to reconnect after \<open>CloseWs\<close> finds the client closed only when
  no message is left to be written. Otherwise it dials again, and subscribing on the
  closed channel panics.
\<close>

theorem reconnect_after_close:
  assumes "node_ws proxyUrl n req handler ws" and "\<not> ws_lock ws" and "all_open ws" and "ws_c ws = Some c"
    and "ch_queue (ws_close ws) = []" and "marshal_wsRequest (nw_fmt nw) req = Inr text"
    and "nw_dial nw (sy_events ws @ [Closed c, Closed c]) (node_dialer nw proxyUrl) (nc_WsUrl n) Map.empty = Inr c'"
  shows "\<exists>ws'. alone (CloseWs ws) = Done () ws' \<and>
    alone (Reconnect (node_env nw) ws') =
      (if ch_queue (ws_writeBufferChan ws) = [] then Done () ws' else Crashed SendOnClosedChannel)"
proof (intro exI conjI)
  let ?ws = "closed_ws c ws"
  have "ch_room (ws_close ws) = 1"
    using assms(1,5) by (simp add: node_ws_def ws_ok_def capacity_def)
  then show "alone (CloseWs ws) = Done () ?ws" by (rule CloseWs_open [OF assms(2,4,3,5)])
  have l: "\<not> ws_lock ?ws" "ws_c ?ws = Some c" using assms(2,4) by (simp_all add: closed_ws_def)
  have s: "write_shut ?ws \<longleftrightarrow> ch_queue (ws_writeBufferChan ws) = []"
    by (simp add: write_shut_def closed_ws_def close_chan_def)
  have "WsConfig.truncate ?ws = establish_builder proxyUrl (nc_WsUrl n) req handler"
    using assms(1) by (simp add: node_ws_def ws_ok_def closed_ws_def WsConfig.truncate_def)
  note f = truncate_fields [OF this]
  show "alone (Reconnect (node_env nw) ?ws) =
    (if ch_queue (ws_writeBufferChan ws) = [] then Done () ?ws else Crashed SendOnClosedChannel)"
  proof (cases "write_shut ?ws")
    case True
    then have "write_shut (?ws\<lparr>ws_lock := True\<rparr>)" by (simp add: write_shut_def)
    with True l s show ?thesis
      by (simp add: Reconnect_eq with_lock_free reconnect_body_def)
  next
    case False
    have d: "ws_dialer (node_env nw) ?ws = Inr (node_dialer nw proxyUrl)"
      by (simp add: ws_dialer_eq f node_dialer_def)
    have h: "wc_PreReconnectHook ?ws = None" by (simp add: f)
    have e: "sy_events ?ws = sy_events ws @ [Closed c]" by (simp add: closed_ws_def)
    have "ch_closed (ws_writeBufferChan (drop_write ?ws))"
      by (simp add: drop_write_def closed_ws_def close_chan_def isChanClose_def ch.probe_closed)
    with reconnect_succeeds [OF l False h d, of "[]" c'] assms(6,7) s False show ?thesis
      by (simp add: dial_now_def f e after_reconnect_def Subscribe_def send_on_def send_now_def chan_send_def)
  qed
qed

theorem reconnect_after_close_witness:
  "\<exists>ws ws'. alone (EstablishConn (sample_network (\<lambda>_. True)) [] sample_client heads_request HeadsHandler_of) = Done None ws \<and>
     alone (CloseWs ws) = Done () ws' \<and> alone (Reconnect (node_env (sample_network (\<lambda>_. True))) ws') = Crashed SendOnClosedChannel"
proof -
  obtain ws where ws: "alone (EstablishConn (sample_network (\<lambda>_. True)) [] sample_client heads_request HeadsHandler_of) = Done None ws"
    "ws_c ws = Some 0" "node_ws [] sample_client heads_request HeadsHandler_of ws" "\<not> ws_lock ws" "all_open ws"
    "ch_queue (ws_writeBufferChan ws) = [heads_text]" "ch_queue (ws_close ws) = []"
    by (rule sample_established [of "\<lambda>_. True"]) simp_all
  have d: "nw_dial (sample_network (\<lambda>_. True)) (sy_events ws @ [Closed 0, Closed 0]) d u hs = Inr (length (sy_events ws) + 2)"
    for d u hs by simp
  from reconnect_after_close [OF ws(3-5,2,7) marshal_heads d] ws(1,6) show ?thesis by auto
qed

text \<open>
  Closing the connection with messages waiting to be written drops the first of them
  without writing it.
\<close>

lemma close_loses_a_message:
  assumes "ws_c ws = Some c" and "ch_queue (ws_writeBufferChan ws) = msg # msgs"
  shows "\<exists>ws'. alone (WsClose ws) = Done () ws' \<and> ch_queue (ws_writeBufferChan ws') = msgs \<and>
    sy_events ws' = sy_events ws @ [Closed c]"
  using assms
  by (simp add: WsClose_def write_closed_eq write_shut_def c_Close_def with_c_def drop_write_queue event_def)

section \<open>Options\<close>

text \<open>
  Compression is never negotiated, so \<open>DisableEnableCompression\<close> changes nothing; and
  dialling panics exactly when there is a local address that does not resolve.
\<close>

lemma dialer_options:
  "ws_dialer env (DisableEnableCompression b) = ws_dialer env b \<and>
   (case ws_dialer env b of Inl p \<Rightarrow> p = NilDereference \<and> wc_BindAddr b \<noteq> [] \<and> we_resolve env (wc_BindAddr b) = None
     | Inr d \<Rightarrow> \<not> dl_EnableCompression d \<and> (wc_BindAddr b = [] \<or> we_resolve env (wc_BindAddr b) = dl_LocalAddr d))"
  by (auto simp: ws_dialer_eq DisableEnableCompression_def)

text \<open>
  A client that is built reads with a deadline of no less than its heartbeat interval,
  for intervals below \<open>2^62\<close> nanoseconds. Without a heartbeat the deadline is the configured
  one, which is zero after \<open>NewWsBuilder\<close>: every read has timed out at once.
\<close>

lemma read_deadline:
  assumes "alone (Build env cfg ev app) = Done True ws"
    and "0 \<le> sint (wc_HeartbeatIntervalTime cfg)" and "sint (wc_HeartbeatIntervalTime cfg) < 2 ^ 62"
  shows "sint (wc_HeartbeatIntervalTime cfg) \<le> sint (wc_readDeadLineTime ws) \<and>
    (\<exists>c. ws_c ws = Some c \<and> sy_events ws = ev @ [Dialled c, ReadDeadline c (wc_readDeadLineTime ws)]) \<and>
    (wc_HeartbeatIntervalTime cfg = 0 \<and> 0 \<le> sint (wc_readDeadLineTime cfg) \<longrightarrow>
       wc_readDeadLineTime ws = wc_readDeadLineTime cfg)"
proof -
  let ?b = "adjust_deadline (bare_conn cfg ev app)"
  have h: "wc_HeartbeatIntervalTime (bare_conn cfg ev app) = wc_HeartbeatIntervalTime cfg"
    "wc_readDeadLineTime (bare_conn cfg ev app) = wc_readDeadLineTime cfg"
    by (simp_all add: bare_conn_def)
  have ev: "sy_events ?b = ev" by (simp add: adjust_deadline_def bare_conn_def)
  have ws: "wc_readDeadLineTime ws = wc_readDeadLineTime ?b \<and>
    (\<exists>c. ws_c ws = Some c \<and> sy_events ws = ev @ [Dialled c, ReadDeadline c (wc_readDeadLineTime ?b)])"
    using assms(1) ev by (auto simp: Build_def NewWs_def connect_def event_def split: sum.splits)
  have "sint (wc_HeartbeatIntervalTime cfg) \<le> sint (wc_readDeadLineTime ?b)"
    using adjust_deadline_covers_heartbeat [of "bare_conn cfg ev app"] assms(2,3) by (simp add: h)
  moreover have "wc_readDeadLineTime ?b = wc_readDeadLineTime cfg"
    if "wc_HeartbeatIntervalTime cfg = 0" "0 \<le> sint (wc_readDeadLineTime cfg)"
    using that by (simp add: adjust_deadline_def h word_sless_alt)
  ultimately show ?thesis using ws by simp
qed

end
