(* ===== verification/Conn_Properties.thy ===== *)
theory Conn_Properties
  imports Ws_Properties
begin

text \<open>
  Properties of a websocket client of the node that concern the goroutines together: the
  mutex, the handlers for control frames, the way of a message to its handler, and what two
  goroutines do about one broken connection.
\<close>

section \<open>The mutex\<close>

text \<open>
  C21: one reconnect at a time. In every reachable state in which the mutex is locked one
  goroutine holds it, and whatever another one does next, the mutex stays locked and no
  connection is dialled.
\<close>

theorem one_reconnect_at_a_time:
  assumes "alone (build_node nw proxyUrl n req handler) = Done True ws0"
    and "(ws_step (node_env nw))\<^sup>*\<^sup>* (start_world ws0) w" and "ws_lock (wd_ws w)"
  shows "\<exists>t. (\<exists>wt k. wd_threads w t = Blocked wt k) \<and>
    (\<forall>t' r. t' \<noteq> t \<longrightarrow> goes_on (node_env nw) w t' r \<longrightarrow>
       ws_lock (wd_ws (settle t' r w)) \<and> dials (wd_ws (settle t' r w)) = dials (wd_ws w))"
proof -
  obtain holder where m: "dial_mutex holder w"
    using node.mutex_reachable [OF assms(2) build_node_success(2) [OF assms(1)]] by blast
  then obtain t where t: "holder = Some t" using assms(3) by (auto simp: mutex_def)
  have "ws_lock (wd_ws (settle t' r w)) \<and> dials (wd_ws (settle t' r w)) = dials (wd_ws w)"
    if "t' \<noteq> t" "goes_on (node_env nw) w t' r" for t' r
    using node.others_outside [OF m [unfolded t] that] by (simp add: mutex_def)
  moreover have "\<exists>wt k. wd_threads w t = Blocked wt k" using m t by (simp add: mutex_def)
  ultimately show ?thesis by blast
qed

text \<open>A reader that has found the connection broken, and dials in vain.\<close>

lemma sample_locked:
  obtains ws w where "alone (build_node (sample_network (\<lambda>ev. ev = [])) [] sample_client heads_request HeadsHandler_of) = Done True ws"
    and "(ws_step (node_env (sample_network (\<lambda>ev. ev = []))))\<^sup>*\<^sup>* (start_world ws) w" and "ws_lock (wd_ws w)"
proof -
  let ?nw = "sample_network (\<lambda>ev. ev = [])"
  obtain ws where ws: "alone (build_node ?nw [] sample_client heads_request HeadsHandler_of) = Done True ws"
    "ws_c ws = Some 0" "node_ws [] sample_client heads_request HeadsHandler_of ws" "\<not> ws_lock ws" "all_open ws"
    "ch_queue (ws_close ws) = []" "sy_events ws = [Dialled 0, ReadDeadline 0 (5 * Second)]"
    by (rule sample_built [of "sample_network (\<lambda>ev. ev = [])"]) simp_all
  let ?w = "reader_started 0 (start_world ws)"
  have w: "wd_ws ?w = ws\<lparr>sy_events := sy_events ws @ handlers_on 0\<rparr>" "\<not> wd_crashed ?w"
    by (simp_all add: start_world_def)
  have steps: "(ws_step (node_env ?nw))\<^sup>*\<^sup>* (start_world ws) ?w"
    by (rule limited_are_steps [OF reader_starts [OF ws(2)]])
  have n: "node_ws [] sample_client heads_request HeadsHandler_of (wd_ws ?w)"
    by (rule node_ws_reachable [OF ws(1) steps])
  obtain errs k where r: "alone (receive_iteration (node_env ?nw) True (wd_ws ?w)) =
      Stuck On_Lock ((drop_write (wd_ws ?w))\<lparr>ws_lock := True,
        sy_events := sy_events (wd_ws ?w) @ Closed 0 # failed_tries (10 * Second) errs attempts\<rparr>) k"
    by (rule reader_gives_up [OF n, where nw = ?nw and c = 0 and err = "''timeout''"])
      (use ws in \<open>simp_all add: w all_open_queues\<close>)
  let ?r = "alone (receive_iteration (node_env ?nw) True (wd_ws ?w))"
  have "(ws_step (node_env ?nw))\<^sup>*\<^sup>* ?w (settle Reader ?r ?w)"
    by (rule limited_are_steps [OF reader_alone [OF w(2) _ refl]]) (simp, simp only: r, simp)
  from rtranclp_trans [OF steps this] show ?thesis
    by (rule that [OF ws(1)]) (simp only: r settle_def, simp)
qed

theorem one_reconnect_at_a_time_witness:
  "\<exists>ws w. alone (build_node (sample_network (\<lambda>ev. ev = [])) [] sample_client heads_request HeadsHandler_of) = Done True ws \<and>
     (ws_step (node_env (sample_network (\<lambda>ev. ev = []))))\<^sup>*\<^sup>* (start_world ws) w \<and> ws_lock (wd_ws w) \<and>
     (\<exists>t wt k. wd_threads w t = Blocked wt k)"
proof -
  obtain ws w where w: "alone (build_node (sample_network (\<lambda>ev. ev = [])) [] sample_client heads_request HeadsHandler_of) = Done True ws"
    "(ws_step (node_env (sample_network (\<lambda>ev. ev = []))))\<^sup>*\<^sup>* (start_world ws) w" "ws_lock (wd_ws w)"
    by (rule sample_locked)
  from one_reconnect_at_a_time [OF w] w show ?thesis by blast
qed

section \<open>The handlers for control frames\<close>

text \<open>
  C29: in every reachable state the handlers installed are an initial part of the list
  close, pong, ping, and all three once the reader has begun to read. So each is installed on
  one connection only, the one in use when the reader started: a connection that replaces it
  has none.
\<close>

theorem handlers_installed_once:
  assumes "alone (build_node nw proxyUrl n req handler) = Done True ws0"
    and "(ws_step (node_env nw))\<^sup>*\<^sup>* (start_world ws0) w"
  shows "(\<exists>later. handler_kinds (wd_ws w) @ later = [CloseMessage, PongMessage, PingMessage]) \<and>
    (wd_threads w Reader = At (Receiving True) \<longrightarrow> handler_kinds (wd_ws w) = [CloseMessage, PongMessage, PingMessage]) \<and>
    (SetHandler c kind \<in> set (sy_events (wd_ws w)) \<and> SetHandler c' kind \<in> set (sy_events (wd_ws w)) \<longrightarrow> c = c')"
proof -
  have "handler_kinds ws0 = []"
    using build_node_cases [of nw proxyUrl n req handler] assms(1)
    by (auto simp: handler_kinds_def split: sum.splits)
  from handlers_node.handlers_reachable [OF assms(2) this] obtain owed where w: "handlers_world owed w" ..
  have kinds: "handler_kinds (wd_ws w) @ owed = frame_handlers" using w by (simp add: handlers_world_def)
  have "distinct frame_handlers" by (simp add: frame_handlers_def)
  then have "distinct (handler_kinds (wd_ws w))" unfolding kinds [symmetric] by simp
  moreover have "wd_threads w Reader = At (Receiving True) \<Longrightarrow> handler_kinds (wd_ws w) = frame_handlers"
    using kinds w by (simp add: handlers_world_def)
  ultimately show ?thesis
    using kinds handler_kinds_once [of "wd_ws w" c kind c'] unfolding frame_handlers_def by blast
qed

theorem handlers_installed_once_witness:
  "\<exists>ws. alone (build_node (sample_network (\<lambda>_. True)) [] sample_client heads_request HeadsHandler_of) = Done True ws \<and>
     handler_kinds (wd_ws (reader_started 0 (start_world ws))) = [CloseMessage, PongMessage, PingMessage]"
proof -
  obtain ws where ws: "alone (build_node (sample_network (\<lambda>_. True)) [] sample_client heads_request HeadsHandler_of) = Done True ws"
    "ws_c ws = Some 0"
    by (rule sample_built [of "sample_network (\<lambda>_. True)"]) simp_all
  from handlers_installed_once [OF ws(1) limited_are_steps [OF reader_starts [OF ws(2)]]] ws(1) show ?thesis by auto
qed

section \<open>Reading a message\<close>

fun pings :: "control_frame list \<Rightarrow> bytes list" where
  "pings [] = []"
| "pings (PingFrame ping # fs) = ping # pings fs"
| "pings (_ # fs) = pings fs"

text \<open>The frames a handler extends the read deadline for.\<close>

definition handled_frames :: "(ws_kind \<Rightarrow> bool) \<Rightarrow> control_frame list \<Rightarrow> control_frame list" where
  "handled_frames handled = filter (\<lambda>f. case f of
     PingFrame _ \<Rightarrow> handled PingMessage | PongFrame _ \<Rightarrow> handled PongMessage | CloseFrame _ _ \<Rightarrow> False)"

definition append_chan :: "'x list \<Rightarrow> 'x chan \<Rightarrow> 'x chan" where
  "append_chan xs ch = ch\<lparr>ch_queue := ch_queue ch @ xs, ch_room := ch_room ch - length xs\<rparr>"

lemma control_frames_alone:
  assumes "ws_c ws = Some c" and "\<not> ch_closed (ws_pongMessageBufferChan ws)"
    and "length (pings fs) \<le> ch_room (ws_pongMessageBufferChan ws)"
  shows "alone (control_frames handled fs ws) = Done () (ws\<lparr>
    ws_pongMessageBufferChan := append_chan (if handled PingMessage then pings fs else []) (ws_pongMessageBufferChan ws),
    sy_events := sy_events ws @ replicate (length (handled_frames handled fs)) (ReadDeadline c (wc_readDeadLineTime ws))\<rparr>)"
  using assms
proof (induction fs arbitrary: ws)
  case Nil
  show ?case by (simp add: append_chan_def handled_frames_def)
next
  case (Cons f fs)
  show ?case
  proof (cases f)
    case (PingFrame ping)
    with Cons.prems(3) obtain m where m: "ch_room (ws_pongMessageBufferChan ws) = Suc m" "length (pings fs) \<le> m"
      by (cases "ch_room (ws_pongMessageBufferChan ws)") auto
    show ?thesis
    proof (cases "handled PingMessage")
      case True
      let ?q = "\<lparr>ch_queue = ch_queue (ws_pongMessageBufferChan ws) @ [ping], ch_room = m, ch_closed = False\<rparr>"
      let ?ws = "event (ReadDeadline c (wc_readDeadLineTime ws)) (ws\<lparr>ws_pongMessageBufferChan := ?q\<rparr>)"
      have "alone (SendPongMessage ping ws) = Done () (ws\<lparr>ws_pongMessageBufferChan := ?q\<rparr>)"
        using alone_send_room [of PongQ ws m ping] Cons.prems(2) m(1) by (simp add: SendPongMessage_def)
      then have "alone (control_frames handled (f # fs) ws) = alone (control_frames handled fs ?ws)"
        using True PingFrame Cons.prems(1) by (simp add: c_SetReadDeadline_def)
      also have "\<dots> = Done () (?ws\<lparr>
          ws_pongMessageBufferChan := append_chan (pings fs) ?q,
          sy_events := sy_events ?ws @ replicate (length (handled_frames handled fs)) (ReadDeadline c (wc_readDeadLineTime ?ws))\<rparr>)"
        using Cons.IH [of ?ws] Cons.prems(1) m(2) True by (simp add: event_def)
      also have "append_chan (pings fs) ?q = append_chan (ping # pings fs) (ws_pongMessageBufferChan ws)"
        using m Cons.prems(2) by (auto simp: append_chan_def intro!: chan.equality)
      finally show ?thesis using True PingFrame by (simp add: event_def handled_frames_def)
    next
      case False
      then show ?thesis using Cons.IH [of ws] Cons.prems m PingFrame by (simp add: handled_frames_def)
    qed
  next
    case (PongFrame pong)
    then show ?thesis
      using Cons.IH [of ws] Cons.IH [of "event (ReadDeadline c (wc_readDeadLineTime ws)) ws"] Cons.prems
      by (simp add: handled_frames_def c_SetReadDeadline_def event_def)
  next
    case (CloseFrame code reason)
    then show ?thesis using Cons.IH [of ws] Cons.prems by (simp add: handled_frames_def)
  qed
qed

text \<open>
  C28: the way of a message. When a message arrives, after some control frames, the reader
  hands it to the configured handler, having answered each ping and moved the read deadline
  once for each ping, each pong and the message; but the frames only count on the connection
  the handlers are installed on. On any other one pings and pongs leave the deadline alone,
  and it passes although the server is alive.
\<close>

theorem message_reaches_handler:
  assumes "node_ws proxyUrl n req handler ws" and "all_open ws" and "ch_queue (ws_close ws) = []" and "ws_c ws = Some c"
    and "nw_read nw (sy_events ws) c = (frames, Inr (t, msg))" and "t = TextMessage \<or> t = BinaryMessage"
    and "length (pings frames) \<le> ch_room (ws_pongMessageBufferChan ws)"
    and "handled = (\<lambda>kind. SetHandler c kind \<in> set (sy_events ws))"
  shows "\<exists>ws'. alone (receive_iteration (node_env nw) True ws) = Done (Some (Receiving True)) ws' \<and>
    sy_app ws' = fst (node_proto handler msg (sy_app ws)) \<and>
    ch_queue (ws_pongMessageBufferChan ws') =
      ch_queue (ws_pongMessageBufferChan ws) @ (if handled PingMessage then pings frames else []) \<and>
    sy_events ws' = sy_events ws @ replicate (Suc (length (handled_frames handled frames))) (ReadDeadline c (5 * Second)) \<and>
    (\<not> handled PingMessage \<and> \<not> handled PongMessage \<longrightarrow> handled_frames handled frames = [])"
proof -
  note cfg = node_ws_config [OF assms(1)]
  have "chan_recv (ws_close ws) = None"
    using assms(2,3) by (simp add: chan_recv_def all_open_queues)
  moreover have "alone (control_frames handled frames ws) = Done () (ws\<lparr>
    ws_pongMessageBufferChan := append_chan (if handled PingMessage then pings frames else []) (ws_pongMessageBufferChan ws),
    sy_events := sy_events ws @ replicate (length (handled_frames handled frames)) (ReadDeadline c (wc_readDeadLineTime ws))\<rparr>)"
    using assms(2,7) by (intro control_frames_alone [OF assms(4)]) (simp_all add: all_open_queues)
  moreover have "handled_frames handled frames = []" if "\<not> handled PingMessage" "\<not> handled PongMessage"
    using that by (auto simp: handled_frames_def filter_empty_conv split: control_frame.splits)
  ultimately show ?thesis
    using assms(4,5,6,8)
    by (auto simp: receive_iteration_def read_next_def c_SetReadDeadline_def handle_message_def call_proto_def cfg
        event_def append_chan_def replicate_append_same node_env_def)
qed

text \<open>A server that sends a ping and a message each time.\<close>

definition pinging_network :: "nat network" where
  "pinging_network = (sample_network (\<lambda>_. True))\<lparr>nw_read := \<lambda>_ _. ([PingFrame ''p''], Inr (TextMessage, ''{}''))\<rparr>"

theorem message_reaches_handler_witness:
  "\<exists>ws ws'. alone (build_node pinging_network [] sample_client heads_request HeadsHandler_of) = Done True ws \<and>
     alone (receive_iteration (node_env pinging_network) True (wd_ws (reader_started 0 (start_world ws)))) =
       Done (Some (Receiving True)) ws' \<and>
     ch_queue (ws_pongMessageBufferChan ws') = [''p''] \<and>
     sy_app ws' = fst (node_proto HeadsHandler_of ''{}'' (sy_app ws))"
proof -
  obtain ws where ws: "alone (build_node pinging_network [] sample_client heads_request HeadsHandler_of) = Done True ws"
    "ws_c ws = Some 0" "all_open ws" "\<forall>q. ch_queue (queue_of q ws) = [] \<and> ch_room (queue_of q ws) = 10"
    "ch_queue (ws_close ws) = []"
    by (rule sample_built [of pinging_network]) (simp_all add: pinging_network_def)
  let ?w = "reader_started 0 (start_world ws)"
  have n: "node_ws [] sample_client heads_request HeadsHandler_of (wd_ws ?w)"
    by (rule node_ws_reachable [OF ws(1) limited_are_steps [OF reader_starts [OF ws(2)]]])
  have read: "nw_read pinging_network ev c = ([PingFrame ''p''], Inr (TextMessage, ''{}''))" for ev c
    by (simp add: pinging_network_def)
  have h: "SetHandler 0 PingMessage \<in> set (sy_events (wd_ws ?w))" by (simp add: handlers_on_def)
  from message_reaches_handler [OF n _ _ _ read _ _ refl, of 0]
  show ?thesis using ws h by (auto simp: all_open_queues all_ws_queue)
qed

section \<open>One broken connection, two reconnects\<close>

text \<open>A reconnect that succeeds at once, in an iteration of the writer and of the reader.\<close>

lemma node_reconnect_once:
  assumes "node_ws proxyUrl n req handler ws" and "\<not> ws_lock ws" and "all_open ws" and "ws_c ws = Some c"
    and "marshal_wsRequest (nw_fmt nw) req = Inr text"
    and "nw_dial nw (sy_events ws @ [Closed c]) (node_dialer nw proxyUrl) (nc_WsUrl n) Map.empty = Inr c'"
  obtains ws' where "alone (Reconnect (node_env nw) ws) = Done () ws'" and "ws_c ws' = Some c'" and "\<not> ws_lock ws'"
    and "node_ws proxyUrl n req handler ws'" and "all_open ws'" and "ws_close ws' = ws_close ws"
    and "ch_queue (ws_writeBufferChan ws') = drop 1 (ch_queue (ws_writeBufferChan ws)) @ [text]"
    and "sy_events ws' = sy_events ws @ [Closed c, Dialled c', ReadDeadline c' (5 * Second)]"
  using node_reconnect [OF assms(1-5), of "[]" c'] assms(6) by auto

lemma writer_replaces:
  assumes "node_ws proxyUrl n req handler ws" and "\<not> ws_lock ws" and "all_open ws" and "ws_c ws = Some c"
    and "marshal_wsRequest (nw_fmt nw) req = Inr text" and "ch_queue (ws_writeBufferChan ws) = msg # rest"
    and "nw_write nw (sy_events ws) c TextMessage msg = Some err"
    and "nw_dial nw (sy_events ws @ [Wrote c TextMessage msg (Some err), Slept Second, Closed c])
      (node_dialer nw proxyUrl) (nc_WsUrl n) Map.empty = Inr c'"
  obtains r ws' where "iteration (node_env nw) (Write_Case (Case_Queue WriteQ)) (Writing err0 armed) ws = Some r"
    and "alone r = Done (Some (Writing (Some err) armed)) ws'" and "ws_c ws' = Some c'" and "\<not> ws_lock ws'"
    and "node_ws proxyUrl n req handler ws'" and "all_open ws'" and "ws_close ws' = ws_close ws"
    and "ch_queue (ws_writeBufferChan ws') = drop 1 rest @ [text]"
    and "sy_events ws' = sy_events ws @ [Wrote c TextMessage msg (Some err), Slept Second, Closed c,
      Dialled c', ReadDeadline c' (5 * Second)]"
proof -
  let ?ch = "(ws_writeBufferChan ws)\<lparr>ch_queue := rest, ch_room := Suc (ch_room (ws_writeBufferChan ws))\<rparr>"
  let ?ws = "event (Slept Second) (event (Wrote c TextMessage msg (Some err)) (set_queue WriteQ ?ch ws))"
  have recv: "chan_recv (ws_writeBufferChan ws) = Some (Some msg, ?ch)"
    using assms(6) by (simp add: chan_recv_def)
  have "node_ws proxyUrl n req handler (set_queue WriteQ ?ch ws)"
    using assms(1) ws_ok_queue [of _ ws WriteQ] assms(6) unfolding node_ws_def
    by (intro ws_ok_update) (auto simp: capacity_def)
  then have n: "node_ws proxyUrl n req handler ?ws" by (simp add: node_ws_def)
  note cfg = node_ws_config [OF n]
  obtain ws' where r: "alone (Reconnect (node_env nw) ?ws) = Done () ws'" and
    ws': "ws_c ws' = Some c'" "\<not> ws_lock ws'" "node_ws proxyUrl n req handler ws'" "all_open ws'"
      "ws_close ws' = ws_close ?ws" "ch_queue (ws_writeBufferChan ws') = drop 1 (ch_queue (ws_writeBufferChan ?ws)) @ [text]"
      "sy_events ws' = sy_events ?ws @ [Closed c, Dialled c', ReadDeadline c' (5 * Second)]"
    by (rule node_reconnect_once [OF n, of c nw "text" c'])
      (use assms in \<open>simp_all add: all_open_queues event_def\<close>)
  let ?r = "run_bind (c_WriteMessage (node_env nw) TextMessage msg (set_queue WriteQ ?ch ws)) (\<lambda>err ws. after_write (node_env nw) armed err ws)"
  show ?thesis
  proof (rule that)
    show "iteration (node_env nw) (Write_Case (Case_Queue WriteQ)) (Writing err0 armed) ws = Some ?r"
      by (simp add: write_iteration_def recv)
    show "alone ?r = Done (Some (Writing (Some err) armed)) ws'"
      using assms(4,7) r cfg by (simp add: c_WriteMessage_def after_write_def event_def Let_def)
  qed (use ws' in \<open>simp_all add: event_def\<close>)
qed

lemma reader_replaces:
  assumes "node_ws proxyUrl n req handler ws" and "\<not> ws_lock ws" and "all_open ws" and "ws_c ws = Some c'"
    and "marshal_wsRequest (nw_fmt nw) req = Inr text"
    and "nw_read nw (sy_events ws) c = ([], Inl err)"
    and "nw_dial nw (sy_events ws @ [Closed c']) (node_dialer nw proxyUrl) (nc_WsUrl n) Map.empty = Inr c''"
  obtains ws' where "alone (read_next (node_env nw) c ws) = Done (Some (Receiving True)) ws'" and "ws_c ws' = Some c''"
    and "\<not> ws_lock ws'" and "ch_queue (ws_writeBufferChan ws') = drop 1 (ch_queue (ws_writeBufferChan ws)) @ [text]"
    and "sy_events ws' = sy_events ws @ [Closed c', Dialled c'', ReadDeadline c'' (5 * Second)]"
proof -
  obtain ws' where ws': "alone (Reconnect (node_env nw) ws) = Done () ws'" "ws_c ws' = Some c''" "\<not> ws_lock ws'"
    "ch_queue (ws_writeBufferChan ws') = drop 1 (ch_queue (ws_writeBufferChan ws)) @ [text]"
    "sy_events ws' = sy_events ws @ [Closed c', Dialled c'', ReadDeadline c'' (5 * Second)]"
    by (rule node_reconnect_once [OF assms(1-5,7)])
  show ?thesis
    by (rule that [OF _ ws'(2-5)]) (simp add: read_next_def assms(6) read_failed_def node_ws_config(5) [OF assms(1)] ws'(1))
qed

text \<open>
  C30: a broken connection can be replaced twice. The reader is in \<open>ReadMessage\<close> on \<open>c\<close> when a
  write on \<open>c\<close> fails and the writer reconnects. When the reader then sees \<open>c\<close> fail, as it
  must, it reconnects as well: it closes the new connection, on which nothing has failed, and
  dials a third one.
\<close>

theorem broken_connection_replaced_twice:
  assumes "alone (build_node nw proxyUrl n req handler) = Done True ws0"
    and "(ws_step (node_env nw))\<^sup>*\<^sup>* (start_world ws0) w" and "\<not> wd_crashed w"
    and "wd_threads w Reader = At (Receiving True)" and "wd_threads w Writer = At (Writing err0 armed)"
    and "\<not> ws_lock (wd_ws w)" and "all_open (wd_ws w)" and "ch_queue (ws_close (wd_ws w)) = []"
    and "ws_c (wd_ws w) = Some c" and "ch_queue (ws_writeBufferChan (wd_ws w)) = msg # rest"
    and "marshal_wsRequest (nw_fmt nw) req = Inr text"
    and "evs = sy_events (wd_ws w) @ [Wrote c TextMessage msg (Some err), Slept Second, Closed c]"
    and "nw_write nw (sy_events (wd_ws w)) c TextMessage msg = Some err"
    and "nw_dial nw evs (node_dialer nw proxyUrl) (nc_WsUrl n) Map.empty = Inr c'"
    and "nw_read nw (evs @ [Dialled c', ReadDeadline c' (5 * Second)]) c = ([], Inl err')"
    and "nw_dial nw (evs @ [Dialled c', ReadDeadline c' (5 * Second), Closed c'])
      (node_dialer nw proxyUrl) (nc_WsUrl n) Map.empty = Inr c''"
  shows "\<exists>w'. (ws_step (node_env nw))\<^sup>*\<^sup>* w w' \<and> ws_c (wd_ws w') = Some c'' \<and>
    sy_events (wd_ws w') = evs @ [Dialled c', ReadDeadline c' (5 * Second), Closed c', Dialled c'', ReadDeadline c'' (5 * Second)] \<and>
    wd_threads w' Reader = At (Receiving True) \<and> wd_threads w' Writer = At (Writing (Some err) armed) \<and>
    ch_queue (ws_writeBufferChan (wd_ws w')) = drop 1 (drop 1 rest @ [text]) @ [text]"
proof -
  let ?env = "node_env nw"
  note n = node_ws_reachable [OF assms(1,2)]
  let ?w1 = "w\<lparr>wd_threads := (wd_threads w)(Reader := Blocked On_Turn (read_next ?env c))\<rparr>"
  have "chan_recv (ws_close (wd_ws w)) = None"
    using assms(7,8) by (simp add: chan_recv_def all_open_queues)
  from reader_begins [OF assms(3,4) this assms(9)] have one: "(quiet_step ?env)\<^sup>*\<^sup>* w ?w1" .
  obtain r ws2 where r: "iteration ?env (Write_Case (Case_Queue WriteQ)) (Writing err0 armed) (wd_ws w) = Some r"
    "alone r = Done (Some (Writing (Some err) armed)) ws2" and
    ws2: "ws_c ws2 = Some c'" "\<not> ws_lock ws2" "node_ws proxyUrl n req handler ws2" "all_open ws2"
      "ch_queue (ws_writeBufferChan ws2) = drop 1 rest @ [text]"
      "sy_events ws2 = evs @ [Dialled c', ReadDeadline c' (5 * Second)]"
    by (rule writer_replaces [OF n assms(6,7,9,11,10,13), of c' err0 armed]) (use assms(12,14) in simp_all)
  let ?w2 = "settle Writer (alone r) ?w1"
  have two: "(quiet_step ?env)\<^sup>*\<^sup>* ?w1 ?w2"
    by (rule iterate_alone [where l = "Writing err0 armed" and act = "Write_Case (Case_Queue WriteQ)"])
      (use assms(3,5) r in simp_all)
  have w2: "wd_ws ?w2 = ws2" "\<not> wd_crashed ?w2" "wd_threads ?w2 Reader = Blocked On_Turn (read_next ?env c)"
    "wd_threads ?w2 Writer = At (Writing (Some err) armed)"
    using assms(3) r(2) by (simp_all add: settle_def)
  obtain ws3 where ws3: "alone (read_next ?env c ws2) = Done (Some (Receiving True)) ws3" "ws_c ws3 = Some c''"
    "ch_queue (ws_writeBufferChan ws3) = drop 1 (drop 1 rest @ [text]) @ [text]"
    "sy_events ws3 = evs @ [Dialled c', ReadDeadline c' (5 * Second), Closed c', Dialled c'', ReadDeadline c'' (5 * Second)]"
    by (rule reader_replaces [OF ws2(3,2,4,1) assms(11), of c err' c'']) (use ws2 assms(15,16) in simp_all)
  let ?w3 = "settle Reader (alone (read_next ?env c (wd_ws ?w2))) ?w2"
  have three: "(quiet_step ?env)\<^sup>*\<^sup>* ?w2 ?w3"
    by (rule resume_alone [OF w2(2,3)]) (simp_all only: w2(1) ws3(1), simp_all)
  have "(ws_step ?env)\<^sup>*\<^sup>* w ?w3"
    using limited_are_steps [OF one] limited_are_steps [OF two] limited_are_steps [OF three] by simp
  moreover have "wd_ws ?w3 = ws3" "wd_threads ?w3 Reader = At (Receiving True)"
    "wd_threads ?w3 Writer = At (Writing (Some err) armed)"
    unfolding w2(1) ws3(1) using w2(4) by (simp_all add: settle_def)
  ultimately show ?thesis using ws3 by blast
qed

text \<open>A network on which writes and reads fail; the caller has just subscribed.\<close>

definition broken_network :: "nat network" where
  "broken_network = (sample_network (\<lambda>_. True))\<lparr>nw_write := \<lambda>_ _ _ _. Some ''broken''\<rparr>"

lemma subscribed_world:
  assumes "alone (build_node nw [] sample_client heads_request HeadsHandler_of) = Done True ws" and "ws_c ws = Some 0"
    and "all_open ws" and "\<forall>q. ch_queue (queue_of q ws) = [] \<and> ch_room (queue_of q ws) = 10"
  obtains w where "(ws_step (node_env nw))\<^sup>*\<^sup>* (start_world ws) w" and "\<not> wd_crashed w"
    and "wd_threads w Reader = At (Receiving True)" and "wd_threads w Writer = At (Writing None True)"
    and "wd_ws w = ws\<lparr>sy_events := sy_events ws @ handlers_on 0,
      ws_writeBufferChan := \<lparr>ch_queue = [heads_text], ch_room = 9, ch_closed = False\<rparr>\<rparr>"
proof -
  let ?w = "reader_started 0 (start_world ws)"
  let ?ws = "ws\<lparr>sy_events := sy_events ws @ handlers_on 0\<rparr>"
  let ?new = "?ws\<lparr>ws_writeBufferChan := \<lparr>ch_queue = [heads_text], ch_room = 9, ch_closed = False\<rparr>\<rparr>"
  let ?c = "Call_Subscribe (marshal_wsRequest (nw_fmt nw) heads_request)"
  let ?r = "run_bind (call_run (node_env nw) ?c ?ws) (\<lambda>_ ws. Done (Some Calling) ws)"
  have "alone (send_on WriteQ heads_text ?ws) = Done () ?new"
    using alone_send_room [of WriteQ ?ws 9 heads_text] assms(3,4) by (simp add: all_open_queues all_ws_queue)
  then have run: "alone ?r = Done (Some Calling) ?new"
    by (simp add: Subscribe_def marshal_heads heads_text_def [symmetric])
  have "iteration (node_env nw) (Call ?c) Calling (wd_ws ?w) = Some ?r" by simp
  from iterate_alone [OF _ _ _ this, of "Client 0"] run
  have "(quiet_step (node_env nw))\<^sup>*\<^sup>* ?w (settle (Client 0) (Done (Some Calling) ?new) ?w)" by simp
  with reader_starts [OF assms(2), of "\<lambda>c. c \<noteq> Call_CloseWs" "node_env nw"]
  have "(ws_step (node_env nw))\<^sup>*\<^sup>* (start_world ws) (settle (Client 0) (Done (Some Calling) ?new) ?w)"
    by (intro limited_are_steps) (rule rtranclp_trans)
  then show ?thesis by (rule that) (simp_all add: settle_def)
qed

theorem broken_connection_replaced_twice_witness:
  "\<exists>ws w. alone (build_node broken_network [] sample_client heads_request HeadsHandler_of) = Done True ws \<and>
     (ws_step (node_env broken_network))\<^sup>*\<^sup>* (start_world ws) w \<and>
     ws_c (wd_ws w) = Some 11 \<and> ch_queue (ws_writeBufferChan (wd_ws w)) = [heads_text] \<and>
     Dialled 8 \<in> set (sy_events (wd_ws w)) \<and> Closed 8 \<in> set (sy_events (wd_ws w))"
proof -
  obtain ws where ws: "alone (build_node broken_network [] sample_client heads_request HeadsHandler_of) = Done True ws"
    "ws_c ws = Some 0" "\<not> ws_lock ws" "all_open ws" "\<forall>q. ch_queue (queue_of q ws) = [] \<and> ch_room (queue_of q ws) = 10"
    "ch_queue (ws_close ws) = []" "sy_events ws = [Dialled 0, ReadDeadline 0 (5 * Second)]"
    by (rule sample_built [of broken_network]) (simp_all add: broken_network_def)
  obtain w where w: "(ws_step (node_env broken_network))\<^sup>*\<^sup>* (start_world ws) w" "\<not> wd_crashed w"
    "wd_threads w Reader = At (Receiving True)" "wd_threads w Writer = At (Writing None True)"
    "wd_ws w = ws\<lparr>sy_events := sy_events ws @ handlers_on 0,
      ws_writeBufferChan := \<lparr>ch_queue = [heads_text], ch_room = 9, ch_closed = False\<rparr>\<rparr>"
    by (rule subscribed_world [OF ws(1,2,4,5)])
  have "\<exists>w'. (ws_step (node_env broken_network))\<^sup>*\<^sup>* w w' \<and> ws_c (wd_ws w') = Some 11 \<and>
    sy_events (wd_ws w') = (sy_events (wd_ws w) @ [Wrote 0 TextMessage heads_text (Some ''broken''), Slept Second, Closed 0]) @
      [Dialled 8, ReadDeadline 8 (5 * Second), Closed 8, Dialled 11, ReadDeadline 11 (5 * Second)] \<and>
    wd_threads w' Reader = At (Receiving True) \<and> wd_threads w' Writer = At (Writing (Some ''broken'') True) \<and>
    ch_queue (ws_writeBufferChan (wd_ws w')) = drop 1 (drop 1 [] @ [heads_text]) @ [heads_text]"
    by (rule broken_connection_replaced_twice [OF ws(1) w(1-4), where c = 0 and msg = heads_text and err' = "''timeout''"])
      (use ws in \<open>simp_all add: w(5) all_open_queues marshal_heads heads_text_def handlers_on_def broken_network_def\<close>)
  then show ?thesis using ws(1) rtranclp_trans [OF w(1)] by fastforce
qed

section \<open>The full write channel\<close>

text \<open>A caller can fill the channel, whatever the others wait for.\<close>

lemma fill_queue:
  assumes "\<not> wd_crashed w" and "wd_threads w (Client i) = At Calling" and "\<not> ch_closed (ws_writeBufferChan (wd_ws w))"
  obtains w' q where "(no_probe_step env)\<^sup>*\<^sup>* w w'" and "wd_threads w' = wd_threads w" and "\<not> wd_crashed w'"
    and "wd_ws w' = (wd_ws w)\<lparr>ws_writeBufferChan := \<lparr>ch_queue = ch_queue (ws_writeBufferChan (wd_ws w)) @ q, ch_room = 0, ch_closed = False\<rparr>\<rparr>"
  using assms
proof (induction "ch_room (ws_writeBufferChan (wd_ws w))" arbitrary: w thesis)
  case 0
  have "ws_writeBufferChan (wd_ws w) = \<lparr>ch_queue = ch_queue (ws_writeBufferChan (wd_ws w)) @ [], ch_room = 0, ch_closed = False\<rparr>"
    using 0 by (simp add: chan.equality)
  then have "wd_ws w = (wd_ws w)\<lparr>ws_writeBufferChan := \<lparr>ch_queue = ch_queue (ws_writeBufferChan (wd_ws w)) @ [], ch_room = 0, ch_closed = False\<rparr>\<rparr>"
    by simp
  with 0 show ?case by blast
next
  case (Suc n)
  let ?ws = "(wd_ws w)\<lparr>ws_writeBufferChan := \<lparr>ch_queue = ch_queue (ws_writeBufferChan (wd_ws w)) @ [[]], ch_room = n, ch_closed = False\<rparr>\<rparr>"
  let ?r = "run_bind (call_run env (Call_Send WriteQ []) (wd_ws w)) (\<lambda>_ ws. Done (Some Calling) ws)"
  have run: "alone ?r = Done (Some Calling) ?ws"
    using alone_send_room [of WriteQ "wd_ws w" n "[]"] Suc.hyps(2) Suc.prems(4) by simp
  have "iteration env (Call (Call_Send WriteQ [])) Calling (wd_ws w) = Some ?r" by simp
  from iterate_alone [OF Suc.prems(2,3) _ this, of "\<lambda>c. c \<noteq> Call_Close"] run
  have step: "(no_probe_step env)\<^sup>*\<^sup>* w (settle (Client i) (Done (Some Calling) ?ws) w)" by simp
  let ?w = "settle (Client i) (Done (Some Calling) ?ws) w"
  have w: "wd_ws ?w = ?ws" "wd_threads ?w = wd_threads w" "\<not> wd_crashed ?w"
    using Suc.prems(2,3) by (auto simp: settle_def)
  show ?case
  proof (rule Suc.hyps(1) [of ?w])
    fix w' q
    assume "(no_probe_step env)\<^sup>*\<^sup>* ?w w'" "wd_threads w' = wd_threads ?w" "\<not> wd_crashed w'"
      "wd_ws w' = (wd_ws ?w)\<lparr>ws_writeBufferChan := \<lparr>ch_queue = ch_queue (ws_writeBufferChan (wd_ws ?w)) @ q, ch_room = 0, ch_closed = False\<rparr>\<rparr>"
    with step w show thesis
      by (intro Suc.prems(1) [of w' "[] # q"]) auto
  qed (use w Suc.prems(3) in simp_all)
qed

text \<open>
  The reader finds its connection broken, and gets as far as the probe in \<open>Reconnect\<close>; the
  rest of its run, which it does under the mutex.
\<close>

definition reader_rest ::
    "('h, 'c, 'a) ws_env \<Rightarrow> ('h, 'c, 'a) WsSys \<Rightarrow> ('h, 'c, 'a) iteration" where
  "reader_rest env ws = run_bind (run_bind (reconnect_rest env ws) release) (\<lambda>_ ws. Done (Some (Receiving True)) ws)"

lemma reader_probes:
  assumes "chan_recv (ws_close ws) = None" and "ws_c ws = Some c" and "we_read env (sy_events ws) c = ([], Inl err)"
    and "wc_IsAutoReconnect ws" and "\<not> ws_lock ws" and "\<not> write_shut ws"
  obtains k where "go_ahead 4 (receive_iteration env True ws) = Stuck On_Turn (drop_write (ws\<lparr>ws_lock := True\<rparr>)) k"
    and "\<And>ws. alone (k ws) = alone (reader_rest env ws)"
proof -
  have "write_shut (ws\<lparr>ws_lock := True\<rparr>) = write_shut ws" by (simp add: write_shut_def)
  then have "\<exists>k. go_ahead 4 (receive_iteration env True ws) = Stuck On_Turn (drop_write (ws\<lparr>ws_lock := True\<rparr>)) k \<and>
    (\<forall>ws. alone (k ws) = alone (reader_rest env ws))"
    using assms
    by (simp add: eval_nat_numeral receive_iteration_def read_next_def read_failed_def with_c_def turn_def Reconnect_eq
        with_lock_def acquire_def reconnect_body_def reader_rest_def reconnect_rest_def c_Close_def)
  then show ?thesis using that by blast
qed

text \<open>With the channel full the rest stops at \<open>Subscribe\<close>, and from there on releases the mutex.\<close>

lemma reader_waits_for_room:
  fixes ws :: "(ws_closure, 'c, 'n NodeClient) WsSys"
  assumes "node_ws proxyUrl n req handler ws" and "ws_c ws = Some c" and "write_full ws"
    and "marshal_wsRequest (nw_fmt nw) req = Inr text"
    and "nw_dial nw (sy_events ws @ [Closed c]) (node_dialer nw proxyUrl) (nc_WsUrl n) Map.empty = Inr c'"
  obtains ws' k where "alone (reader_rest (node_env nw) ws) = Stuck (On_Send WriteQ) ws' k" and "write_full ws'"
    and "ws_lock ws' = ws_lock ws" and "\<not> outside (\<lambda>b ws. b \<longrightarrow> write_full ws) (On_Send WriteQ) k"
proof -
  note cfg = node_ws_config [OF assms(1)]
  let ?ws = "event (Closed c) ws"
  let ?ws' = "?ws\<lparr>sy_events := sy_events ws @ [Closed c, Dialled c', ReadDeadline c' (5 * Second)], ws_c := Some c'\<rparr>"
  have att: "attempts = 1 # [2..<101]" by (simp add: attempts_def upt_conv_Cons del: upt_rec_numeral)
  have "alone (reconnect_tries (node_env nw) ([] @ 1 # [2..<101]) None ?ws) = Done None (?ws\<lparr>sy_events := sy_events ?ws @
      failed_tries (wc_reconnectInterval ?ws) [] [] @ [Dialled c', ReadDeadline c' (wc_readDeadLineTime ?ws)], ws_c := Some c'\<rparr>)"
    by (rule tries_succeed) (use assms(5) cfg in \<open>simp_all add: dial_now_def\<close>)
  then have tries: "alone (reconnect_tries (node_env nw) attempts None ?ws) = Done None ?ws'"
    unfolding att by (simp add: cfg del: upt_rec_numeral)
  define k :: "(ws_closure, 'c, 'n NodeClient) WsSys \<Rightarrow> (ws_closure, 'c, 'n NodeClient) iteration" where
    "k = (\<lambda>s. run_bind (run_bind (run_bind (run_bind (send_now WriteQ text s) (\<lambda>_. Done (None :: string option)))
    (\<lambda>_. Done ())) release) (\<lambda>_ ws. Done (Some (Receiving True)) ws))"
  have full: "write_full ?ws'" using assms(3) by (simp add: write_full_def event_def)
  then have "alone (send_on WriteQ text ?ws') = Stuck (On_Send WriteQ) ?ws' (send_now WriteQ text)"
    by (simp add: send_on_def write_full_def)
  then have run: "alone (reader_rest (node_env nw) ws) = Stuck (On_Send WriteQ) ?ws' k"
    using assms(2) tries
    by (simp add: reader_rest_def reconnect_rest_def after_reconnect_def cfg Subscribe_def assms(4) k_def event_def)
  let ?s = "?ws'\<lparr>ws_lock := True, ws_writeBufferChan := make_chan 1\<rparr>"
  have "\<not> disciplined (\<lambda>b ws. b \<longrightarrow> write_full ws) (k ?s) (Some False)"
    by (auto simp: k_def send_now_def chan_send_def make_chan_def release_def turn_def intro!: exI [of _ "Some False"] exI [of _ ?s])
  then have "\<not> outside (\<lambda>b ws. b \<longrightarrow> write_full ws) (On_Send WriteQ) k"
    by (auto simp: outside_def make_chan_def intro!: exI [of _ "Some False"] exI [of _ ?s])
  with run full show ?thesis by (intro that [of ?ws' k]) (simp_all add: event_def)
qed

text \<open>The writer takes a message, cannot write it, and waits for the mutex.\<close>

lemma writer_waits_for_lock:
  assumes "node_ws proxyUrl n req handler ws" and "ws_lock ws" and "ws_c ws = Some c"
    and "ch_queue (ws_writeBufferChan ws) = msg # rest"
    and "nw_write nw (sy_events ws) c TextMessage msg = Some err"
  obtains r ws' k where "iteration (node_env nw) (Write_Case (Case_Queue WriteQ)) (Writing err0 armed) ws = Some r"
    and "alone r = Stuck On_Lock ws' k" and "ws_lock ws'" and "ws_c ws' = Some c"
    and "ch_closed (ws_writeBufferChan ws') = ch_closed (ws_writeBufferChan ws)"
proof -
  let ?ch = "(ws_writeBufferChan ws)\<lparr>ch_queue := rest, ch_room := Suc (ch_room (ws_writeBufferChan ws))\<rparr>"
  let ?ws = "event (Slept Second) (event (Wrote c TextMessage msg (Some err)) (set_queue WriteQ ?ch ws))"
  have recv: "chan_recv (ws_writeBufferChan ws) = Some (Some msg, ?ch)"
    using assms(4) by (simp add: chan_recv_def)
  have errMsg: "wc_errMsg ws = []" by (rule node_ws_config [OF assms(1)])
  have "ws_lock ?ws" using assms(2) by simp
  then obtain k where k: "alone (Reconnect (node_env nw) ?ws) = Stuck On_Lock ?ws k"
    unfolding Reconnect_def using with_lock_held by blast
  let ?r = "run_bind (c_WriteMessage (node_env nw) TextMessage msg (set_queue WriteQ ?ch ws)) (\<lambda>err ws. after_write (node_env nw) armed err ws)"
  have "\<exists>k. alone ?r = Stuck On_Lock ?ws k"
    using assms(3,5) k errMsg by (simp add: c_WriteMessage_def after_write_def event_def Let_def)
  then obtain k' where "alone ?r = Stuck On_Lock ?ws k'" by blast
  moreover have "iteration (node_env nw) (Write_Case (Case_Queue WriteQ)) (Writing err0 armed) ws = Some ?r"
    by (simp add: write_iteration_def recv)
  ultimately show ?thesis using assms(2,3) by (intro that [of ?r ?ws k']) (simp_all add: event_def)
qed

text \<open>
  Both, with callers who send meanwhile: the reader is about to close the old connection,
  the mutex is its, the writer waits for the mutex, and the channel is full.
\<close>

lemma both_wait:
  assumes "alone (build_node nw proxyUrl n req handler) = Done True ws0"
    and "(no_probe_step (node_env nw))\<^sup>*\<^sup>* (start_world ws0) w" and "\<not> wd_crashed w"
    and "wd_threads w Reader = At (Receiving True)" and "wd_threads w Writer = At (Writing err0 armed)"
    and "wd_threads w (Client i) = At Calling"
    and "\<not> ws_lock (wd_ws w)" and "all_open (wd_ws w)" and "ch_queue (ws_close (wd_ws w)) = []"
    and "ws_c (wd_ws w) = Some c"
    and "marshal_wsRequest (nw_fmt nw) req = Inr text"
    and read: "\<And>ev. nw_read nw ev c = ([], Inl err)"
    and "write": "\<And>ev msg. nw_write nw ev c TextMessage msg = Some werr"
    and dial: "\<And>ev. nw_dial nw ev (node_dialer nw proxyUrl) (nc_WsUrl n) Map.empty = Inr (c' ev)"
  obtains w4 k k' where "(no_probe_step (node_env nw))\<^sup>*\<^sup>* w w4" and "\<not> wd_crashed w4"
    and "wd_threads w4 Reader = Blocked On_Turn k" and "\<And>ws. alone (k ws) = alone (reader_rest (node_env nw) ws)"
    and "wd_threads w4 Writer = Blocked On_Lock k'" and "write_full (wd_ws w4)" and "ws_lock (wd_ws w4)"
    and "ws_c (wd_ws w4) = Some c"
proof -
  let ?env = "node_env nw" and ?w = "wd_ws w"
  have reachable: "node_ws proxyUrl n req handler (wd_ws v)" if "(no_probe_step ?env)\<^sup>*\<^sup>* w v" for v
    using node_ws_reachable [OF assms(1) limited_are_steps [OF rtranclp_trans [OF assms(2) that]]] .
  have recv: "chan_recv (ws_close ?w) = None" using assms(8,9) by (simp add: chan_recv_def all_open_queues)
  obtain k where k: "go_ahead 4 (receive_iteration ?env True ?w) = Stuck On_Turn (drop_write (?w\<lparr>ws_lock := True\<rparr>)) k"
    "\<And>ws. alone (k ws) = alone (reader_rest ?env ws)"
    by (rule reader_probes [OF recv assms(10), of ?env err])
      (use assms(7,8) read node_ws_config(5) [OF reachable] in \<open>simp_all add: write_shut_def all_open_queues\<close>)
  let ?w1 = "settle Reader (go_ahead 4 (receive_iteration ?env True ?w)) w"
  obtain ws' where "alone (read_next ?env c ?w) = Done (Some (Receiving True)) ws'"
    by (rule reader_replaces [OF reachable assms(7,8,10,11) read dial]) simp
  then have alive: "alone (receive_iteration ?env True ?w) \<noteq> Crashed p" for p
    using recv assms(10) by (simp add: receive_iteration_def with_c_def turn_def)
  have "limited_step (\<lambda>c. c \<noteq> Call_Close) ?env w (settle Reader (receive_iteration ?env True ?w) w)"
    by (rule limited_iterate [OF assms(3,4), of _ Receive]) simp_all
  from converse_rtranclp_into_rtranclp [OF this settle_go_ahead [OF assms(3) alive]]
  have one: "(no_probe_step ?env)\<^sup>*\<^sup>* w ?w1" .
  have w1: "\<not> wd_crashed ?w1" "wd_threads ?w1 Reader = Blocked On_Turn k" "wd_threads ?w1 Writer = At (Writing err0 armed)"
    "wd_threads ?w1 (Client i) = At Calling" "wd_ws ?w1 = drop_write (?w\<lparr>ws_lock := True\<rparr>)"
    "\<not> ch_closed (ws_writeBufferChan (wd_ws ?w1))"
    using assms(3,5,6,8) by (simp_all add: k(1) settle_def drop_write_closed all_open_queues)
  obtain w2 q where w2: "(no_probe_step ?env)\<^sup>*\<^sup>* ?w1 w2" "wd_threads w2 = wd_threads ?w1" "\<not> wd_crashed w2"
    "wd_ws w2 = (wd_ws ?w1)\<lparr>ws_writeBufferChan := \<lparr>ch_queue = ch_queue (ws_writeBufferChan (wd_ws ?w1)) @ q, ch_room = 0, ch_closed = False\<rparr>\<rparr>"
    by (rule fill_queue [OF w1(1,4,6)])
  note two = rtranclp_trans [OF one w2(1)]
  have "length (ch_queue (ws_writeBufferChan (wd_ws w2))) = 10"
    using ws_ok_queue [OF reachable [OF two, unfolded node_ws_def], of WriteQ] w2(4) by (simp add: capacity_def)
  then obtain msg rest where msg: "ch_queue (ws_writeBufferChan (wd_ws w2)) = msg # rest"
    by (cases "ch_queue (ws_writeBufferChan (wd_ws w2))") auto
  obtain r ws3 k' where r: "iteration ?env (Write_Case (Case_Queue WriteQ)) (Writing err0 armed) (wd_ws w2) = Some r"
    "alone r = Stuck On_Lock ws3 k'" "ws_lock ws3" "ws_c ws3 = Some c"
    "ch_closed (ws_writeBufferChan ws3) = ch_closed (ws_writeBufferChan (wd_ws w2))"
    by (rule writer_waits_for_lock [OF reachable [OF two] _ _ msg "write"]) (use assms(10) w1(5) w2(4) in simp_all)
  let ?w3 = "settle Writer (alone r) w2"
  have "(no_probe_step ?env)\<^sup>*\<^sup>* w2 ?w3"
    by (rule iterate_alone [OF w2(3) _ _ r(1)]) (use w1(3) w2(2) r(2) in simp_all)
  note three = rtranclp_trans [OF two this]
  have w3: "\<not> wd_crashed ?w3" "wd_threads ?w3 Reader = Blocked On_Turn k" "wd_threads ?w3 Writer = Blocked On_Lock k'"
    "wd_threads ?w3 (Client i) = At Calling" "wd_ws ?w3 = ws3" "\<not> ch_closed (ws_writeBufferChan (wd_ws ?w3))"
    using w1(2,4) w2 r(2,5) by (simp_all add: settle_def)
  obtain w4 q' where w4: "(no_probe_step ?env)\<^sup>*\<^sup>* ?w3 w4" "wd_threads w4 = wd_threads ?w3" "\<not> wd_crashed w4"
    "wd_ws w4 = (wd_ws ?w3)\<lparr>ws_writeBufferChan := \<lparr>ch_queue = ch_queue (ws_writeBufferChan (wd_ws ?w3)) @ q', ch_room = 0, ch_closed = False\<rparr>\<rparr>"
    by (rule fill_queue [OF w3(1,4,6)])
  show ?thesis
    by (rule that [OF rtranclp_trans [OF three w4(1)] w4(3) _ k(2)])
      (use w3 w4(2,4) r(3,4) in \<open>simp_all add: write_full_def\<close>)
qed

text \<open>
  C31: a full write channel stops a client for good. When reads and writes on a connection
  fail and callers keep sending, but none calls \<open>Close\<close>, the client can come to a state from
  which whatever is done the reader waits for room in the channel and holds the mutex, and
  the writer, the only one who could make room, waits for the mutex.
\<close>

theorem full_queue_deadlocks:
  assumes "alone (build_node nw proxyUrl n req handler) = Done True ws0"
    and "(no_probe_step (node_env nw))\<^sup>*\<^sup>* (start_world ws0) w" and "\<not> wd_crashed w"
    and "wd_threads w Reader = At (Receiving True)" and "wd_threads w Writer = At (Writing err0 armed)"
    and "wd_threads w (Client i) = At Calling"
    and "\<not> ws_lock (wd_ws w)" and "all_open (wd_ws w)" and "ch_queue (ws_close (wd_ws w)) = []"
    and "ws_c (wd_ws w) = Some c"
    and "marshal_wsRequest (nw_fmt nw) req = Inr bytes"
    and "\<And>ev. nw_read nw ev c = ([], Inl err)"
    and "\<And>ev msg. nw_write nw ev c TextMessage msg = Some werr"
    and "\<And>ev. \<exists>c'. nw_dial nw ev (node_dialer nw proxyUrl) (nc_WsUrl n) Map.empty = Inr c'"
  shows "\<exists>w'. (no_probe_step (node_env nw))\<^sup>*\<^sup>* w w' \<and>
    (\<forall>w''. (no_probe_step (node_env nw))\<^sup>*\<^sup>* w' w'' \<longrightarrow> ws_lock (wd_ws w'') \<and> write_full (wd_ws w'') \<and>
       (\<exists>k. wd_threads w'' Reader = Blocked (On_Send WriteQ) k) \<and> (\<exists>k. wd_threads w'' Writer = Blocked On_Lock k))"
proof -
  let ?env = "node_env nw"
  obtain c' where dial: "nw_dial nw ev (node_dialer nw proxyUrl) (nc_WsUrl n) Map.empty = Inr (c' ev)" for ev
    using assms(14) by metis
  obtain w4 k k' where w4: "(no_probe_step ?env)\<^sup>*\<^sup>* w w4" "\<not> wd_crashed w4" "wd_threads w4 Reader = Blocked On_Turn k"
    "\<And>ws. alone (k ws) = alone (reader_rest ?env ws)" "wd_threads w4 Writer = Blocked On_Lock k'"
    "write_full (wd_ws w4)" "ws_lock (wd_ws w4)" "ws_c (wd_ws w4) = Some c"
    by (rule both_wait [OF assms(1-13) dial]) blast
  note to4 = rtranclp_trans [OF assms(2) w4(1)]
  obtain ws' rest where rest: "alone (k (wd_ws w4)) = Stuck (On_Send WriteQ) ws' rest" "write_full ws'"
    "\<not> outside (\<lambda>b ws. b \<longrightarrow> write_full ws) (On_Send WriteQ) rest"
    unfolding w4(4)
    by (rule reader_waits_for_room [OF node_ws_reachable [OF assms(1) limited_are_steps [OF to4]] w4(8,6) assms(11) dial])
  let ?w5 = "settle Reader (alone (k (wd_ws w4))) w4"
  have step: "(no_probe_step ?env)\<^sup>*\<^sup>* w4 ?w5"
    by (rule resume_alone [OF w4(2,3)]) (simp_all add: rest(1))
  have w5: "wd_threads ?w5 Reader = Blocked (On_Send WriteQ) rest" "wd_threads ?w5 Writer = Blocked On_Lock k'"
    "write_full (wd_ws ?w5)"
    using rest(1,2) w4(5) by (simp_all add: settle_def)
  note to5 = rtranclp_trans [OF to4 step]
  obtain holder where m: "full_mutex holder ?w5"
    using node.full_mutex_reachable [OF to5 build_node_success(2) [OF assms(1)]] by blast
  with w5(1) rest(3) have holder: "holder = Some Reader" by (auto simp: mutex_def split: if_splits)
  have "ws_lock (wd_ws w'') \<and> write_full (wd_ws w'') \<and> wd_threads w'' Reader = Blocked (On_Send WriteQ) rest \<and>
      wd_threads w'' Writer = Blocked On_Lock k'"
    if "(no_probe_step ?env)\<^sup>*\<^sup>* ?w5 w''" for w''
    using node.full_deadlock [OF to5 that m [unfolded holder] w5(3,1,2)] by (simp add: mutex_def)
  then show ?thesis using rtranclp_trans [OF w4(1) step] by blast
qed

text \<open>The broken network again, on which every connection can be dialled.\<close>

theorem full_queue_deadlocks_witness:
  "\<exists>ws w. alone (build_node broken_network [] sample_client heads_request HeadsHandler_of) = Done True ws \<and>
     (no_probe_step (node_env broken_network))\<^sup>*\<^sup>* (start_world ws) w \<and> write_full (wd_ws w) \<and>
     (\<exists>k. wd_threads w Reader = Blocked (On_Send WriteQ) k) \<and> (\<exists>k. wd_threads w Writer = Blocked On_Lock k)"
proof -
  obtain ws where ws: "alone (build_node broken_network [] sample_client heads_request HeadsHandler_of) = Done True ws"
    "ws_c ws = Some 0" "\<not> ws_lock ws" "all_open ws" "\<forall>q. ch_queue (queue_of q ws) = [] \<and> ch_room (queue_of q ws) = 10"
    "ch_queue (ws_close ws) = []"
    by (rule sample_built [of broken_network]) (simp_all add: broken_network_def)
  let ?w = "reader_started 0 (start_world ws)"
  have steps: "(no_probe_step (node_env broken_network))\<^sup>*\<^sup>* (start_world ws) ?w"
    by (rule reader_starts [OF ws(2)])
  have "\<exists>w'. (no_probe_step (node_env broken_network))\<^sup>*\<^sup>* ?w w' \<and>
    (\<forall>w''. (no_probe_step (node_env broken_network))\<^sup>*\<^sup>* w' w'' \<longrightarrow> ws_lock (wd_ws w'') \<and> write_full (wd_ws w'') \<and>
       (\<exists>k. wd_threads w'' Reader = Blocked (On_Send WriteQ) k) \<and> (\<exists>k. wd_threads w'' Writer = Blocked On_Lock k))"
    by (rule full_queue_deadlocks [OF ws(1) steps, where c = 0 and i = 0 and bytes = heads_text])
      (use ws in \<open>simp_all add: all_open_queues marshal_heads heads_text_def broken_network_def\<close>)
  then show ?thesis using ws(1) rtranclp_trans [OF steps] by (meson rtranclp.rtrancl_refl)
qed

end
