(* ===== verification/Program.thy ===== *)
theory Program
  imports Main_Wiring Mgr_Orders
begin

text \<open>
  The start-up of the process and the running program: what \<open>main\<close> started, the handlers of NATS messages that wait to hand
  their message over, and the managers of all chains side by side. The channels of
  \<open>ReceiveSignalChan\<close> have no buffer: \<open>SignalMsgHandler\<close> waits until the loop of the chain's
  manager receives, and waiting handlers are served in the order in which they began to
  wait. A panic of a handler, which nothing recovers, ends the program.
\<close>

section \<open>State\<close>

record ('tx, 'v) program =
  pr_subs :: "string list"
  pr_chans :: signal_chans
  pr_mgrs :: "string \<rightharpoonup> ('tx, 'v) sys"
  pr_crashed :: bool

text \<open>
  \<open>StartNatsSubscribe\<close> subscribes and then sleeps for ever; \<open>Execute\<close> starts both loops and
  subscribes to the pending transactions.
\<close>

definition StartNatsSubscribe :: "string \<Rightarrow> string list \<Rightarrow> string list" where
  "StartNatsSubscribe key subs = subs @ [key]"

definition Execute :: "('tx, 'v) NodeMgr \<Rightarrow> ('tx, 'v) sys" where
  "Execute n = \<lparr> sy_mgr = n, sy_ga = Running, sy_sh = Running \<rparr>"

fun start_action ::
    "('c NodeClient \<times> ('tx, 'v) NodeMgr) action \<Rightarrow> ('tx, 'v) program \<Rightarrow> ('tx, 'v) program" where
  "start_action (GoSubscribe key) p = p\<lparr>pr_subs := StartNatsSubscribe key (pr_subs p)\<rparr>"
| "start_action (GoExecute k m) p = p\<lparr>pr_mgrs := (pr_mgrs p)(k \<mapsto> Execute (snd m))\<rparr>"

definition boot :: "string list \<Rightarrow> ('tx, 'v) program" where
  "boot keys = \<lparr> pr_subs = [], pr_chans = init_ReceiveSignalChan keys, pr_mgrs = Map.empty, pr_crashed = False \<rparr>"

definition started ::
    "string list \<Rightarrow> ('c NodeClient \<times> ('tx, 'v) NodeMgr) action list \<Rightarrow> ('tx, 'v) program" where
  "started keys acts = fold start_action acts (boot keys)"

section \<open>Steps\<close>

text \<open>
  The broker calls the handler for a message whose subject matches a subscription, where
  matching is the broker's. A manager receives from its channel when a handler waits; its
  other events come from the node.
\<close>

datatype ('tx, 'v) program_event =
    Delivered string bytes
  | Received string "('tx, 'v) tx_env" bytes
  | Happened string "('tx, 'v) tx_env" "'tx event"

fun from_chan :: "'tx event \<Rightarrow> bool" where
  "from_chan (SignalArrived data) = True"
| "from_chan _ = False"

inductive prog_step ::
    "(string \<Rightarrow> string \<Rightarrow> bool) \<Rightarrow> ('tx, 'v) program \<Rightarrow> ('tx, 'v) program_event \<Rightarrow> ('tx, 'v) program \<Rightarrow> bool"
  for matches where
  deliver: "\<lbrakk> \<not> pr_crashed p; sub \<in> set (pr_subs p); matches sub subject;
      SignalMsgHandler subject data (pr_chans p) = (chans, r) \<rbrakk>
    \<Longrightarrow> prog_step matches p (Delivered subject data) (p\<lparr>pr_chans := chans, pr_crashed := r \<noteq> None\<rparr>)"
| receive: "\<lbrakk> \<not> pr_crashed p; pr_mgrs p k = Some s; pr_chans p k = Some (data # waiting);
      sys_step s (env, SignalArrived data) s' \<rbrakk>
    \<Longrightarrow> prog_step matches p (Received k env data)
          (p\<lparr>pr_chans := (pr_chans p)(k \<mapsto> waiting), pr_mgrs := (pr_mgrs p)(k \<mapsto> s')\<rparr>)"
| happen: "\<lbrakk> \<not> pr_crashed p; pr_mgrs p k = Some s; \<not> from_chan e; sys_step s (env, e) s' \<rbrakk>
    \<Longrightarrow> prog_step matches p (Happened k env e) (p\<lparr>pr_mgrs := (pr_mgrs p)(k \<mapsto> s')\<rparr>)"

inductive prog_run ::
    "(string \<Rightarrow> string \<Rightarrow> bool) \<Rightarrow> ('tx, 'v) program \<Rightarrow> ('tx, 'v) program_event list \<Rightarrow> ('tx, 'v) program \<Rightarrow> bool"
  for matches where
  prog_refl: "prog_run matches p [] p"
| prog_snoc: "prog_run matches p tr q \<Longrightarrow> prog_step matches q e q' \<Longrightarrow> prog_run matches p (tr @ [e]) q'"

section \<open>One chain's view of a run\<close>

fun chain_event :: "string \<Rightarrow> ('tx, 'v) program_event \<Rightarrow> (('tx, 'v) tx_env \<times> 'tx event) option" where
  "chain_event k (Delivered subject data) = None"
| "chain_event k (Received k' env data) = (if k' = k then Some (env, SignalArrived data) else None)"
| "chain_event k (Happened k' env e) = (if k' = k then Some (env, e) else None)"

text \<open>
  What a delivery is for a chain, by the fifth part of its subject. This is the specification;
  \<open>handler_effect\<close> below shows that the handler puts just these messages into the channel.
\<close>

fun routed :: "string \<Rightarrow> ('tx, 'v) program_event \<Rightarrow> bytes option" where
  "routed k (Delivered subject data) =
     (case go_index (go_split CHR ''.'' subject) 4 of
        Inl p \<Rightarrow> None | Inr key \<Rightarrow> if key = k then Some data else None)"
| "routed k _ = None"

fun signal_text :: "('tx, 'v) tx_env \<times> 'tx event \<Rightarrow> bytes option" where
  "signal_text (env, SignalArrived data) = Some data"
| "signal_text _ = None"

text \<open>
  The events a chain's manager handled, the messages delivered for the chain, and the
  messages its manager received.
\<close>

definition chain_run :: "string \<Rightarrow> ('tx, 'v) program_event list \<Rightarrow> (('tx, 'v) tx_env \<times> 'tx event) list" where
  "chain_run k tr = List.map_filter (chain_event k) tr"

definition delivered_to :: "string \<Rightarrow> ('tx, 'v) program_event list \<Rightarrow> bytes list" where
  "delivered_to k tr = List.map_filter (routed k) tr"

definition signal_texts :: "(('tx, 'v) tx_env \<times> 'tx event) list \<Rightarrow> bytes list" where
  "signal_texts tr = List.map_filter signal_text tr"

lemma chain_run_simps [simp]:
  "chain_run k [] = []" "chain_run k (tr @ [e]) = chain_run k tr @ opt_list (chain_event k e)"
  by (simp_all add: chain_run_def map_filter_snoc map_filter_simps opt_list_def)

lemma delivered_to_simps [simp]:
  "delivered_to k [] = []" "delivered_to k (tr @ [e]) = delivered_to k tr @ opt_list (routed k e)"
  by (simp_all add: delivered_to_def map_filter_snoc map_filter_simps opt_list_def)

lemma signal_texts_simps [simp]:
  "signal_texts [] = []" "signal_texts (tr @ [e]) = signal_texts tr @ opt_list (signal_text e)"
  by (simp_all add: signal_texts_def map_filter_snoc map_filter_simps opt_list_def)

lemma no_text: "\<not> from_chan e \<Longrightarrow> signal_text (env, e) = None"
  by (cases e) simp_all

text \<open>
  What every run keeps for a chain that has a channel and a manager: the manager ran on the
  chain's own events, and the messages delivered for the chain are those it received,
  followed by those that wait.
\<close>

definition chain_inv ::
    "string \<Rightarrow> ('tx, 'v) sys \<Rightarrow> ('tx, 'v) program_event list \<Rightarrow> ('tx, 'v) program \<Rightarrow> bool" where
  "chain_inv k s0 tr p \<longleftrightarrow>
     (\<exists>s waiting. pr_mgrs p k = Some s \<and> pr_chans p k = Some waiting \<and> sys_run s0 (chain_run k tr) s \<and>
        delivered_to k tr = signal_texts (chain_run k tr) @ waiting)"

lemma handler_effect:
  "SignalMsgHandler subject data chans = (chans', r) \<Longrightarrow> chans k = Some waiting \<Longrightarrow>
    chans' k = Some (waiting @ opt_list (routed k (Delivered subject data)))"
  by (auto simp: SignalMsgHandler_def split: sum.splits option.splits)

lemma chain_inv_step:
  assumes "prog_step matches p e q" and "chain_inv k s0 tr p"
  shows "chain_inv k s0 (tr @ [e]) q"
proof -
  obtain s waiting where inv: "pr_mgrs p k = Some s" "pr_chans p k = Some waiting"
    "sys_run s0 (chain_run k tr) s" "delivered_to k tr = signal_texts (chain_run k tr) @ waiting"
    using assms(2) by (auto simp: chain_inv_def)
  show ?thesis
    using assms(1)
  proof (cases rule: prog_step.cases)
    case (deliver sub subject data chans r)
    with inv handler_effect [OF deliver(6) inv(2)] show ?thesis by (simp add: chain_inv_def)
  next
    case (receive k' s1 data rest env s2)
    show ?thesis
    proof (cases "k' = k")
      case True
      with receive inv have "sys_run s0 (chain_run k tr @ [(env, SignalArrived data)]) s2"
        by (auto intro: run_snoc)
      with True receive inv show ?thesis by (simp add: chain_inv_def)
    next
      case False
      with receive inv show ?thesis by (simp add: chain_inv_def)
    qed
  next
    case (happen k' s1 ev env s2)
    show ?thesis
    proof (cases "k' = k")
      case True
      with happen inv have "sys_run s0 (chain_run k tr @ [(env, ev)]) s2"
        by (auto intro: run_snoc)
      with True happen inv no_text [of ev env] show ?thesis by (simp add: chain_inv_def)
    next
      case False
      with happen inv show ?thesis by (simp add: chain_inv_def)
    qed
  qed
qed

lemma chain_inv_run:
  assumes "prog_run matches p tr q" and "pr_mgrs p k = Some s0" and "pr_chans p k = Some []"
  shows "chain_inv k s0 tr q"
  using assms
proof (induction rule: prog_run.induct)
  case (prog_refl p)
  then show ?case by (simp add: chain_inv_def run_refl)
next
  case (prog_snoc p tr q e q')
  then show ?case by (blast intro: chain_inv_step)
qed

section \<open>What \<open>main\<close> starts\<close>

lemma boot_sel [simp]:
  "pr_subs (boot keys) = []" "pr_chans (boot keys) = init_ReceiveSignalChan keys"
  "pr_mgrs (boot keys) = Map.empty" "\<not> pr_crashed (boot keys)"
  by (simp_all add: boot_def)

lemma start_chans: "pr_chans (fold start_action acts p) = pr_chans p"
proof (induction acts arbitrary: p)
  case (Cons a acts)
  then show ?case by (cases a) simp_all
qed simp

lemma start_crashed: "pr_crashed (fold start_action acts p) = pr_crashed p"
proof (induction acts arbitrary: p)
  case (Cons a acts)
  then show ?case by (cases a) simp_all
qed simp

lemma start_unnamed:
  "(\<And>m. GoExecute k m \<notin> set acts) \<Longrightarrow> pr_mgrs (fold start_action acts p) k = pr_mgrs p k"
proof (induction acts arbitrary: p)
  case (Cons a acts)
  then show ?case by (cases a) auto
qed simp

lemma start_subs:
  "set (pr_subs (fold start_action acts p)) = set (pr_subs p) \<union> {key. GoSubscribe key \<in> set acts}"
proof (induction acts arbitrary: p)
  case (Cons a acts)
  then show ?case by (cases a) (auto simp: StartNatsSubscribe_def)
qed simp

lemma init_chan: "k \<in> set keys \<Longrightarrow> init_ReceiveSignalChan keys k = Some []"
proof -
  assume "k \<in> set keys"
  then show ?thesis
    using map_build_functional [of keys "\<lambda>k. k" "\<lambda>_. []" k] by (simp add: init_ReceiveSignalChan_def)
qed

lemma main_loop_keys:
  "GoExecute k m \<in> set (fst (main_loop new_mgr enemies chainPairs items)) \<Longrightarrow> k \<in> fst ` set items"
proof (induction items)
  case (Cons kv rest)
  then show ?case by (cases kv) (auto simp: Let_def split: sum.splits prod.splits)
qed simp

lemma main_loop_subs:
  "GoSubscribe key \<in> set (fst (main_loop new_mgr enemies chainPairs items)) \<Longrightarrow>
    \<exists>k \<in> fst ` set items. key = signal_key k"
proof (induction items)
  case (Cons kv rest)
  then show ?case by (cases kv) (auto simp: Let_def split: sum.splits prod.splits)
qed simp

text \<open>The manager of a configured chain starts on the maps of the chain's configuration.\<close>

definition chain_mgr ::
    "(string \<Rightarrow> string \<Rightarrow> (string \<rightharpoonup> string) \<Rightarrow> (string \<rightharpoonup> string) \<Rightarrow> (string \<rightharpoonup> bool) \<Rightarrow> (string \<rightharpoonup> string) \<Rightarrow> 'm go)
      \<Rightarrow> (string \<times> string list) list \<Rightarrow> (string \<times> 'f pairs_map) list \<Rightarrow> string \<Rightarrow> TtChainItem \<Rightarrow> 'm go" where
  "chain_mgr new_mgr enemies chainPairs k v =
     go_bind (pair_symbol_map (map_get [] (map_of chainPairs) (chain_name k))) (\<lambda>pairSymbolMap.
       new_mgr (ci_Endpoint v) (ci_WsEndpoint v) (newRouter (ci_Router v)) (addr_tokens (ci_Tokens v))
         (enemies_map (map_get [] (map_of enemies) (chain_name k))) pairSymbolMap)"

lemma start_main_loop:
  assumes "snd (main_loop new_mgr enemies chainPairs items) = None" and "distinct (map fst items)"
    and "(k, v) \<in> set items"
  shows "\<exists>m. chain_mgr new_mgr enemies chainPairs k v = Inr m \<and>
    pr_mgrs (fold start_action (fst (main_loop new_mgr enemies chainPairs items)) p) k = Some (Execute (snd m))"
  using assms
proof (induction items arbitrary: p)
  case (Cons kv rest)
  obtain k' v' where kv: "kv = (k', v')" by (cases kv)
  obtain m' where m': "chain_mgr new_mgr enemies chainPairs k' v' = Inr m'"
    using Cons.prems(1) by (auto simp: kv Let_def chain_mgr_def split: sum.splits)
  have loop: "main_loop new_mgr enemies chainPairs (kv # rest) =
    (GoSubscribe (signal_key k') # GoExecute k' m' # fst (main_loop new_mgr enemies chainPairs rest),
     snd (main_loop new_mgr enemies chainPairs rest))"
    using m' by (simp add: kv Let_def chain_mgr_def split: prod.split)
  show ?case
  proof (cases "k = k'")
    case True
    then have "v = v'" and rest: "k \<notin> fst ` set rest"
      using Cons.prems(2,3) by (auto simp: kv rev_image_eqI)
    then have "GoExecute k m \<notin> set (fst (main_loop new_mgr enemies chainPairs rest))" for m
      using rest main_loop_keys [of k m new_mgr enemies chainPairs rest] by blast
    with m' True \<open>v = v'\<close> show ?thesis by (simp add: loop start_unnamed)
  next
    case False
    then have "(k, v) \<in> set rest" "distinct (map fst rest)" "snd (main_loop new_mgr enemies chainPairs rest) = None"
      using Cons.prems by (simp_all only: loop snd_conv) (simp_all add: kv)
    from Cons.IH [OF this(3,2,1)] False show ?thesis unfolding loop by simp
  qed
qed simp

text \<open>It starts with empty logs and the maps of its chain.\<close>

definition fresh_mgr ::
    "(string \<Rightarrow> 'v abi option) \<Rightarrow> string \<Rightarrow> string \<Rightarrow> ('n, 'f) DexExecutorConfig \<Rightarrow> string \<Rightarrow> TtChainItem
      \<Rightarrow> ('tx, 'v) NodeMgr \<Rightarrow> bool" where
  "fresh_mgr abi_JSON uniData joeData gc k v n \<longleftrightarrow>
     nm_Signals n = [] \<and> nm_HeaderWsList n = [] \<and> nm_PendingTxList n = [] \<and> nm_Outbox n = [] \<and>
     nm_RouterMap n = newRouter (ci_Router v) \<and>
     nm_EnemiesMap n = enemies_map (map_get [] (map_of (gc_ChainEnemies gc)) (chain_name k)) \<and>
     pair_symbol_map (map_get [] (map_of (gc_ChainPairs gc)) (chain_name k)) = Inr (nm_PairSymbolMap n) \<and>
     nm_rDecoder n = NewRouterDecoder abi_JSON uniData joeData (addr_tokens (ci_Tokens v))"

lemma chain_mgr_fresh:
  assumes "chain_mgr (NewNodeMgr dial abi_JSON uniData joeData) (gc_ChainEnemies gc) (gc_ChainPairs gc) k v = Inr (c, n)"
  shows "fresh_mgr abi_JSON uniData joeData gc k v n"
  using assms by (auto simp: chain_mgr_def NewNodeMgr_def go_bind_def fresh_mgr_def split: sum.splits option.splits)

text \<open>
  Every configured chain of a program that came through \<open>main\<close> keeps the invariant of its
  channel and its manager, from a manager that starts on the chain's maps.
\<close>

lemma program_chain:
  assumes "main new_logger dial abi_JSON uniData joeData gc = (acts, None)"
    and "distinct (map fst (gc_ChainConfig gc))" and "(k, v) \<in> set (gc_ChainConfig gc)"
    and "prog_run matches (started (map fst (gc_ChainConfig gc)) acts) tr p"
  obtains n where "fresh_mgr abi_JSON uniData joeData gc k v n" and "chain_inv k (Execute n) tr p"
proof -
  let ?p = "started (map fst (gc_ChainConfig gc)) acts"
  note loop = main_through [OF assms(1)]
  note returns = arg_cong [OF loop, of snd, unfolded snd_conv]
  from start_main_loop [OF returns assms(2,3), of "boot (map fst (gc_ChainConfig gc))"]
  obtain c n where mgr: "chain_mgr (NewNodeMgr dial abi_JSON uniData joeData) (gc_ChainEnemies gc) (gc_ChainPairs gc) k v = Inr (c, n)"
    and start: "pr_mgrs ?p k = Some (Execute n)"
    by (auto simp: started_def loop)
  have "k \<in> set (map fst (gc_ChainConfig gc))" using assms(3) by force
  then have "pr_chans ?p k = Some []" by (simp add: started_def start_chans init_chan)
  from chain_inv_run [OF assms(4) start this] chain_mgr_fresh [OF mgr] that show ?thesis by blast
qed

section \<open>Start-up\<close>

text \<open>
  The process: \<open>init\<close> of \<open>config\<close>, which has the configuration before \<open>init\<close> of \<open>core\<close> makes
  the channels from its chains, and then \<open>main\<close>.
\<close>

definition launch ::
    "(string \<Rightarrow> ('n, 'f) DexExecutorConfig option) \<Rightarrow> (string \<Rightarrow> (string \<times> TtChainItem) list option)
      \<Rightarrow> (string \<Rightarrow> 'f pairs_map option) \<Rightarrow> (string \<Rightarrow> dir_entry list option)
      \<Rightarrow> (logger_params \<Rightarrow> 'log option) \<Rightarrow> (string \<Rightarrow> 'c option) \<Rightarrow> (string \<Rightarrow> 'v abi option) \<Rightarrow> string \<Rightarrow> string
      \<Rightarrow> (('tx, 'v) program \<times> go_panic option) go" where
  "launch sdk_load cli_load unmarshal read_dir new_logger dial abi_JSON uniData joeData =
     go_bind (config_init sdk_load cli_load unmarshal read_dir) (\<lambda>gc.
       case main new_logger dial abi_JSON uniData joeData gc of
         (acts, r) \<Rightarrow> Inr (started (map fst (gc_ChainConfig gc)) acts, r))"

lemma main_loop_returns:
  "snd (main_loop new_mgr enemies chainPairs items) = None \<longleftrightarrow>
    (\<forall>(k, v) \<in> set items. \<exists>m. chain_mgr new_mgr enemies chainPairs k v = Inr m)"
proof (induction items)
  case (Cons kv rest)
  obtain k v where kv: "kv = (k, v)" by (cases kv)
  show ?case
  proof (cases "chain_mgr new_mgr enemies chainPairs k v")
    case (Inl p)
    then show ?thesis by (simp add: kv Let_def chain_mgr_def)
  next
    case (Inr m)
    then have "snd (main_loop new_mgr enemies chainPairs (kv # rest)) = snd (main_loop new_mgr enemies chainPairs rest)"
      by (simp add: kv Let_def chain_mgr_def prod.case_eq_if)
    with Inr Cons show ?thesis by (simp add: kv)
  qed
qed simp

lemma chain_mgr_starts:
  "(\<exists>m. chain_mgr (NewNodeMgr dial abi_JSON uniData joeData) enemies chainPairs k v = Inr m) \<longleftrightarrow>
    dial (ci_Endpoint v) \<noteq> None \<and> dial (ci_WsEndpoint v) \<noteq> None \<and>
    (\<forall>p \<in> set (map_get [] (map_of chainPairs) (chain_name k)). CHR ''@'' \<in> set (fst p))"
  by (auto simp: chain_mgr_def pair_symbol_map_eq NewNodeMgr_def NewDexNodeClient_def split: option.split)

lemma launch_returns:
  "(\<exists>p. launch sdk_load cli_load unmarshal read_dir new_logger dial abi_JSON uniData joeData = Inr (p, None)) \<longleftrightarrow>
   (\<exists>gc. config_init sdk_load cli_load unmarshal read_dir = Inr gc \<and>
      new_logger (logger_args (gc_LogPath gc) (gc_LogLevel gc)) \<noteq> None \<and>
      (\<forall>(k, v) \<in> set (gc_ChainConfig gc). dial (ci_Endpoint v) \<noteq> None \<and> dial (ci_WsEndpoint v) \<noteq> None \<and>
         (\<forall>p \<in> set (map_get [] (map_of (gc_ChainPairs gc)) (chain_name k)). CHR ''@'' \<in> set (fst p))))"
  by (simp add: launch_def go_simps prod.case_eq_if main_def InitLogger_def sum.case_eq_if option.case_eq_if)
    (simp only: prod_eq_iff snd_conv main_loop_returns chain_mgr_starts, auto simp: prod.case_eq_if)

section \<open>Panics of the handlers\<close>

text \<open>
  A broker that delivers a message under the subject it was subscribed with, and chain keys
  without a dot or a brace.
\<close>

definition plain_keys :: "('n, 'f) DexExecutorConfig \<Rightarrow> bool" where
  "plain_keys gc \<longleftrightarrow> (\<forall>k \<in> fst ` set (gc_ChainConfig gc). CHR ''.'' \<notin> set k \<and> CHR ''{'' \<notin> set k)"

lemma started_subs:
  assumes "main new_logger dial abi_JSON uniData joeData gc = (acts, r)" and "sub \<in> set (pr_subs (started keys acts))"
  shows "\<exists>k \<in> fst ` set (gc_ChainConfig gc). sub = signal_key k"
proof -
  have "GoSubscribe sub \<in> set acts"
    using assms(2) by (simp add: started_def start_subs)
  with main_acts [OF assms(1)] show ?thesis by (elim disjE) (simp, simp only:, rule main_loop_subs)
qed

lemma plain_delivery:
  assumes "CHR ''.'' \<notin> set k" and "CHR ''{'' \<notin> set k"
  shows "snd (SignalMsgHandler (signal_key k) data chans) = None"
    and "routed k' (Delivered (signal_key k) data) = (if k' = k then Some data else None)"
  using assms by (auto simp: SignalMsgHandler_def signal_key_parts go_index_def split: option.split)

lemma step_subs: "prog_step matches p e q \<Longrightarrow> pr_subs q = pr_subs p"
  by (induction rule: prog_step.induct) simp_all

lemma run_subs: "prog_run matches p tr q \<Longrightarrow> pr_subs q = pr_subs p"
  by (induction rule: prog_run.induct) (simp_all add: step_subs)

lemma run_no_panic:
  assumes "prog_run (=) p tr q" and "\<not> pr_crashed p"
    and "\<And>sub. sub \<in> set (pr_subs p) \<Longrightarrow> \<exists>k. sub = signal_key k \<and> CHR ''.'' \<notin> set k \<and> CHR ''{'' \<notin> set k"
  shows "\<not> pr_crashed q"
  using assms
proof (induction rule: prog_run.induct)
  case (prog_snoc p tr q e q')
  from prog_snoc.hyps(2) show ?case
  proof (cases rule: prog_step.cases)
    case (deliver sub subject data chans r)
    then obtain k where "subject = signal_key k" "CHR ''.'' \<notin> set k" "CHR ''{'' \<notin> set k"
      using prog_snoc.prems(2) run_subs [OF prog_snoc.hyps(1)] by auto
    with deliver plain_delivery(1) [of k data "pr_chans q"] show ?thesis by simp
  qed (use prog_snoc in simp_all)
qed simp

lemma run_delivers:
  assumes "prog_run (=) p tr q" and "Delivered subject data \<in> set tr"
    and "\<And>sub. sub \<in> set (pr_subs p) \<Longrightarrow> P sub"
  shows "P subject"
  using assms
proof (induction rule: prog_run.induct)
  case (prog_snoc p tr q e q')
  show ?case
  proof (cases "Delivered subject data \<in> set tr")
    case True
    then show ?thesis using prog_snoc.IH prog_snoc.prems(2) by blast
  next
    case False
    with prog_snoc.prems(1) have "e = Delivered subject data" by simp
    with prog_snoc.hyps(2) have "subject \<in> set (pr_subs q)" by (auto elim: prog_step.cases)
    then show ?thesis using prog_snoc.prems(2) run_subs [OF prog_snoc.hyps(1)] by simp
  qed
qed simp

lemma signal_key_inject:
  assumes "CHR ''.'' \<notin> set k" "CHR ''{'' \<notin> set k" "CHR ''.'' \<notin> set k'" "CHR ''{'' \<notin> set k'"
  shows "signal_key k = signal_key k' \<longleftrightarrow> k = k'"
proof
  assume "signal_key k = signal_key k'"
  then have "[''cexdex'', ''hedge'', ''signal'', chain_name k, k] = [''cexdex'', ''hedge'', ''signal'', chain_name k', k']"
    using signal_key_parts [OF assms(2,1)] signal_key_parts [OF assms(4,3)] by metis
  then show "k = k'" by blast
qed simp

lemma map_filter_cong:
  "(\<And>x. x \<in> set xs \<Longrightarrow> f x = g x) \<Longrightarrow> List.map_filter f xs = List.map_filter g xs"
  by (induction xs) (auto simp: map_filter_simps split: option.split)

section \<open>Waiting messages\<close>

lemma prog_append:
  "prog_run matches q tr' r \<Longrightarrow> prog_run matches p tr q \<Longrightarrow> prog_run matches p (tr @ tr') r"
proof (induction rule: prog_run.induct)
  case (prog_snoc q tr' r e r')
  then show ?case by (metis append.assoc prog_run.prog_snoc)
qed simp

lemma prog_one: "prog_step matches p e q \<Longrightarrow> prog_run matches p [e] q"
  using prog_run.prog_snoc [OF prog_run.prog_refl] by fastforce

text \<open>A loop that recovers starts again, then the message that waits longest is received.\<close>

lemma receive_next:
  assumes "\<not> pr_crashed p" and "pr_mgrs p k = Some s" and "pr_chans p k = Some (data # waiting)"
  obtains tr q s' where "prog_run matches p tr q" and "length tr \<le> 2" and "signal_texts (chain_run k tr) = [data]"
    and "\<not> pr_crashed q" and "pr_mgrs q k = Some s'" and "pr_chans q k = Some waiting"
proof -
  have receive: "\<exists>s'. prog_step matches p (Received k env data)
      (p\<lparr>pr_chans := (pr_chans p)(k \<mapsto> waiting), pr_mgrs := (pr_mgrs p)(k \<mapsto> s')\<rparr>)"
    if "\<not> pr_crashed p" "pr_mgrs p k = Some s" "pr_chans p k = Some (data # waiting)" "sy_ga s = Running" for p s env
    using prog_step.receive [OF that(1-3) ga_signal [OF that(4)]] by blast
  show ?thesis
  proof (cases "sy_ga s")
    case Running
    with receive assms obtain s' where "prog_step matches p (Received k undefined data)
      (p\<lparr>pr_chans := (pr_chans p)(k \<mapsto> waiting), pr_mgrs := (pr_mgrs p)(k \<mapsto> s')\<rparr>)" by blast
    from prog_one [OF this] show ?thesis
      by (rule that) (use assms(1) in \<open>simp_all add: chain_run_def signal_texts_def map_filter_simps\<close>)
  next
    case Recovering
    let ?p = "p\<lparr>pr_mgrs := (pr_mgrs p)(k \<mapsto> s\<lparr>sy_ga := Running\<rparr>)\<rparr>"
    have restart: "prog_step matches p (Happened k undefined GaRestart) ?p"
      by (rule happen [OF assms(1,2) _ ga_restart [OF Recovering]]) simp
    obtain s' where "prog_step matches ?p (Received k undefined data)
      (?p\<lparr>pr_chans := (pr_chans ?p)(k \<mapsto> waiting), pr_mgrs := (pr_mgrs ?p)(k \<mapsto> s')\<rparr>)"
      using receive [of ?p "s\<lparr>sy_ga := Running\<rparr>"] assms by auto
    from prog_append [OF prog_one [OF this] prog_one [OF restart]] show ?thesis
      by (rule that) (use assms(1) in \<open>simp_all add: chain_run_def signal_texts_def map_filter_simps\<close>)
  qed
qed

lemma signal_texts_chain_append:
  "signal_texts (chain_run k (tr @ tr')) = signal_texts (chain_run k tr) @ signal_texts (chain_run k tr')"
  by (simp add: chain_run_def signal_texts_def List.map_filter_def)

lemma receive_all:
  assumes "\<not> pr_crashed p" and "pr_mgrs p k = Some s" and "pr_chans p k = Some waiting"
  shows "\<exists>tr q. prog_run matches p tr q \<and> length tr \<le> 2 * length waiting \<and>
    signal_texts (chain_run k tr) = waiting \<and> pr_chans q k = Some []"
  using assms
proof (induction waiting arbitrary: p s)
  case Nil
  then show ?case by (intro exI [of _ "[]"] exI [of _ p]) (simp add: prog_run.prog_refl)
next
  case (Cons data waiting)
  obtain tr q s' where 1: "prog_run matches p tr q" "length tr \<le> 2" "signal_texts (chain_run k tr) = [data]"
    "\<not> pr_crashed q" "pr_mgrs q k = Some s'" "pr_chans q k = Some waiting"
    by (rule receive_next [OF Cons.prems, where matches = matches])
  from Cons.IH [OF 1(4-6)] obtain tr' q' where 2: "prog_run matches q tr' q'" "length tr' \<le> 2 * length waiting"
    "signal_texts (chain_run k tr') = waiting" "pr_chans q' k = Some []" by blast
  from prog_append [OF 2(1) 1(1)] 1(2,3) 2(2-4) show ?case
    by (intro exI [of _ "tr @ tr'"] exI [of _ q']) (simp add: signal_texts_chain_append)
qed

end
