(* ===== verification/Program_Startup.thy ===== *)
theory Program_Startup
  imports Program
begin

text \<open>
  The start-up of the program beside the goroutines it has started already. \<open>main\<close> goes
  through the chains one after the other; a goroutine it starts begins at any later time;
  messages, transactions and headers come in as soon as there is somebody to take them; and
  when \<open>main\<close> panics at a chain the process ends, with what the earlier chains have done.
  Every such execution is shown to be one of the program that has started everything first.
\<close>

section \<open>Go statements that have not been reached, and goroutines that have not begun\<close>

record ('c, 'tx, 'v) booting =
  bo_prog :: "('tx, 'v) program"
  bo_left :: "('c NodeClient \<times> ('tx, 'v) NodeMgr) action list"
  bo_spawned :: "('c NodeClient \<times> ('tx, 'v) NodeMgr) action list"
  bo_dead :: bool

definition booting_start ::
    "string list \<Rightarrow> ('c NodeClient \<times> ('tx, 'v) NodeMgr) action list \<Rightarrow> ('c, 'tx, 'v) booting" where
  "booting_start keys acts = \<lparr> bo_prog = boot keys, bo_left = acts, bo_spawned = [], bo_dead = False \<rparr>"

definition bo_alive :: "('c, 'tx, 'v) booting \<Rightarrow> bool" where
  "bo_alive b \<longleftrightarrow> \<not> bo_dead b \<and> \<not> pr_crashed (bo_prog b)"

text \<open>
  \<open>r\<close> is how \<open>main\<close> ends: with a panic, or in the \<open>select\<close> that waits for ever. A step is
  labelled with the event it takes, if it takes one.
\<close>

inductive boot_step ::
    "(string \<Rightarrow> string \<Rightarrow> bool) \<Rightarrow> go_panic option \<Rightarrow> ('c, 'tx, 'v) booting \<Rightarrow> ('tx, 'v) program_event option
      \<Rightarrow> ('c, 'tx, 'v) booting \<Rightarrow> bool"
  for matches r where
  go_statement: "\<lbrakk> bo_alive b; bo_left b = a # left \<rbrakk>
    \<Longrightarrow> boot_step matches r b None (b\<lparr>bo_left := left, bo_spawned := bo_spawned b @ [a]\<rparr>)"
| begins: "\<lbrakk> bo_alive b; bo_spawned b = xs @ a # ys \<rbrakk>
    \<Longrightarrow> boot_step matches r b None (b\<lparr>bo_prog := start_action a (bo_prog b), bo_spawned := xs @ ys\<rparr>)"
| main_panics: "\<lbrakk> bo_alive b; bo_left b = []; r = Some p \<rbrakk>
    \<Longrightarrow> boot_step matches r b None (b\<lparr>bo_dead := True\<rparr>)"
| takes: "\<lbrakk> bo_alive b; prog_step matches (bo_prog b) e q \<rbrakk>
    \<Longrightarrow> boot_step matches r b (Some e) (b\<lparr>bo_prog := q\<rparr>)"

inductive boot_run ::
    "(string \<Rightarrow> string \<Rightarrow> bool) \<Rightarrow> go_panic option \<Rightarrow> ('c, 'tx, 'v) booting \<Rightarrow> ('tx, 'v) program_event list
      \<Rightarrow> ('c, 'tx, 'v) booting \<Rightarrow> bool"
  for matches r where
  boot_refl: "boot_run matches r b [] b"
| boot_snoc: "boot_run matches r b tr c \<Longrightarrow> boot_step matches r c oe c' \<Longrightarrow> boot_run matches r b (tr @ opt_list oe) c'"

section \<open>The program that has started everything\<close>

definition action_keys :: "'m action list \<Rightarrow> string list" where
  "action_keys acts = List.map_filter (\<lambda>a. case a of GoSubscribe key \<Rightarrow> None | GoExecute k m \<Rightarrow> Some k) acts"

lemma action_keys_simps [simp]:
  "action_keys [] = []"
  "action_keys (GoSubscribe key # acts) = action_keys acts"
  "action_keys (GoExecute k m # acts) = k # action_keys acts"
  by (simp_all add: action_keys_def map_filter_simps)

lemma action_keys_append [simp]: "action_keys (acts @ acts') = action_keys acts @ action_keys acts'"
  by (simp add: action_keys_def List.map_filter_def)

lemma action_keys_member: "GoExecute k m \<in> set acts \<Longrightarrow> k \<in> set (action_keys acts)"
proof (induction acts)
  case (Cons a acts)
  then show ?case by (cases a) auto
qed simp

lemma set_action_keys: "k \<in> set (action_keys acts) \<longleftrightarrow> (\<exists>m. GoExecute k m \<in> set acts)"
proof (induction acts)
  case (Cons a acts)
  then show ?case by (cases a) auto
qed simp

lemma action_keys_main_loop:
  "distinct (map fst items) \<Longrightarrow> distinct (action_keys (fst (main_loop new_mgr enemies chainPairs items)))"
proof (induction items)
  case (Cons kv rest)
  then show ?case
    using main_loop_keys [of "fst kv" _ new_mgr enemies chainPairs rest]
    by (cases kv) (auto simp: Let_def set_action_keys split: sum.split prod.split)
qed simp

lemma start_named:
  assumes "distinct (action_keys acts)" and "GoExecute k m \<in> set acts"
  shows "pr_mgrs (fold start_action acts p) k = Some (Execute (snd m))"
  using assms
proof (induction acts arbitrary: p)
  case (Cons a acts)
  show ?case
  proof (cases "a = GoExecute k m")
    case True
    with Cons.prems(1) have "GoExecute k m' \<notin> set acts" for m' using action_keys_member by fastforce
    with True show ?thesis by (simp add: start_unnamed)
  next
    case False
    with Cons show ?thesis by (cases a) auto
  qed
qed simp

text \<open>
  What has begun is what the other program has, and what is still to begin waits there in
  its first state.
\<close>

fun awaited :: "('tx, 'v) program \<Rightarrow> ('tx, 'v) program \<Rightarrow> ('c NodeClient \<times> ('tx, 'v) NodeMgr) action \<Rightarrow> bool" where
  "awaited p q (GoSubscribe key) = (key \<in> set (pr_subs q))"
| "awaited p q (GoExecute k m) = (pr_mgrs p k = None \<and> pr_mgrs q k = Some (Execute (snd m)))"

definition part_of :: "('tx, 'v) program \<Rightarrow> ('tx, 'v) program \<Rightarrow> bool" where
  "part_of p q \<longleftrightarrow> set (pr_subs p) \<subseteq> set (pr_subs q) \<and> pr_chans p = pr_chans q \<and>
     pr_crashed p = pr_crashed q \<and> pr_mgrs p \<subseteq>\<^sub>m pr_mgrs q"

definition leads :: "('c, 'tx, 'v) booting \<Rightarrow> ('tx, 'v) program \<Rightarrow> bool" where
  "leads b q \<longleftrightarrow> part_of (bo_prog b) q \<and> distinct (action_keys (bo_spawned b @ bo_left b)) \<and>
     (\<forall>a \<in> set (bo_spawned b @ bo_left b). awaited (bo_prog b) q a)"

lemma leads_start:
  assumes "distinct (action_keys acts)"
  shows "leads (booting_start keys acts) (started keys acts)"
proof -
  have "awaited (boot keys) (started keys acts) a" if "a \<in> set acts" for a
  proof (cases a)
    case (GoSubscribe key)
    with that show ?thesis by (simp only: awaited.simps started_def start_subs) simp
  next
    case (GoExecute k m)
    with that assms show ?thesis by (simp only: awaited.simps started_def start_named) simp
  qed
  then show ?thesis
    using assms by (simp add: leads_def part_of_def booting_start_def started_def start_chans start_crashed)
qed

lemma part_of_begins:
  "part_of p q \<Longrightarrow> awaited p q a \<Longrightarrow> part_of (start_action a p) q"
  by (cases a) (auto simp: part_of_def StartNatsSubscribe_def map_le_def)

lemma awaited_begins:
  "awaited p q b \<Longrightarrow> distinct (action_keys [a, b]) \<Longrightarrow> awaited (start_action a p) q b"
  by (cases a; cases b) auto

lemma leads_begins:
  assumes "leads b q" and "bo_spawned b = xs @ a # ys"
  shows "leads (b\<lparr>bo_prog := start_action a (bo_prog b), bo_spawned := xs @ ys\<rparr>) q"
proof -
  have "awaited (bo_prog b) q a" using assms by (simp add: leads_def)
  moreover have "awaited (start_action a (bo_prog b)) q c" if "c \<in> set (xs @ ys @ bo_left b)" for c
  proof (rule awaited_begins)
    show "awaited (bo_prog b) q c" using that assms by (auto simp: leads_def)
    have "set (action_keys [c]) \<subseteq> set (action_keys (xs @ ys @ bo_left b))"
    proof (cases c)
      case (GoExecute k m)
      with action_keys_member [of k m] that show ?thesis by (metis action_keys_simps(1,3) empty_set list.simps(15) singletonD subsetI)
    qed simp
    with assms show "distinct (action_keys [a, c])"
      by (cases a; cases c) (auto simp: leads_def)
  qed
  moreover have "distinct (action_keys (xs @ ys @ bo_left b))"
    using assms by (cases a) (auto simp: leads_def)
  moreover have "part_of (bo_prog b) q" using assms(1) by (simp add: leads_def)
  ultimately show ?thesis by (simp add: leads_def part_of_begins)
qed

lemma part_of_mgr: "part_of p q \<Longrightarrow> pr_mgrs p k = Some s \<Longrightarrow> pr_mgrs q k = Some s"
  by (metis domI map_le_def part_of_def)

text \<open>What a step of the smaller program does, the same event does in the larger one.\<close>

lemma part_of_step:
  assumes "prog_step matches p e p'" and "part_of p q"
  shows "\<exists>q'. prog_step matches q e q' \<and> part_of p' q' \<and> pr_subs q' = pr_subs q \<and>
    (\<forall>k. pr_mgrs p k = None \<longrightarrow> pr_mgrs p' k = None \<and> pr_mgrs q' k = pr_mgrs q k)"
  using assms(1)
proof (cases rule: prog_step.cases)
  case (deliver sub subject data chans r)
  let ?q = "q\<lparr>pr_chans := chans, pr_crashed := r \<noteq> None\<rparr>"
  from deliver assms(2) have "prog_step matches q e ?q"
    unfolding deliver(1) by (intro prog_step.deliver) (auto simp: part_of_def)
  with deliver assms(2) show ?thesis by (intro exI [of _ ?q]) (auto simp: part_of_def map_le_def)
next
  case (receive k s data waiting env s')
  have "pr_mgrs q k = Some s" by (rule part_of_mgr [OF assms(2)]) (use receive in simp)
  let ?q = "q\<lparr>pr_chans := (pr_chans q)(k \<mapsto> waiting), pr_mgrs := (pr_mgrs q)(k \<mapsto> s')\<rparr>"
  from \<open>pr_mgrs q k = Some s\<close> receive assms(2) have "prog_step matches q e ?q"
    unfolding receive(1) by (intro prog_step.receive) (auto simp: part_of_def)
  with receive assms(2) show ?thesis by (intro exI [of _ ?q]) (auto simp: part_of_def map_le_def)
next
  case (happen k s ev env s')
  have "pr_mgrs q k = Some s" by (rule part_of_mgr [OF assms(2)]) (use happen in simp)
  let ?q = "q\<lparr>pr_mgrs := (pr_mgrs q)(k \<mapsto> s')\<rparr>"
  from \<open>pr_mgrs q k = Some s\<close> happen assms(2) have "prog_step matches q e ?q"
    unfolding happen(1) by (intro prog_step.happen) (auto simp: part_of_def)
  with happen assms(2) show ?thesis by (intro exI [of _ ?q]) (auto simp: part_of_def map_le_def)
qed

lemma awaited_stays:
  assumes "awaited p q a" and "pr_subs q' = pr_subs q"
    and "\<And>k. pr_mgrs p k = None \<Longrightarrow> pr_mgrs p' k = None \<and> pr_mgrs q' k = pr_mgrs q k"
  shows "awaited p' q' a"
  using assms by (cases a) auto

lemma leads_step:
  assumes "boot_step matches r b oe c" and "leads b q"
  shows "\<exists>q'. leads c q' \<and> (case oe of None \<Rightarrow> q' = q | Some e \<Rightarrow> prog_step matches q e q')"
  using assms(1)
proof (cases rule: boot_step.cases)
  case (go_statement a left)
  with assms(2) show ?thesis by (auto simp: leads_def)
next
  case (begins xs a ys)
  with leads_begins [OF assms(2)] show ?thesis by auto
next
  case (main_panics p)
  with assms(2) show ?thesis by (auto simp: leads_def)
next
  case (takes e p')
  from assms(2) have "part_of (bo_prog b) q" by (simp add: leads_def)
  from part_of_step [OF takes(4) this] obtain q' where q': "prog_step matches q e q'" "part_of p' q'" "pr_subs q' = pr_subs q"
    "\<And>k. pr_mgrs (bo_prog b) k = None \<Longrightarrow> pr_mgrs p' k = None \<and> pr_mgrs q' k = pr_mgrs q k" by blast
  have c: "bo_prog c = p'" "bo_spawned c = bo_spawned b" "bo_left c = bo_left b" by (simp_all add: takes(2))
  have "leads c q'"
    unfolding leads_def c
  proof (intro conjI ballI)
    show "distinct (action_keys (bo_spawned b @ bo_left b))" using assms(2) unfolding leads_def by blast
    show "awaited p' q' a" if "a \<in> set (bo_spawned b @ bo_left b)" for a
    proof (rule awaited_stays [OF _ q'(3,4)])
      show "awaited (bo_prog b) q a" using that assms(2) unfolding leads_def by blast
    qed
  qed (rule q'(2))
  with q'(1) takes(1) show ?thesis by auto
qed

lemma boot_simulated:
  assumes "boot_run matches r b tr c" and "leads b q"
  shows "\<exists>q'. prog_run matches q tr q' \<and> leads c q'"
  using assms
proof (induction rule: boot_run.induct)
  case (boot_refl b)
  then show ?case using prog_refl by blast
next
  case (boot_snoc b tr c oe c')
  from boot_snoc.IH [OF boot_snoc.prems] obtain q1 where q1: "prog_run matches q tr q1" "leads c q1" by blast
  from leads_step [OF boot_snoc.hyps(2) q1(2)] obtain q2 where "leads c' q2"
    "case oe of None \<Rightarrow> q2 = q1 | Some e \<Rightarrow> prog_step matches q1 e q2" by blast
  then show ?case using q1(1) by (cases oe) (auto intro: prog_snoc)
qed

section \<open>Starting everything first is one of the executions\<close>

lemma boot_starts_some:
  "boot_run matches r (booting_start keys (begun @ left)) []
     \<lparr> bo_prog = started keys begun, bo_left = left, bo_spawned = [], bo_dead = False \<rparr>"
proof (induction begun arbitrary: left rule: rev_induct)
  case Nil
  show ?case using boot_refl by (simp add: booting_start_def started_def)
next
  case (snoc a begun)
  let ?b = "\<lparr> bo_prog = started keys begun, bo_left = a # left, bo_spawned = [], bo_dead = False \<rparr>"
  let ?c = "?b\<lparr>bo_left := left, bo_spawned := [a]\<rparr>"
  have alive: "bo_alive ?b" "bo_alive ?c" by (simp_all add: bo_alive_def started_def start_crashed)
  have one: "boot_step matches r ?b None ?c"
    using go_statement [OF alive(1), of a left matches r] by simp
  have two: "boot_step matches r ?c None (?c\<lparr>bo_prog := start_action a (started keys begun), bo_spawned := []\<rparr>)"
    using begins [OF alive(2), of "[]" a "[]" matches r] by simp
  have "boot_run matches r (booting_start keys (begun @ a # left)) [] ?b" by (rule snoc)
  from boot_snoc [OF boot_snoc [OF this one] two] show ?case by (simp add: started_def)
qed

lemma boot_takes_all:
  assumes "prog_run matches p tr q" and "boot_run matches r b0 tr0 b" and "bo_prog b = p" and "\<not> bo_dead b"
  shows "boot_run matches r b0 (tr0 @ tr) (b\<lparr>bo_prog := q\<rparr>)"
  using assms
proof (induction rule: prog_run.induct)
  case (prog_refl p)
  then show ?case by auto
next
  case (prog_snoc p tr q e q')
  then have run: "boot_run matches r b0 (tr0 @ tr) (b\<lparr>bo_prog := q\<rparr>)" by blast
  have "\<not> pr_crashed q" using prog_snoc.hyps(2) by (auto elim: prog_step.cases)
  then have "boot_step matches r (b\<lparr>bo_prog := q\<rparr>) (Some e) ((b\<lparr>bo_prog := q\<rparr>)\<lparr>bo_prog := q'\<rparr>)"
    using prog_snoc.hyps(2) prog_snoc.prems(3) by (intro takes) (simp_all add: bo_alive_def)
  from boot_snoc [OF run this] show ?case by simp
qed

lemma started_is_booting:
  assumes "prog_run matches (started keys acts) tr q"
  shows "\<exists>b. boot_run matches r (booting_start keys acts) tr b \<and> bo_prog b = q"
  using boot_takes_all [OF assms boot_starts_some [where left = "[]"]] by fastforce

section \<open>The chains of a program whose start-up may fail\<close>

lemma main_loop_executes:
  "GoExecute k m \<in> set (fst (main_loop new_mgr enemies chainPairs items)) \<Longrightarrow> distinct (map fst items) \<Longrightarrow>
    (k, v) \<in> set items \<Longrightarrow> chain_mgr new_mgr enemies chainPairs k v = Inr m"
proof (induction items)
  case (Cons kv rest)
  obtain k' v' where kv: "kv = (k', v')" by (cases kv)
  show ?case
  proof (cases "chain_mgr new_mgr enemies chainPairs k' v'")
    case (Inl p)
    then show ?thesis using Cons.prems(1) by (simp add: kv Let_def chain_mgr_def)
  next
    case (Inr m')
    then have in_loop: "(k = k' \<and> m = m') \<or> GoExecute k m \<in> set (fst (main_loop new_mgr enemies chainPairs rest))"
      using Cons.prems(1) by (auto simp: kv Let_def chain_mgr_def split: prod.splits)
    show ?thesis
    proof (cases "(k, v) = kv")
      case True
      then have "k \<notin> fst ` set rest" using Cons.prems(2) by (auto simp: kv)
      with in_loop main_loop_keys [of k m new_mgr enemies chainPairs rest] Inr True show ?thesis by (auto simp: kv)
    next
      case False
      then have "(k, v) \<in> set rest" using Cons.prems(3) by auto
      moreover from this have "k \<noteq> k'" using Cons.prems(2) by (force simp: kv)
      ultimately show ?thesis using in_loop Cons.IH Cons.prems(2) by auto
    qed
  qed
qed simp

lemma started_manager:
  "pr_mgrs (started keys acts) k = Some s \<Longrightarrow> \<exists>m. GoExecute k m \<in> set acts"
  using start_unnamed [of k acts "boot keys"] by (auto simp: started_def)

lemma run_mgrs: "prog_run matches p tr q \<Longrightarrow> dom (pr_mgrs q) = dom (pr_mgrs p)"
proof (induction rule: prog_run.induct)
  case (prog_snoc p tr q e q')
  from prog_snoc.hyps(2) have "dom (pr_mgrs q') = dom (pr_mgrs q)"
    by (cases rule: prog_step.cases) auto
  with prog_snoc.IH show ?case by simp
qed simp

lemma main_action_keys:
  assumes "main new_logger dial abi_JSON uniData joeData gc = (acts, r)" and "distinct (map fst (gc_ChainConfig gc))"
  shows "distinct (action_keys acts)"
  using main_acts [OF assms(1)] action_keys_main_loop [OF assms(2)] by auto

text \<open>
  A chain whose manager runs, whether \<open>main\<close> gets to its end or not, keeps the invariant of
  its channel and its manager.
\<close>

lemma booting_chain:
  assumes "main new_logger dial abi_JSON uniData joeData gc = (acts, r)"
    and "distinct (map fst (gc_ChainConfig gc))" and "(k, v) \<in> set (gc_ChainConfig gc)"
    and "boot_run matches r (booting_start (map fst (gc_ChainConfig gc)) acts) tr b"
    and "pr_mgrs (bo_prog b) k = Some s"
  obtains n where "fresh_mgr abi_JSON uniData joeData gc k v n" and "chain_inv k (Execute n) tr (bo_prog b)"
proof -
  let ?keys = "map fst (gc_ChainConfig gc)"
  have keys: "distinct (action_keys acts)" by (rule main_action_keys [OF assms(1,2)])
  obtain q where q: "prog_run matches (started ?keys acts) tr q" "leads b q"
    using boot_simulated [OF assms(4) leads_start [OF keys]] by blast
  then have part: "part_of (bo_prog b) q" by (simp add: leads_def)
  have "k \<in> dom (pr_mgrs (started ?keys acts))"
    using part_of_mgr [OF part assms(5)] run_mgrs [OF q(1)] by auto
  then obtain m where m: "GoExecute k m \<in> set acts" using started_manager by blast
  with main_acts [OF assms(1)] have "GoExecute k m \<in> set (fst (main_loop (NewNodeMgr dial abi_JSON uniData joeData)
      (gc_ChainEnemies gc) (gc_ChainPairs gc) (gc_ChainConfig gc)))" by auto
  note fresh = main_loop_executes [OF this assms(2,3)]
  obtain c n where n: "m = (c, n)" by (cases m)
  have "pr_mgrs (started ?keys acts) k = Some (Execute n)"
    using start_named [OF keys m] n by (simp add: started_def)
  moreover have "k \<in> set ?keys" using assms(3) by force
  then have "pr_chans (started ?keys acts) k = Some []" by (simp add: started_def start_chans init_chan)
  ultimately have "chain_inv k (Execute n) tr q" by (rule chain_inv_run [OF q(1)])
  then have "chain_inv k (Execute n) tr (bo_prog b)"
    using part part_of_mgr [OF part assms(5)] assms(5) by (auto simp: chain_inv_def part_of_def)
  moreover have "fresh_mgr abi_JSON uniData joeData gc k v n"
    using fresh n by (blast intro: chain_mgr_fresh)
  ultimately show ?thesis by (rule that [rotated])
qed

end
