(* ===== verification/Program_Properties.thy ===== *)
theory Program_Properties
  imports Program_Startup Sample_Chain
begin

text \<open>The properties of the program as a whole, from the configuration to the published orders.\<close>

section \<open>A sample program\<close>

definition sample_config :: "(unit, unit) DexExecutorConfig" where
  "sample_config =
     \<lparr> gc_LogPath = [], gc_LogLevel = [], gc_Env = [], gc_IsTest = False, gc_ProxyUrl = [], gc_NatsConfig = (),
       gc_ChainConfig = [(''avalanche_v1'',
         \<lparr> ci_Router = [], ci_Tokens = [], ci_Endpoint = ''rpc'', ci_WsEndpoint = ''ws'' \<rparr>)],
       gc_ChainEnemies = [(''avalanche'', [''0xENEMY''])],
       gc_ChainPairs = [(''avalanche'', [(''joe@AVAX/USDC'',
         \<lparr> pr_Contract = ''0xPair'', pr_Token0 = [], pr_Token1 = [], pr_ReverseTokenOrder = False, pr_RawFee = 0,
           pr_Fee = (), pr_Proto = [], pr_Factory = [], pr_Index = 0, pr_TickSpacing = 0, pr_BinStep = 0,
           pr_BaseFactor = 0, pr_FilterPeriod = 0, pr_DecayPeriod = 0, pr_ReductionFactor = 0,
           pr_VariableFeeControl = 0, pr_MaxVolatilityAccumulator = 0 \<rparr>)])] \<rparr>"

lemma sample_chain_name: "chain_name ''avalanche_v1'' = ''avalanche''"
  by (simp add: chain_name_def split_head_takeWhile)

lemma sample_pair_name: "pair_name_symbol ''joe@AVAX/USDC'' = ''avax_usdc''"
  by (simp add: pair_name_symbol_def split_second_def split_head_takeWhile go_replace.simps go_lower_def
      lower_char_def is_upper_def char_of_eq_iff)

lemma sample_lower: "go_lower ''0xPair'' = ''0xpair''" "go_lower ''0xENEMY'' = ''0xenemy''"
  by (simp_all add: go_lower_def lower_char_def is_upper_def char_of_eq_iff)

abbreviation sample_key :: string where
  "sample_key \<equiv> ''avalanche_v1''"

definition sample_acts :: "(nat NodeClient \<times> (nat, nat) NodeMgr) action list" where
  "sample_acts = [GoSubscribe (signal_key sample_key), GoExecute sample_key (sample_client, sample_mgr)]"

lemma sample_main: "main (\<lambda>_. Some ()) (\<lambda>_. Some 0) (\<lambda>_. None) [] [] sample_config = (sample_acts, None)"
  by (simp add: main_def InitLogger_def sample_config_def sample_acts_def sample_chain_name Let_def map_get_def pair_symbol_map_eq
      sample_pair_name sample_lower map_build_def NewNodeMgr_def NewDexNodeClient_def NewRouterDecoder_def
      newRouter_def enemies_map_def sample_client_def sample_mgr_def)

text \<open>The signal is delivered, the header arrives, the manager receives the signal and then the transaction.\<close>

definition sample_program_run :: "(nat, nat) program_event list" where
  "sample_program_run = [Delivered (signal_key sample_key) sample_text,
     Happened sample_key sample_env (HeadArrived (Some sample_header)),
     Received sample_key sample_env sample_text, Happened sample_key sample_env (TxArrived (Some 0))]"

abbreviation sample_started :: "(nat, nat) program" where
  "sample_started \<equiv> started [sample_key] sample_acts"

lemma sample_started:
  "pr_subs sample_started = [signal_key sample_key]" "pr_chans sample_started = [sample_key \<mapsto> []]"
  "pr_mgrs sample_started = [sample_key \<mapsto> sample_sys]" "\<not> pr_crashed sample_started"
  by (simp_all add: started_def sample_acts_def StartNatsSubscribe_def Execute_def sample_sys_def
      init_ReceiveSignalChan_def map_build_def)

lemma sample_delivery:
  "SignalMsgHandler (signal_key sample_key) sample_text [sample_key \<mapsto> []] = ([sample_key \<mapsto> [sample_text]], None)"
  by (simp add: SignalMsgHandler_def signal_key_parts go_index_def)

lemma sample_deliver:
  "prog_step (=) sample_started (Delivered (signal_key sample_key) sample_text)
     (sample_started\<lparr>pr_chans := [sample_key \<mapsto> [sample_text]], pr_crashed := False\<rparr>)"
  using deliver [of sample_started "signal_key sample_key" "(=)" "signal_key sample_key" sample_text]
    sample_delivery sample_started by simp

text \<open>The run, from any program in which the chain has its channel and its manager.\<close>

lemma sample_prog_run_from:
  assumes "\<not> pr_crashed p" and "signal_key sample_key \<in> set (pr_subs p)" and "pr_chans p sample_key = Some []"
    and "pr_mgrs p sample_key = Some sample_sys"
  shows "\<exists>q. prog_run (=) p sample_program_run q \<and> pr_mgrs q sample_key = Some (sample_sys\<lparr>sy_mgr := sample_done\<rparr>) \<and>
    \<not> pr_crashed q"
proof -
  let ?p1 = "p\<lparr>pr_chans := (pr_chans p)(sample_key \<mapsto> [sample_text]), pr_crashed := False\<rparr>"
  let ?h = "sample_sys\<lparr>sy_mgr := sample_mgr\<lparr>nm_HeaderWsList := [sample_header]\<rparr>\<rparr>"
  let ?p2 = "?p1\<lparr>pr_mgrs := (pr_mgrs ?p1)(sample_key \<mapsto> ?h)\<rparr>"
  let ?p3 = "?p2\<lparr>pr_chans := (pr_chans ?p2)(sample_key \<mapsto> []),
    pr_mgrs := (pr_mgrs ?p2)(sample_key \<mapsto> sample_sys\<lparr>sy_mgr := sample_ready\<rparr>)\<rparr>"
  have "SignalMsgHandler (signal_key sample_key) sample_text (pr_chans p) = ((pr_chans p)(sample_key \<mapsto> [sample_text]), None)"
    using assms(3) by (simp add: SignalMsgHandler_def signal_key_parts go_index_def)
  then have 1: "prog_step (=) p (Delivered (signal_key sample_key) sample_text) ?p1"
    using deliver [OF assms(1,2), of "(=)" "signal_key sample_key" sample_text] by simp
  have 2: "prog_step (=) ?p1 (Happened sample_key sample_env (HeadArrived (Some sample_header))) ?p2"
    by (rule happen [OF _ _ _ sample_steps(1)]) (simp_all add: assms)
  have 3: "prog_step (=) ?p2 (Received sample_key sample_env sample_text) ?p3"
    by (rule receive [OF _ _ _ sample_steps(2)]) simp_all
  have 4: "prog_step (=) ?p3 (Happened sample_key sample_env (TxArrived (Some 0)))
    (?p3\<lparr>pr_mgrs := (pr_mgrs ?p3)(sample_key \<mapsto> sample_sys\<lparr>sy_mgr := sample_done\<rparr>)\<rparr>)"
    by (rule happen [OF _ _ _ sample_steps(3)]) simp_all
  from prog_snoc [OF prog_snoc [OF prog_snoc [OF prog_snoc [OF prog_refl 1] 2] 3] 4]
  show ?thesis unfolding sample_program_run_def
    by (intro exI [of _ "?p3\<lparr>pr_mgrs := (pr_mgrs ?p3)(sample_key \<mapsto> sample_sys\<lparr>sy_mgr := sample_done\<rparr>)\<rparr>"]) simp
qed

lemma sample_prog_run: "\<exists>p. prog_run (=) sample_started sample_program_run p"
  using sample_prog_run_from [of sample_started] by (auto simp: sample_started)

section \<open>Start-up\<close>

text \<open>
  C14: the process comes through its start-up exactly when both loaders accept the
  configuration file, the directory of pair files and every file in it can be read and
  decoded, a logger can be made, and for every chain both of its endpoints can be dialled and every pair in the
  last file named after it has an at sign in its name. One chain that fails keeps the whole
  program from starting.
\<close>

theorem program_starts_iff:
  "(\<exists>p. launch sdk_load cli_load unmarshal read_dir new_logger dial abi_JSON uniData joeData = Inr (p, None)) \<longleftrightarrow>
   (\<exists>gc chains rd. sdk_load ''./conf/config.toml'' = Some gc \<and> cli_load ''./conf/config.toml'' = Some chains \<and>
      read_dir ''./conf/pairs'' = Some rd \<and> (\<forall>fi \<in> set (pair_files rd). readable unmarshal fi) \<and>
      new_logger (logger_args (gc_LogPath gc) (gc_LogLevel gc)) \<noteq> None \<and>
      (\<forall>(k, v) \<in> set chains. dial (ci_Endpoint v) \<noteq> None \<and> dial (ci_WsEndpoint v) \<noteq> None \<and>
         (\<forall>p \<in> set (pairs_of_chain unmarshal rd (chain_name k)). CHR ''@'' \<in> set (fst p))))"
  (is "_ \<longleftrightarrow> (\<exists>gc chains rd. ?R gc chains rd)")
proof
  assume "\<exists>p. launch sdk_load cli_load unmarshal read_dir new_logger dial abi_JSON uniData joeData = Inr (p, None)"
  then show "\<exists>gc chains rd. ?R gc chains rd"
    unfolding launch_returns config_init_returns
    using LoadPairsConfig_Some [of unmarshal] pairs_of_chain_loaded [of unmarshal] by fastforce
next
  assume "\<exists>gc chains rd. ?R gc chains rd"
  then obtain gc chains rd where R: "?R gc chains rd" by blast
  then obtain m where m: "LoadPairsConfig unmarshal (Some rd) = Inr m" by (auto simp: LoadPairsConfig_Some [symmetric])
  let ?gc = "gc\<lparr>gc_ChainConfig := chains, gc_ChainPairs := m\<rparr>"
  have "config_init sdk_load cli_load unmarshal read_dir = Inr ?gc"
    unfolding config_init_returns using R m by blast
  with R show "\<exists>p. launch sdk_load cli_load unmarshal read_dir new_logger dial abi_JSON uniData joeData = Inr (p, None)"
    unfolding launch_returns by (intro exI [of _ ?gc]) (simp add: pairs_of_chain_loaded [OF m])
qed

text \<open>
  The sample configuration, with one file of pairs: the program starts when the node answers,
  and does not without a logger or when its websocket endpoint cannot be dialled.
\<close>

definition sample_launch :: "(logger_params \<Rightarrow> logger_params option) \<Rightarrow> (string \<Rightarrow> nat option) \<Rightarrow> ((nat, nat) program \<times> go_panic option) go" where
  "sample_launch new_logger dial =
     launch (\<lambda>_. Some sample_config) (\<lambda>_. Some (gc_ChainConfig sample_config))
       (\<lambda>_. map_of (gc_ChainPairs sample_config) ''avalanche'')
       (\<lambda>_. Some [\<lparr> de_Name = ''avalanche.json'', de_IsDir = False, de_Content = Some ''pairs'' \<rparr>])
       new_logger dial (\<lambda>_. None) [] []"

theorem program_starts_iff_witness:
  "(\<exists>p. sample_launch Some (\<lambda>_. Some 0) = Inr (p, None)) \<and>
   \<not> (\<exists>p. sample_launch (\<lambda>_. None) (\<lambda>_. Some 0) = Inr (p, None)) \<and>
   \<not> (\<exists>p. sample_launch Some (\<lambda>url. if url = ''ws'' then None else Some 0) = Inr (p, None))"
  unfolding sample_launch_def program_starts_iff
  by (simp add: sample_config_def pair_files_def readable_def pairs_of_chain_def chain_of_file_def sample_chain_name
      split_head_takeWhile)

section \<open>From the configuration to the orders\<close>

text \<open>
  C2: in every run of the program \<open>main\<close> started, the manager of a chain publishes exactly the
  orders specified by the events of its chain, from the maps the chain is configured with;
  and the signals it received are, without loss and in order, the messages delivered for the
  chain, but for those whose handlers still wait.
\<close>

theorem program_publishes_expected_orders:
  assumes "main new_logger dial abi_JSON uniData joeData gc = (acts, None)"
    and "distinct (map fst (gc_ChainConfig gc))" and "(k, v) \<in> set (gc_ChainConfig gc)"
    and "prog_run matches (started (map fst (gc_ChainConfig gc)) acts) tr p"
  shows "\<exists>n s waiting. fresh_mgr abi_JSON uniData joeData gc k v n \<and>
    pr_mgrs p k = Some s \<and> nm_Outbox (sy_mgr s) = expected_orders n (chain_run k tr) \<and>
    pr_chans p k = Some waiting \<and> delivered_to k tr = signal_texts (chain_run k tr) @ waiting"
proof -
  obtain n where n: "fresh_mgr abi_JSON uniData joeData gc k v n" and "chain_inv k (Execute n) tr p"
    by (rule program_chain [OF assms])
  then obtain s waiting where s: "pr_mgrs p k = Some s" "pr_chans p k = Some waiting"
    "sys_run (Execute n) (chain_run k tr) s" "delivered_to k tr = signal_texts (chain_run k tr) @ waiting"
    by (auto simp: chain_inv_def)
  from run_expected_orders [OF s(3)] n have "nm_Outbox (sy_mgr s) = expected_orders n (chain_run k tr)"
    by (simp add: Execute_def fresh_mgr_def)
  with n s show ?thesis by blast
qed

text \<open>In the sample run the one order is that of the sample signal.\<close>

lemma sample_chain_run: "chain_run sample_key sample_program_run = sample_run"
  by (simp add: chain_run_def sample_program_run_def sample_run_def map_filter_simps)

theorem program_publishes_expected_orders_witness:
  "\<exists>p n s. nm_EnemiesMap n = [''0xenemy'' \<mapsto> True] \<and> prog_run (=) sample_started sample_program_run p \<and> pr_mgrs p sample_key = Some s \<and>
     nm_Outbox (sy_mgr s) = expected_orders n sample_run \<and> pr_chans p sample_key = Some []"
proof -
  obtain p where p: "prog_run (=) sample_started sample_program_run p" using sample_prog_run by blast
  let ?v = "\<lparr> ci_Router = [], ci_Tokens = [], ci_Endpoint = ''rpc'', ci_WsEndpoint = ''ws'' \<rparr>"
  have gc: "gc_ChainConfig sample_config = [(sample_key, ?v)]" by (simp add: sample_config_def)
  have texts: "signal_texts sample_run = [sample_text]" "delivered_to sample_key sample_program_run = [sample_text]"
    by (simp_all add: signal_texts_def delivered_to_def sample_run_def sample_program_run_def map_filter_simps
        signal_key_parts go_index_def)
  from program_publishes_expected_orders [OF sample_main, of sample_key ?v "(=)" sample_program_run p] p
  obtain n s where "fresh_mgr (\<lambda>_. None :: nat abi option) [] [] sample_config sample_key ?v n"
    "pr_mgrs p sample_key = Some s" "nm_Outbox (sy_mgr s) = expected_orders n sample_run" "pr_chans p sample_key = Some []"
    by (auto simp: gc sample_chain_run texts)
  moreover from this(1) have "nm_EnemiesMap n = [''0xenemy'' \<mapsto> True]"
    by (simp add: fresh_mgr_def sample_chain_name) (simp add: sample_config_def map_get_def enemies_map_def map_build_def sample_lower)
  ultimately show ?thesis using p by blast
qed

section \<open>Start-up beside the managers\<close>

text \<open>
  C15: that the program starts its goroutines one after the other, and that they begin when
  they like, makes no difference: with or without a panic at a later chain, the sequences of
  events of the program that is still starting are those of the program that has started
  everything \<open>main\<close> starts, and what it has of channels and managers is the same.
\<close>

theorem startup_order_is_invisible:
  assumes "main new_logger dial abi_JSON uniData joeData gc = (acts, r)" and "distinct (map fst (gc_ChainConfig gc))"
  shows "((\<exists>b. boot_run matches r (booting_start (map fst (gc_ChainConfig gc)) acts) tr b) \<longleftrightarrow>
      (\<exists>p. prog_run matches (started (map fst (gc_ChainConfig gc)) acts) tr p)) \<and>
    (\<forall>b. boot_run matches r (booting_start (map fst (gc_ChainConfig gc)) acts) tr b \<longrightarrow>
      (\<exists>p. prog_run matches (started (map fst (gc_ChainConfig gc)) acts) tr p \<and> part_of (bo_prog b) p))"
proof -
  note start = leads_start [OF main_action_keys [OF assms]]
  have "\<exists>p. prog_run matches (started (map fst (gc_ChainConfig gc)) acts) tr p \<and> part_of (bo_prog b) p"
    if "boot_run matches r (booting_start (map fst (gc_ChainConfig gc)) acts) tr b" for b
    using boot_simulated [OF that start] by (auto simp: leads_def)
  then show ?thesis using started_is_booting [of matches _ acts tr _ r] by blast
qed

text \<open>
  C3: whatever \<open>main\<close> has yet to do, and whether it gets to its end or panics, a chain whose
  manager runs has published exactly the orders its own events call for, and has received
  its messages without loss and in order.
\<close>

theorem orders_during_startup:
  assumes "main new_logger dial abi_JSON uniData joeData gc = (acts, r)"
    and "distinct (map fst (gc_ChainConfig gc))" and "(k, v) \<in> set (gc_ChainConfig gc)"
    and "boot_run matches r (booting_start (map fst (gc_ChainConfig gc)) acts) tr b"
    and "pr_mgrs (bo_prog b) k = Some s"
  shows "\<exists>n waiting. fresh_mgr abi_JSON uniData joeData gc k v n \<and>
    nm_Outbox (sy_mgr s) = expected_orders n (chain_run k tr) \<and>
    pr_chans (bo_prog b) k = Some waiting \<and> delivered_to k tr = signal_texts (chain_run k tr) @ waiting"
proof -
  obtain n where n: "fresh_mgr abi_JSON uniData joeData gc k v n" and "chain_inv k (Execute n) tr (bo_prog b)"
    by (rule booting_chain [OF assms])
  then obtain waiting where s: "pr_chans (bo_prog b) k = Some waiting" "sys_run (Execute n) (chain_run k tr) s"
    "delivered_to k tr = signal_texts (chain_run k tr) @ waiting"
    using assms(5) by (auto simp: chain_inv_def)
  from run_expected_orders [OF s(2)] n have "nm_Outbox (sy_mgr s) = expected_orders n (chain_run k tr)"
    by (simp add: Execute_def fresh_mgr_def)
  with n s show ?thesis by blast
qed

text \<open>
  A second chain whose node cannot be dialled: the first one publishes its order, and then
  the process ends.
\<close>

definition failing_config :: "(unit, unit) DexExecutorConfig" where
  "failing_config = sample_config\<lparr>gc_ChainConfig := gc_ChainConfig sample_config @
     [(''bsc_v1'', \<lparr> ci_Router = [], ci_Tokens = [], ci_Endpoint = ''dead'', ci_WsEndpoint = ''dead'' \<rparr>)]\<rparr>"

abbreviation failing_acts :: "(nat NodeClient \<times> (nat, nat) NodeMgr) action list" where
  "failing_acts \<equiv> sample_acts @ [GoSubscribe (signal_key ''bsc_v1'')]"

lemma failing_main:
  "main (\<lambda>_. Some ()) (\<lambda>url. if url = ''dead'' then None else Some 0) (\<lambda>_. None) [] [] failing_config = (failing_acts, Some NilDereference)"
  by (simp add: main_def InitLogger_def failing_config_def sample_config_def sample_acts_def sample_chain_name Let_def map_get_def
      pair_symbol_map_eq sample_pair_name sample_lower map_build_def NewNodeMgr_def NewDexNodeClient_def
      NewRouterDecoder_def newRouter_def enemies_map_def sample_client_def sample_mgr_def chain_name_def
      split_head_takeWhile)

lemma failing_keys: "map fst (gc_ChainConfig failing_config) = [sample_key, ''bsc_v1'']"
  by (simp add: failing_config_def sample_config_def)

lemma failing_run:
  obtains b where "boot_run (=) (Some NilDereference) (booting_start [sample_key, ''bsc_v1''] failing_acts) sample_program_run b"
    and "bo_dead b" and "pr_mgrs (bo_prog b) sample_key = Some (sample_sys\<lparr>sy_mgr := sample_done\<rparr>)"
proof -
  let ?keys = "[sample_key, ''bsc_v1'']" and ?bsc = "GoSubscribe (signal_key ''bsc_v1'') :: (nat NodeClient \<times> (nat, nat) NodeMgr) action"
  let ?b = "\<lparr> bo_prog = started ?keys sample_acts, bo_left = [?bsc], bo_spawned = [], bo_dead = False \<rparr>"
  have "\<exists>q. prog_run (=) (started ?keys sample_acts) sample_program_run q \<and>
      pr_mgrs q sample_key = Some (sample_sys\<lparr>sy_mgr := sample_done\<rparr>) \<and> \<not> pr_crashed q"
    by (rule sample_prog_run_from)
      (simp_all add: started_def sample_acts_def StartNatsSubscribe_def Execute_def sample_sys_def init_chan)
  then obtain q where q: "prog_run (=) (started ?keys sample_acts) sample_program_run q"
    "pr_mgrs q sample_key = Some (sample_sys\<lparr>sy_mgr := sample_done\<rparr>)" "\<not> pr_crashed q" by blast
  let ?c = "?b\<lparr>bo_prog := q\<rparr>"
  let ?d = "?c\<lparr>bo_left := [], bo_spawned := [?bsc]\<rparr>"
  have 1: "boot_run (=) (Some NilDereference) (booting_start ?keys failing_acts) sample_program_run ?c"
    using boot_takes_all [OF q(1) boot_starts_some [where keys = ?keys and begun = sample_acts and left = "[?bsc]"]] by simp
  have alive: "bo_alive ?c" "bo_alive ?d" using q(3) by (simp_all add: bo_alive_def)
  have 2: "boot_step (=) (Some NilDereference) ?c None ?d"
    using go_statement [OF alive(1), of ?bsc "[]"] by simp
  have 3: "boot_step (=) (Some NilDereference) ?d None (?d\<lparr>bo_dead := True\<rparr>)"
    using main_panics [OF alive(2)] by simp
  from boot_snoc [OF boot_snoc [OF 1 2] 3] show ?thesis
    by (intro that [of "?d\<lparr>bo_dead := True\<rparr>"]) (use q(2) in simp_all)
qed

theorem startup_order_is_invisible_witness:
  "(\<exists>p. prog_run (=) (started [sample_key, ''bsc_v1''] failing_acts) sample_program_run p) \<and>
   (\<exists>b. boot_run (=) (Some NilDereference) (booting_start [sample_key, ''bsc_v1''] failing_acts) sample_program_run b \<and> bo_dead b)"
proof -
  obtain b where b: "boot_run (=) (Some NilDereference) (booting_start [sample_key, ''bsc_v1''] failing_acts) sample_program_run b" "bo_dead b"
    by (rule failing_run)
  with startup_order_is_invisible [OF failing_main, unfolded failing_keys, of "(=)" sample_program_run]
  show ?thesis by auto
qed

theorem orders_during_startup_witness:
  "\<exists>b n s. boot_run (=) (Some NilDereference) (booting_start [sample_key, ''bsc_v1''] failing_acts) sample_program_run b \<and>
     bo_dead b \<and> pr_mgrs (bo_prog b) sample_key = Some s \<and> nm_Outbox (sy_mgr s) = expected_orders n sample_run \<and>
     nm_Outbox (sy_mgr s) = [sample_order]"
proof -
  obtain b where b: "boot_run (=) (Some NilDereference) (booting_start [sample_key, ''bsc_v1''] failing_acts) sample_program_run b"
    "bo_dead b" "pr_mgrs (bo_prog b) sample_key = Some (sample_sys\<lparr>sy_mgr := sample_done\<rparr>)"
    by (rule failing_run)
  have "(sample_key, hd (map snd (gc_ChainConfig sample_config))) \<in> set (gc_ChainConfig failing_config)"
    by (simp add: failing_config_def sample_config_def)
  from orders_during_startup [OF failing_main _ this, unfolded failing_keys, OF _ b(1,3)]
  obtain n where "nm_Outbox sample_done = expected_orders n sample_run"
    by (auto simp: sample_chain_run)
  with b show ?thesis
    by (intro exI [of _ b] exI [of _ n] exI [of _ "sample_sys\<lparr>sy_mgr := sample_done\<rparr>"]) (simp add: sample_done_def)
qed

section \<open>Routing\<close>

text \<open>The messages the broker delivered under a subject.\<close>

definition published_under :: "string \<Rightarrow> ('tx, 'v) program_event list \<Rightarrow> bytes list" where
  "published_under subject tr =
     List.map_filter (\<lambda>e. case e of Delivered subj data \<Rightarrow> if subj = subject then Some data else None | _ \<Rightarrow> None) tr"

lemma delivered_published:
  assumes "main new_logger dial abi_JSON uniData joeData gc = (acts, None)" and "plain_keys gc"
    and "prog_run (=) (started (map fst (gc_ChainConfig gc)) acts) tr p"
    and "k \<in> fst ` set (gc_ChainConfig gc)"
  shows "\<not> pr_crashed p" and "delivered_to k tr = published_under (signal_key k) tr"
proof -
  let ?p0 = "started (map fst (gc_ChainConfig gc)) acts"
  have subs: "\<exists>k. sub = signal_key k \<and> CHR ''.'' \<notin> set k \<and> CHR ''{'' \<notin> set k" if "sub \<in> set (pr_subs ?p0)" for sub
    using started_subs [OF assms(1) that] assms(2) by (auto simp: plain_keys_def)
  have "\<not> pr_crashed ?p0" by (simp add: started_def start_crashed)
  from run_no_panic [OF assms(3) this subs] show "\<not> pr_crashed p" .
  show "delivered_to k tr = published_under (signal_key k) tr"
    unfolding delivered_to_def published_under_def
  proof (rule map_filter_cong)
    fix e assume e: "e \<in> set tr"
    show "routed k e = (case e of Delivered subj data \<Rightarrow> if subj = signal_key k then Some data else None | _ \<Rightarrow> None)"
    proof (cases e)
      case (Delivered subject data)
      obtain k' where k': "subject = signal_key k'" "CHR ''.'' \<notin> set k'" "CHR ''{'' \<notin> set k'"
        using run_delivers [OF assms(3) e [unfolded Delivered], of "\<lambda>sub. \<exists>k. sub = signal_key k \<and>
            CHR ''.'' \<notin> set k \<and> CHR ''{'' \<notin> set k"] subs by blast
      have k: "CHR ''.'' \<notin> set k" "CHR ''{'' \<notin> set k" using assms(2,4) by (auto simp: plain_keys_def)
      have "routed k e = (if k = k' then Some data else None)"
        unfolding Delivered k'(1) by (rule plain_delivery(2) [OF k'(2,3)])
      with k k' signal_key_inject [OF k k'(2,3)] Delivered show ?thesis by auto
    qed simp_all
  qed
qed

text \<open>
  C40: when chain keys have neither a dot nor an opening brace and the broker delivers under
  the subscribed subjects only, no message ends the program, and the messages published under
  the subject of a chain are those the chain's manager has received followed by those that
  wait in the chain's channel, in their order and without any other.
\<close>

theorem messages_reach_their_chain:
  assumes "main new_logger dial abi_JSON uniData joeData gc = (acts, None)" and "plain_keys gc"
    and "distinct (map fst (gc_ChainConfig gc))" and "k \<in> fst ` set (gc_ChainConfig gc)"
    and "prog_run (=) (started (map fst (gc_ChainConfig gc)) acts) tr p"
  shows "\<not> pr_crashed p \<and> (\<exists>waiting. pr_chans p k = Some waiting \<and>
    published_under (signal_key k) tr = signal_texts (chain_run k tr) @ waiting)"
proof -
  obtain v where "(k, v) \<in> set (gc_ChainConfig gc)" using assms(4) by auto
  from program_chain [OF assms(1,3) this assms(5)] obtain n where "chain_inv k (Execute n) tr p" by blast
  then show ?thesis using delivered_published [OF assms(1,2,5,4)] by (auto simp: chain_inv_def)
qed

theorem messages_reach_their_chain_witness:
  "\<exists>p tr waiting. prog_run (=) sample_started tr p \<and> tr = [Delivered (signal_key sample_key) sample_text] \<and>
     \<not> pr_crashed p \<and> pr_chans p sample_key = Some waiting \<and> [sample_text] = signal_texts (chain_run sample_key tr) @ waiting"
proof -
  let ?p = "sample_started\<lparr>pr_chans := [sample_key \<mapsto> [sample_text]], pr_crashed := False\<rparr>"
  let ?tr = "[Delivered (signal_key sample_key) sample_text] :: (nat, nat) program_event list"
  have gc: "map fst (gc_ChainConfig sample_config) = [sample_key]" "plain_keys sample_config"
    "sample_key \<in> fst ` set (gc_ChainConfig sample_config)" "distinct (map fst (gc_ChainConfig sample_config))"
    by (simp_all add: sample_config_def plain_keys_def)
  note run = prog_one [OF sample_deliver]
  have "published_under (signal_key sample_key) ?tr = [sample_text]"
    by (simp add: published_under_def map_filter_simps)
  with messages_reach_their_chain [OF sample_main gc(2,4,3), unfolded gc(1), OF run] run show ?thesis
    by (intro exI [of _ ?p] exI [of _ ?tr]) auto
qed

text \<open>
  C25: in every state of a program \<open>main\<close> started that no handler has ended, and whatever
  panics its loops are recovering from, the manager of a chain can receive all the messages
  that wait for it, in order, with no more than one restart of its loop for each.
\<close>

theorem waiting_messages_can_be_received:
  assumes "main new_logger dial abi_JSON uniData joeData gc = (acts, None)"
    and "distinct (map fst (gc_ChainConfig gc))" and "(k, v) \<in> set (gc_ChainConfig gc)"
    and "prog_run matches (started (map fst (gc_ChainConfig gc)) acts) tr p" and "\<not> pr_crashed p"
  shows "\<exists>waiting tr' q. pr_chans p k = Some waiting \<and> prog_run matches p tr' q \<and>
    length tr' \<le> 2 * length waiting \<and> signal_texts (chain_run k tr') = waiting \<and> pr_chans q k = Some []"
proof -
  obtain n where "chain_inv k (Execute n) tr p" by (rule program_chain [OF assms(1-4)])
  then obtain s waiting where "pr_mgrs p k = Some s" "pr_chans p k = Some waiting" by (auto simp: chain_inv_def)
  with receive_all [OF assms(5) this] show ?thesis by blast
qed

theorem waiting_messages_can_be_received_witness:
  "\<exists>p tr q. prog_run (=) sample_started [Delivered (signal_key sample_key) sample_text] p \<and>
     prog_run (=) p tr q \<and> signal_texts (chain_run sample_key tr) = [sample_text] \<and> pr_chans q sample_key = Some []"
proof -
  let ?v = "\<lparr> ci_Router = [], ci_Tokens = [], ci_Endpoint = ''rpc'', ci_WsEndpoint = ''ws'' \<rparr>"
  let ?p = "sample_started\<lparr>pr_chans := [sample_key \<mapsto> [sample_text]], pr_crashed := False\<rparr>"
  have gc: "gc_ChainConfig sample_config = [(sample_key, ?v)]" by (simp add: sample_config_def)
  note run = prog_one [OF sample_deliver]
  from waiting_messages_can_be_received [OF sample_main, of sample_key ?v "(=)"
      "[Delivered (signal_key sample_key) sample_text]" ?p] run
  obtain tr q where "prog_run (=) ?p tr q" "signal_texts (chain_run sample_key tr) = [sample_text]"
    "pr_chans q sample_key = Some []"
    by (auto simp: gc)
  with run show ?thesis by blast
qed

end
