(* ===== verification/Spec2Isabelle.thy ===== *)
theory Spec2Isabelle
  imports Manager_Properties Order_Properties Wiring_Properties Ws_Properties Conn_Properties Program_Properties
begin

text \<open>
  A model of DexExecutorgo, a program that follows the pending transactions of a chain
  and publishes trading orders of its own when a competitor moves on a pair a signal is
  known for.

  The program. \<open>main.go\<close> starts one manager per configured chain (\<open>core/node_mgr.go\<close>).
  A manager runs two loops. \<open>GasPriceAnalyse\<close> takes pending transactions and signals: a
  transaction to a known router is decoded from its calldata (\<open>RouterDecoder\<close>), one to a
  competitor's contract by tracing it on the node (\<open>CallClientDecoder\<close>); when symbols come
  out and signals are known, \<open>RebuildTx\<close> looks up the latest signal for the first symbol,
  checks the block number and calls \<open>Trade\<close>, which publishes an order request.
  \<open>SubGethBlockHeader\<close> logs block headers. Signals arrive over NATS
  (\<open>core/nats_sub.go\<close>). \<open>core/ethwebsocket.go\<close> holds the node client,
  \<open>core/websocket.go\<close> a general websocket client with reconnection, and \<open>core/node_ws.go\<close>
  the raw subscriptions that use it.

  The theories, each with the source it models.
  \<^item> \<open>Go_Prelude\<close>, \<open>Go_Strings\<close>, \<open>Go_Channel\<close>, \<open>Float64\<close>, \<open>Go_Json\<close>, \<open>Json_Text\<close>,
    \<open>Json_Print\<close>: what the program uses of Go and its standard library. Panics are values
    (\<open>Inl\<close>), integers are words, \<open>float64\<close> is binary64 with rounding to nearest even.
    \<open>encoding/json\<close> is a scanner and a parser from text to JSON trees (\<open>Json_Text\<close>, with
    escapes, UTF-8 and the limit on nesting), an encoder that they invert (\<open>Json_Print\<close>), and
    decoders from trees to values with Go's rules for field names, null and missing members
    (\<open>Go_Json\<close>). \<open>Go_Channel\<close> has buffered channels with close, and runs that may wait at an
    operation that is not ready.
  \<^item> \<open>Core_Types\<close>: the structs of \<open>core/type.go\<close> and their JSON decoders.
  \<^item> \<open>Sliding_Window\<close>: the idiom by which the three logs of \<open>core/node_mgr.go\<close> and the one of
    \<open>core/node_ws.go\<close> stay short, with its contract as a locale.
  \<^item> \<open>Symbol_Decoder\<close>, \<open>Call_Decoder\<close>, \<open>Router_Decoder\<close>: the two decoders of
    \<open>core/node_mgr.go\<close>, both interpretations of the locale of the first.
  \<^item> \<open>Trade\<close>: the order request that \<open>Trade\<close> builds; \<open>Node_Mgr\<close>: the manager and the handlers
    of its loops; \<open>Mgr_System\<close>: both loops with recovery from panics as a step relation.
    \<open>Mgr_Interleaved\<close> has the same loops at the grain of their single accesses to the list of
    headers, \<open>Mgr_Serializable\<close> the simulation by the system with atomic handlers, and
    \<open>Mgr_Torn\<close> a run that has no counterpart there. \<open>Signal_Types\<close>: which numbers decoded
    signals hold; \<open>Gas_Price\<close>: the fee's arithmetic and its error. \<open>Mgr_Orders\<close>: what an
    execution publishes, as a function of its events.
  \<^item> \<open>Config_Load\<close> (\<open>config/config.go\<close>), \<open>Utils_Log\<close> (\<open>utils\<close>), \<open>Nats_Sub\<close>
    (\<open>core/nats_sub.go\<close>), \<open>Node_Client\<close> (\<open>core/ethwebsocket.go\<close> and the handlers of
    \<open>core/node_ws.go\<close>), \<open>Main_Wiring\<close> (\<open>main.go\<close> and \<open>NewNodeMgr\<close>).
  \<^item> \<open>Program\<close>: the start-up of the process, from the configuration file through the
    packages' \<open>init\<close> functions and \<open>main\<close>, and what it started, as one system: the managers
    of all chains, the handlers of NATS messages, and the unbuffered channels between them.
    \<open>Program_Startup\<close>: the same program while \<open>main\<close> is still starting it.
  \<^item> \<open>Ws_Builder\<close>, \<open>Ws_Conn\<close>, \<open>Ws_Loops\<close>: \<open>core/websocket.go\<close>, its configuration, the methods
    of a connection, and its two goroutines as a step relation with any number of callers.
    \<open>Ws_Reconnect\<close>, \<open>Ws_Lock\<close> and \<open>Ws_Invariants\<close> hold the facts about reconnecting and
    closing, the discipline of the mutex, and the invariants every step keeps; \<open>Ws_Calm\<close> the
    executions in which no caller closes the client; \<open>Ws_Handlers\<close> which handlers for control
    frames are installed; \<open>Ws_Full\<close> what a full write channel does to a client.
    \<open>Node_Ws\<close> is \<open>EstablishConn\<close> with its two users.
  \<^item> \<open>Sample_Chain\<close>: concrete values for the examples. \<open>Manager_Properties\<close>,
    \<open>Order_Properties\<close>, \<open>Wiring_Properties\<close>, \<open>Ws_Properties\<close>, \<open>Conn_Properties\<close>,
    \<open>Program_Properties\<close>: the properties.

  State and operations. \<open>NodeMgr\<close> keeps the fields of the struct that operations read or
  write; three more record what leaves it: the published orders, the calls of \<open>CancelTx\<close>, and
  the closed connections. A handler is a function from the manager to the manager and the
  panic that ended it, if one did: what it did before the panic stays done. A step of
  \<open>Mgr_System\<close> is one handler. The loops share the manager without a lock; the one field
  both use is the list of headers. In \<open>Mgr_Interleaved\<close> every read of it by a handler, and
  the cut and the append of the header loop, are steps of their own; an index expression
  reads it twice, for the length and for the element, in either order. Every run in which the
  list does not change between these two reads is shown to end like a run of \<open>Mgr_System\<close>;
  when it does change, the loop can panic as no run of \<open>Mgr_System\<close> does. The properties about
  executions of a manager and of the program are about the atomic handlers. The websocket client is finer still: a goroutine waits for
  its turn before every operation that reads or changes something it shares with others (the
  connection in use, the channels, the mutex, the network, the node client), and for the mutex
  or room in a channel when it needs them; any other goroutine may run in between. The rest of
  its run is kept as a continuation. \<open>alone\<close> is the run of a goroutine whom no other one
  interrupts; a property about it is one about the operation itself, one about \<open>ws_step\<close> holds
  for every order of the goroutines. \<open>WsConn\<close> extends the record \<open>WsConfig\<close> as the
  struct embeds it; function values are names, interpreted by the environment of the
  connection, which for the node's connections is \<open>node_env\<close>.

  What the lemmas show. In every run of the whole program the orders of a chain are exactly
  those its own configuration, messages, headers and competitor's or router transactions
  call for, and its messages reach it without loss and in order; every published order goes
  back to a signal, a header and a transaction that arrived and passes the block check;
  the logs are bounded and agree with the history of signals for lookups near its end;
  handlers may be taken as atomic but for torn index expressions, and the start-up as complete before the first event; what
  each kind of transaction does, and exactly which ones make the loop panic; the
  every field of order requests, their hedges item by item, and the independence of map order;
  the fee within a wei; the symbols both decoders find; when the process comes through its start-up, and the maps its
  managers run with. For the websocket client: what subscribing queues, no panic as long as no caller closes it,
  how a message gets to its handler, reconnecting with its pauses, one reconnect at a time,
  the frame handlers that only the first connection has, and what closing does.

  Where the code does not do what it means to, the property states what it does: a
  competitor's transaction for a symbol without a signal trades the oldest signal; the age
  check on headers never finds one stale; the last header is indexed with a length that may
  be out of date; router addresses with capitals never match; a client that gives up
  reconnecting waits for the mutex it holds; closing a client twice panics; a connection
  both goroutines see fail is replaced twice; a client whose write channel is full when it reconnects can wait for ever;
  after a reconnect pings no longer extend the read deadline; one chain whose node cannot be
  dialled keeps the whole program from starting, after others may have published orders.

  Bounds. The logs are cut at 200 entries to the latest 100, so a lookup within the 102
  latest signals is exact. Loops are structural recursions; the endless retry of a
  subscription is a partial function whose result is \<open>None\<close> when no attempt succeeds;
  the hundred attempts to reconnect are a list.

  Parameters. The node, NATS, the SDK logger, the ABI library, the clock, the format of fractional
  numbers, the file system, the URL parser, the resolver and the network are arguments:
  \<open>tx_env\<close>, \<open>call_rpc\<close>, \<open>router_lib\<close>, \<open>ws_env\<close> and \<open>network\<close> collect them. The network may
  answer depending on everything that happened before; panics inside the websocket package
  are outside the model. Constants of the generated protocol package are \<open>proto_consts\<close>.

  Subscriptions: which subjects match one is an argument of \<open>Program\<close>. \<open>Program\<close> follows the
  program from the point where \<open>main\<close> has started everything it starts; \<open>Program_Startup\<close>
  interleaves the start-up with the goroutines started already, and shows that nothing else
  can be observed, also when \<open>main\<close> ends in a panic.

  Not modelled: log lines, metrics of the SDK logger, the two ABI texts of
  \<open>core/consts.go\<close>, the set-up of the subscriber's connection, and the
  tests. The pair files are read by a third-party JSON library, which is an argument. A read
  or write of a slice variable is one step; torn reads of its three words are not modelled.
  A slice member repeated within one JSON object is decoded into fresh elements, where Go
  starts from the old ones.
\<close>

end
